(* ===== verification/Js_Prelude.thy ===== *)
theory Js_Prelude
  imports Complex_Main "HOL-Library.Multiset"
begin

text \<open>
  Shared vocabulary of the development: the part of JavaScript's value and string semantics that
  the services use, and generic lemmas on lists and options.

  \<^item> \<open>jsnum\<close> is a JavaScript number: a finite value (kept as an exact rational, the rounding of a
    literal to the nearest double is not modelled), an infinity or NaN.
  \<^item> \<open>json\<close> is a \<open>JsonValue\<close> of \<open>packages/events-sdk/src/json.ts\<close>; an object is the list of its
    own properties, and \<open>obj_get\<close> is property access (\<open>None\<close> is \<open>undefined\<close>). Names that an
    object inherits from \<open>Object.prototype\<close> are not own properties and read as \<open>undefined\<close>.
  \<^item> strings are lists of characters with codes below 256; case folding acts on ASCII letters.
  \<^item> \<open>to_number\<close> is the \<open>ToNumber\<close> coercion of the relational operators and of \<open>Number(...)\<close>.
\<close>

named_theorems table_simps \<open>rewriting of lookups and updates on database tables\<close>
named_theorems invariant_intros \<open>operations preserve the invariant of their component\<close>

section \<open>Values\<close>

datatype jsnum = Fin rat | PosInf | NegInf | NaN

datatype json =
    JNull
  | JBool bool
  | JNum jsnum
  | JStr string
  | JArr "json list"
  | JObj "(string \<times> json) list"

type_synonym json_object = "(string \<times> json) list"

fun obj_get :: "json_object \<Rightarrow> string \<Rightarrow> json option" where
  "obj_get [] k = None"
| "obj_get ((k', v) # kvs) k = (if k' = k then Some v else obj_get kvs k)"

text \<open>Property access on an arbitrary non-null value: only objects have the properties asked for.\<close>

fun json_get :: "json \<Rightarrow> string \<Rightarrow> json option" where
  "json_get (JObj kvs) k = obj_get kvs k"
| "json_get _ k = None"

definition js_isFinite :: "jsnum \<Rightarrow> bool" where
  "js_isFinite n \<longleftrightarrow> (case n of Fin _ \<Rightarrow> True | _ \<Rightarrow> False)"

text \<open>The relational operator \<open>a >= b\<close> on numbers: false as soon as one side is NaN.\<close>

fun jsnum_ge :: "jsnum \<Rightarrow> jsnum \<Rightarrow> bool" where
  "jsnum_ge NaN _ = False"
| "jsnum_ge _ NaN = False"
| "jsnum_ge PosInf _ = True"
| "jsnum_ge _ NegInf = True"
| "jsnum_ge NegInf _ = False"
| "jsnum_ge _ PosInf = False"
| "jsnum_ge (Fin a) (Fin b) = (b \<le> a)"

text \<open>Truthiness of an optional string: \<open>undefined\<close>, \<open>null\<close> and the empty string are falsy.\<close>

definition truthy :: "string option \<Rightarrow> bool" where
  "truthy s \<longleftrightarrow> (case s of None \<Rightarrow> False | Some x \<Rightarrow> x \<noteq> [])"

text \<open>
  A property of an object that may be absent, \<open>null\<close> or set; \<open>nullish\<close> reads it through
  \<open>?? undefined\<close>.
\<close>

datatype 'a field = Undefined | Null | Val 'a

fun nullish :: "'a field \<Rightarrow> 'a option" where
  "nullish (Val x) = Some x"
| "nullish _ = None"

section \<open>Strings\<close>

definition code :: "char \<Rightarrow> nat" where
  "code c = of_char c"

definition is_digit :: "char \<Rightarrow> bool" where
  "is_digit c \<longleftrightarrow> 48 \<le> code c \<and> code c \<le> 57"

definition lower_char :: "char \<Rightarrow> char" where
  "lower_char c = (if 65 \<le> code c \<and> code c \<le> 90 then char_of (code c + 32) else c)"

definition toLowerCase :: "string \<Rightarrow> string" where
  "toLowerCase s = map lower_char s"

fun starts_with :: "string \<Rightarrow> string \<Rightarrow> bool" where
  "starts_with s [] = True"
| "starts_with [] (p # ps) = False"
| "starts_with (c # s) (p # ps) = (c = p \<and> starts_with s ps)"

fun contains :: "string \<Rightarrow> string \<Rightarrow> bool" where
  "contains [] p = (p = [])"
| "contains (c # s) p = (starts_with (c # s) p \<or> contains s p)"

definition is_space :: "char \<Rightarrow> bool" where
  "is_space c \<longleftrightarrow> code c \<in> {9, 10, 11, 12, 13, 32, 160}"

definition trim :: "string \<Rightarrow> string" where
  "trim s = rev (dropWhile is_space (rev (dropWhile is_space s)))"

definition hex_digit :: "nat \<Rightarrow> char" where
  "hex_digit n = (if n < 10 then char_of (48 + n) else char_of (87 + n))"

definition hex_byte :: "char \<Rightarrow> string" where
  "hex_byte b = [hex_digit (code b div 16), hex_digit (code b mod 16)]"

text \<open>\<open>Buffer.toString('hex')\<close>: two lower-case digits per byte.\<close>

definition to_hex :: "string \<Rightarrow> string" where
  "to_hex bs = concat (map hex_byte bs)"

definition hex_value :: "char \<Rightarrow> nat option" where
  "hex_value c =
     (if 48 \<le> code c \<and> code c \<le> 57 then Some (code c - 48)
      else if 97 \<le> code c \<and> code c \<le> 102 then Some (code c - 87)
      else if 65 \<le> code c \<and> code c \<le> 70 then Some (code c - 55)
      else None)"

text \<open>
  \<open>Buffer.from(s, 'hex')\<close>: decoding stops at the first pair that is not two hex digits, and a
  trailing single digit is dropped.
\<close>

fun from_hex :: "string \<Rightarrow> string" where
  "from_hex (a # b # s) =
     (case (hex_value a, hex_value b) of
        (Some x, Some y) \<Rightarrow> char_of (16 * x + y) # from_hex s
      | _ \<Rightarrow> [])"
| "from_hex _ = []"

section \<open>Numbers from strings\<close>

text \<open>
  \<open>StringToNumber\<close>: surrounding white space is dropped, the empty string is 0, and the rest is a
  signed decimal literal, a signed \<open>Infinity\<close> or an unsigned \<open>0x\<close>/\<open>0o\<close>/\<open>0b\<close> literal;
  anything else is NaN. A finite value whose magnitude rounds past the largest double is an
  infinity.
\<close>

definition double_limit :: rat where
  "double_limit = 2 ^ 1024 - 2 ^ 970"

definition to_double :: "rat \<Rightarrow> jsnum" where
  "to_double q = (if double_limit \<le> q then PosInf else if q \<le> - double_limit then NegInf else Fin q)"

definition digits_value :: "nat \<Rightarrow> string \<Rightarrow> nat" where
  "digits_value base ds =
     foldl (\<lambda>acc d. base * acc + (case hex_value d of Some v \<Rightarrow> v | None \<Rightarrow> 0)) 0 ds"

definition is_base_digit :: "nat \<Rightarrow> char \<Rightarrow> bool" where
  "is_base_digit base c \<longleftrightarrow> (case hex_value c of Some v \<Rightarrow> v < base | None \<Rightarrow> False)"

text \<open>The exponent part that may follow a decimal mantissa; \<open>None\<close> when it is malformed.\<close>

definition exponent_part :: "string \<Rightarrow> int option" where
  "exponent_part s =
     (case s of
        [] \<Rightarrow> Some 0
      | c # r \<Rightarrow>
          if c \<notin> {CHR ''e'', CHR ''E''} then None
          else (let neg = (case r of d # _ \<Rightarrow> d = CHR ''-'' | [] \<Rightarrow> False);
                    ds = (case r of d # r' \<Rightarrow> if d \<in> {CHR ''-'', CHR ''+''} then r' else r | [] \<Rightarrow> r)
                in if ds = [] \<or> \<not> list_all is_digit ds then None
                   else Some ((if neg then -1 else 1) * int (digits_value 10 ds))))"

definition scale10 :: "rat \<Rightarrow> int \<Rightarrow> rat" where
  "scale10 q e = (if 0 \<le> e then q * 10 ^ nat e else q / 10 ^ nat (- e))"

definition unsigned_decimal :: "string \<Rightarrow> jsnum" where
  "unsigned_decimal s =
     (if s = ''Infinity'' then PosInf
      else (let whole = takeWhile is_digit s;
                rest = dropWhile is_digit s;
                dotted = (case rest of c # _ \<Rightarrow> c = CHR ''.'' | [] \<Rightarrow> False);
                frac = (if dotted then takeWhile is_digit (tl rest) else []);
                tail = (if dotted then dropWhile is_digit (tl rest) else rest)
            in if whole = [] \<and> frac = [] then NaN
               else (case exponent_part tail of
                       None \<Rightarrow> NaN
                     | Some e \<Rightarrow>
                         to_double (scale10 (of_nat (digits_value 10 (whole @ frac)))
                                            (e - int (length frac))))))"

fun negate :: "jsnum \<Rightarrow> jsnum" where
  "negate (Fin q) = Fin (- q)"
| "negate PosInf = NegInf"
| "negate NegInf = PosInf"
| "negate NaN = NaN"

definition based_literal :: "nat \<Rightarrow> string \<Rightarrow> jsnum" where
  "based_literal base ds =
     (if ds = [] \<or> \<not> list_all (is_base_digit base) ds then NaN
      else to_double (of_nat (digits_value base ds)))"

definition string_to_number :: "string \<Rightarrow> jsnum" where
  "string_to_number raw =
     (case trim raw of
        [] \<Rightarrow> Fin 0
      | c # s \<Rightarrow>
          if c = CHR ''-'' then negate (unsigned_decimal s)
          else if c = CHR ''+'' then unsigned_decimal s
          else if c = CHR ''0'' \<and> s \<noteq> [] \<and> toLowerCase [hd s] = ''x'' then based_literal 16 (tl s)
          else if c = CHR ''0'' \<and> s \<noteq> [] \<and> toLowerCase [hd s] = ''o'' then based_literal 8 (tl s)
          else if c = CHR ''0'' \<and> s \<noteq> [] \<and> toLowerCase [hd s] = ''b'' then based_literal 2 (tl s)
          else unsigned_decimal (c # s))"

text \<open>
  \<open>ToNumber\<close> on a JSON value. An array becomes the string of its joined elements: empty is 0, one
  element is the number of that element's string, more contain a comma and are NaN. An object
  becomes \<open>[object Object]\<close>, NaN, unless it carries its own (uncallable) \<open>toString\<close>, which
  raises a \<open>TypeError\<close> (\<open>None\<close>).
\<close>

fun to_string_ok :: "json \<Rightarrow> bool" where
  "to_string_ok (JArr xs) = list_all to_string_ok xs"
| "to_string_ok (JObj kvs) = (obj_get kvs ''toString'' = None)"
| "to_string_ok _ = True"

fun number_of :: "json \<Rightarrow> jsnum" where
  "number_of JNull = Fin 0"
| "number_of (JBool b) = Fin (if b then 1 else 0)"
| "number_of (JNum n) = n"
| "number_of (JStr s) = string_to_number s"
| "number_of (JArr []) = Fin 0"
| "number_of (JArr [JBool b]) = NaN"
| "number_of (JArr [x]) = number_of x"
| "number_of (JArr (x # y # zs)) = NaN"
| "number_of (JObj kvs) = NaN"

definition to_number :: "json \<Rightarrow> jsnum option" where
  "to_number j = (if to_string_ok j then Some (number_of j) else None)"

section \<open>Generic lemmas\<close>

lemma find_append_Some [simp]:
  "List.find P (xs @ ys) = (case List.find P xs of Some x \<Rightarrow> Some x | None \<Rightarrow> List.find P ys)"
  by (induction xs) auto

lemma find_SomeD: "List.find P xs = Some x \<Longrightarrow> x \<in> set xs \<and> P x"
  by (induction xs) (auto split: if_splits)

lemma find_key_unique:
  assumes "distinct (map f xs)" and "x \<in> set xs"
  shows "List.find (\<lambda>y. f y = f x) xs = Some x"
  using assms by (induction xs) (auto simp: rev_image_eqI)

lemma hex_digit_value: "n < 16 \<Longrightarrow> hex_value (hex_digit n) = Some n"
  by (auto simp: hex_digit_def hex_value_def code_def)

lemma hex_byte_code: "16 * (code b div 16) + code b mod 16 = code b"
  by simp

lemma from_to_hex: "from_hex (to_hex bs) = bs"
proof (induction bs)
  case Nil
  then show ?case by (simp add: to_hex_def)
next
  case (Cons b bs)
  have "code b < 256" by (simp add: code_def)
  then have "code b div 16 < 16" and "code b mod 16 < 16" by auto
  then show ?case
    using Cons by (simp add: to_hex_def hex_byte_def hex_digit_value) (simp add: code_def)
qed

lemma to_hex_inj: "to_hex bs = to_hex cs \<Longrightarrow> bs = cs"
  by (metis from_to_hex)

end
