(* ===== verification/Gateway_Dto.thy ===== *)
theory Gateway_Dto
  imports Js_Prelude
begin

text \<open>
  \<open>apps/api-gateway/src/dto\<close>: the checks of the request bodies, queries and path parameters. A class of
  the source is the table of its properties with their decorators, in order; the validation pipe of
  \<open>main.ts\<close> rejects a property that the table does not name (\<open>forbidNonWhitelisted\<close>) and a property one of
  whose decorators fails; \<open>IsOptional\<close> skips the others when the property is absent or \<open>null\<close>. The URL and
  email checks of the validation library are the arguments \<open>isUrl\<close> and \<open>isEmail\<close>. A body is the list of
  its properties; a query gives each name one text, which \<open>Type\<close> converts before the checks.
\<close>

section \<open>Decorators\<close>

datatype decorator =
    IsString | IsNotEmpty | MaxLength nat | IsInt | Min int | Max int | IsBoolean | IsArray | IsStringEach
  | IsUrl | IsEmail | IsIn "string list" | Matches "string \<Rightarrow> bool" | IsRuleShape

definition is_integer :: "json option \<Rightarrow> bool" where
  "is_integer v = (case v of Some (JNum (Fin q)) \<Rightarrow> of_int (floor q) = q | _ \<Rightarrow> False)"

definition string_that :: "(string \<Rightarrow> bool) \<Rightarrow> json option \<Rightarrow> bool" where
  "string_that P v = (case v of Some (JStr s) \<Rightarrow> P s | _ \<Rightarrow> False)"

definition number_that :: "(jsnum \<Rightarrow> bool) \<Rightarrow> json option \<Rightarrow> bool" where
  "number_that P v = (case v of Some (JNum n) \<Rightarrow> P n | _ \<Rightarrow> False)"

text \<open>\<open>rule-shape.validator.ts\<close>: an object with a non-empty text under \<open>type\<close>.\<close>

definition has_rule_type :: "json option \<Rightarrow> bool" where
  "has_rule_type v = (case v of Some (JObj kvs) \<Rightarrow> string_that (\<lambda>s. s \<noteq> []) (obj_get kvs ''type'') | _ \<Rightarrow> False)"

fun satisfies :: "(string \<Rightarrow> bool) \<Rightarrow> (string \<Rightarrow> bool) \<Rightarrow> json option \<Rightarrow> decorator \<Rightarrow> bool" where
  "satisfies isUrl isEmail v IsString = string_that (\<lambda>_. True) v"
| "satisfies isUrl isEmail v IsNotEmpty = (v \<noteq> None \<and> v \<noteq> Some JNull \<and> v \<noteq> Some (JStr []))"
| "satisfies isUrl isEmail v (MaxLength n) = string_that (\<lambda>s. length s \<le> n) v"
| "satisfies isUrl isEmail v IsInt = is_integer v"
| "satisfies isUrl isEmail v (Min n) = number_that (\<lambda>x. jsnum_ge x (Fin (of_int n))) v"
| "satisfies isUrl isEmail v (Max n) = number_that (\<lambda>x. jsnum_ge (Fin (of_int n)) x) v"
| "satisfies isUrl isEmail v IsBoolean = (v = Some (JBool True) \<or> v = Some (JBool False))"
| "satisfies isUrl isEmail v IsArray = (case v of Some (JArr _) \<Rightarrow> True | _ \<Rightarrow> False)"
| "satisfies isUrl isEmail v IsStringEach =
     (case v of Some (JArr xs) \<Rightarrow> list_all (\<lambda>x. string_that (\<lambda>_. True) (Some x)) xs | _ \<Rightarrow> False)"
| "satisfies isUrl isEmail v IsUrl = string_that isUrl v"
| "satisfies isUrl isEmail v IsEmail = string_that isEmail v"
| "satisfies isUrl isEmail v (IsIn xs) = string_that (\<lambda>s. s \<in> set xs) v"
| "satisfies isUrl isEmail v (Matches P) = string_that P v"
| "satisfies isUrl isEmail v IsRuleShape = has_rule_type v"

datatype presence = Needed | IsOptional

type_synonym dto_spec = "(string \<times> presence \<times> decorator list) list"

definition valid_property :: "(string \<Rightarrow> bool) \<Rightarrow> (string \<Rightarrow> bool) \<Rightarrow> json_object \<Rightarrow> string \<times> presence \<times> decorator list \<Rightarrow> bool" where
  "valid_property isUrl isEmail kvs p =
     (case p of (name, presence, decorators) \<Rightarrow>
        let v = obj_get kvs name in
        (presence = IsOptional \<and> (v = None \<or> v = Some JNull)) \<or> list_all (satisfies isUrl isEmail v) decorators)"

definition valid_dto :: "(string \<Rightarrow> bool) \<Rightarrow> (string \<Rightarrow> bool) \<Rightarrow> dto_spec \<Rightarrow> json_object \<Rightarrow> bool" where
  "valid_dto isUrl isEmail spec kvs \<longleftrightarrow>
     list_all (\<lambda>(k, _). k \<in> set (map fst spec)) kvs \<and> list_all (valid_property isUrl isEmail kvs) spec"

section \<open>Bodies\<close>

definition gw_CreatePurchaseDto :: dto_spec where
  "gw_CreatePurchaseDto =
     [(''userId'', Needed, [IsString, IsNotEmpty, MaxLength 100]),
      (''email'', Needed, [IsEmail, MaxLength 320]),
      (''name'', Needed, [IsString, IsNotEmpty, MaxLength 200]),
      (''bankAccountNumber'', IsOptional, [IsString]),
      (''bankCode'', IsOptional, [IsString]),
      (''amountKobo'', Needed, [IsInt, Min 1])]"

definition gw_CreateAchievementGroupDto :: dto_spec where
  "gw_CreateAchievementGroupDto =
     [(''key'', Needed, [IsString, IsNotEmpty, MaxLength 100]),
      (''name'', Needed, [IsString, IsNotEmpty, MaxLength 200]),
      (''sortOrder'', IsOptional, [IsInt, Min 1])]"

definition gw_UpdateAchievementGroupDto :: dto_spec where
  "gw_UpdateAchievementGroupDto =
     [(''name'', IsOptional, [IsString, IsNotEmpty, MaxLength 200]),
      (''sortOrder'', IsOptional, [IsInt, Min 1])]"

definition gw_CreateAchievementConfigDto :: dto_spec where
  "gw_CreateAchievementConfigDto =
     [(''id'', Needed, [IsString, IsNotEmpty, MaxLength 100]),
      (''name'', Needed, [IsString, IsNotEmpty, MaxLength 200]),
      (''description'', IsOptional, [IsString, MaxLength 2000]),
      (''groupKey'', Needed, [IsString, IsNotEmpty, MaxLength 100]),
      (''sortOrder'', Needed, [IsInt, Min 1]),
      (''rule'', Needed, [IsRuleShape]),
      (''imageUrl'', IsOptional, [IsUrl]),
      (''active'', IsOptional, [IsBoolean])]"

definition gw_UpdateAchievementConfigDto :: dto_spec where
  "gw_UpdateAchievementConfigDto =
     [(''name'', IsOptional, [IsString, IsNotEmpty, MaxLength 200]),
      (''description'', IsOptional, [IsString, MaxLength 2000]),
      (''groupKey'', IsOptional, [IsString, MaxLength 100]),
      (''sortOrder'', IsOptional, [IsInt, Min 1]),
      (''rule'', IsOptional, [IsRuleShape]),
      (''imageUrl'', IsOptional, [IsUrl]),
      (''active'', IsOptional, [IsBoolean])]"

definition gw_CreateBadgeConfigDto :: dto_spec where
  "gw_CreateBadgeConfigDto =
     [(''id'', Needed, [IsString, IsNotEmpty, MaxLength 100]),
      (''name'', Needed, [IsString, IsNotEmpty, MaxLength 200]),
      (''description'', IsOptional, [IsString, MaxLength 2000]),
      (''sortOrder'', Needed, [IsInt, Min 1]),
      (''requiredAchievementCount'', Needed, [IsInt, Min 1]),
      (''requiredAchievementIds'', IsOptional, [IsArray, IsStringEach]),
      (''rewardAmountKobo'', IsOptional, [IsInt, Min 0]),
      (''rewardCurrency'', IsOptional, [IsString]),
      (''imageUrl'', IsOptional, [IsUrl]),
      (''active'', IsOptional, [IsBoolean])]"

definition gw_UpdateBadgeConfigDto :: dto_spec where
  "gw_UpdateBadgeConfigDto =
     [(''name'', IsOptional, [IsString, IsNotEmpty, MaxLength 200]),
      (''description'', IsOptional, [IsString, MaxLength 2000]),
      (''sortOrder'', IsOptional, [IsInt, Min 1]),
      (''requiredAchievementCount'', IsOptional, [IsInt, Min 1]),
      (''requiredAchievementIds'', IsOptional, [IsArray, IsStringEach]),
      (''rewardAmountKobo'', IsOptional, [IsInt, Min 0]),
      (''rewardCurrency'', IsOptional, [IsString]),
      (''imageUrl'', IsOptional, [IsUrl]),
      (''active'', IsOptional, [IsBoolean])]"

definition digits_between :: "nat \<Rightarrow> nat \<Rightarrow> string \<Rightarrow> bool" where
  "digits_between lo hi s \<longleftrightarrow> list_all is_digit s \<and> lo \<le> length s \<and> length s \<le> hi"

definition gw_RetryCashbackDto :: dto_spec where
  "gw_RetryCashbackDto =
     [(''bankAccountNumber'', IsOptional, [IsString, Matches (digits_between 10 10)]),
      (''bankCode'', IsOptional, [IsString, Matches (digits_between 3 6)])]"

section \<open>Queries\<close>

datatype query_type = Number | Boolean | Text_Param

type_synonym query_spec = "(string \<times> query_type \<times> decorator list) list"

definition CASHBACK_STATUS_VALUES :: "string list" where
  "CASHBACK_STATUS_VALUES = [''PENDING'', ''PROCESSING'', ''SUCCESSFUL'', ''FAILED'']"

definition gw_ListAchievementsQueryDto :: query_spec where
  "gw_ListAchievementsQueryDto =
     [(''page'', Number, [IsInt, Min 1]), (''limit'', Number, [IsInt, Min 1, Max 100]), (''search'', Text_Param, [IsString]),
      (''active'', Boolean, [IsBoolean]), (''groupKey'', Text_Param, [IsString])]"

definition gw_ListBadgesQueryDto :: query_spec where
  "gw_ListBadgesQueryDto =
     [(''page'', Number, [IsInt, Min 1]), (''limit'', Number, [IsInt, Min 1, Max 100]), (''search'', Text_Param, [IsString]),
      (''active'', Boolean, [IsBoolean])]"

definition gw_ListCashbacksQueryDto :: query_spec where
  "gw_ListCashbacksQueryDto =
     [(''page'', Number, [IsInt, Min 1]), (''limit'', Number, [IsInt, Min 1, Max 100]), (''userId'', Text_Param, [IsString]),
      (''status'', Text_Param, [IsIn CASHBACK_STATUS_VALUES]), (''search'', Text_Param, [IsString])]"

definition gw_ListBanksQueryDto :: query_spec where
  "gw_ListBanksQueryDto = [(''search'', Text_Param, [IsString])]"

text \<open>\<open>Type(() => Number)\<close> and \<open>Type(() => Boolean)\<close> apply the constructor: every non-empty text is true.\<close>

fun convert :: "query_type \<Rightarrow> string \<Rightarrow> json" where
  "convert Number s = JNum (string_to_number s)"
| "convert Boolean s = JBool (s \<noteq> [])"
| "convert Text_Param s = JStr s"

definition transform_query :: "query_spec \<Rightarrow> (string \<times> string) list \<Rightarrow> json_object" where
  "transform_query spec q =
     map (\<lambda>(k, s). (k, case map_of spec k of Some (t, _) \<Rightarrow> convert t s | None \<Rightarrow> JStr s)) q"

definition valid_query :: "query_spec \<Rightarrow> (string \<times> string) list \<Rightarrow> bool" where
  "valid_query spec q =
     valid_dto (\<lambda>_. False) (\<lambda>_. False) (map (\<lambda>(k, _, ds). (k, IsOptional, ds)) spec) (transform_query spec q)"

section \<open>Path parameters\<close>

text \<open>\<open>SAFE_ID_PATTERN\<close>: letters, digits, underscore and hyphen, at least one.\<close>

definition is_safe_char :: "char \<Rightarrow> bool" where
  "is_safe_char c \<longleftrightarrow> is_digit c \<or> (65 \<le> code c \<and> code c \<le> 90) \<or> (97 \<le> code c \<and> code c \<le> 122) \<or> c = CHR ''_'' \<or> c = CHR ''-''"

definition safe_id :: "string \<Rightarrow> bool" where
  "safe_id s \<longleftrightarrow> s \<noteq> [] \<and> list_all is_safe_char s"

end
