(* ===== verification/Gateway.thy ===== *)
theory Gateway
  imports Gateway_Dto
begin

text \<open>
  \<open>apps/api-gateway/src\<close>: the HTTP client that forwards a request to a service (retries of reads, error
  translation), the API key guard, the routes of \<open>gateway.controller.ts\<close>, the success envelope and the
  error body, composed into \<open>handle_request\<close>. The network is an argument: \<open>answers n\<close> is the outcome of the
  \<open>n\<close>-th request sent, and the requests sent are kept in a list. The text of a number and the messages of
  the validation library are the arguments \<open>num_text\<close> and \<open>messages\<close>; the delay between two attempts is not
  modelled. A header has one text, as Node's HTTP parser gives it.
\<close>

section \<open>Forwarding\<close>

datatype microservice_name = PurchaseMs | LoyaltyMs | CashbackMs

datatype http_method = GET | POST | PATCH

record forward_request =
  fr_service :: microservice_name
  fr_method :: http_method
  fr_path :: string
  fr_body :: "json option"
  fr_query :: json_object
  fr_correlationId :: "string option"
  fr_headers :: "(string \<times> string) list"

record sent_request =
  sr_url :: string
  sr_method :: http_method
  sr_body :: "json option"
  sr_query :: json_object
  sr_headers :: "(string \<times> string) list"

text \<open>What \<open>axios\<close> yields: a response, an error with or without a response, or another error.\<close>

datatype answer = Answered json | Refused nat json | NoResponse | OtherFailure

datatype exception_response = Text string | Body json

record http_exception =
  he_status :: nat
  he_response :: exception_response

definition READ_RETRIES :: nat where "READ_RETRIES = 2"

type_synonym service_urls = "microservice_name \<Rightarrow> string"

definition resolve :: "service_urls \<Rightarrow> microservice_name \<Rightarrow> string \<Rightarrow> string" where
  "resolve urls service path = urls service @ (if starts_with path ''/'' then path else ''/'' @ path)"

text \<open>An object built by spreading: a later value of a name replaces the earlier one in its place.\<close>

fun put :: "string \<Rightarrow> string \<Rightarrow> (string \<times> string) list \<Rightarrow> (string \<times> string) list" where
  "put k v [] = [(k, v)]"
| "put k v ((k', v') # h) = (if k' = k then (k, v) # h else (k', v') # put k v h)"

definition spread :: "(string \<times> string) list \<Rightarrow> (string \<times> string) list \<Rightarrow> (string \<times> string) list" where
  "spread base over = foldl (\<lambda>h (k, v). put k v h) base over"

definition headers_for :: "string \<Rightarrow> string option \<Rightarrow> (string \<times> string) list \<Rightarrow> (string \<times> string) list" where
  "headers_for contentType correlationId headers =
     spread (spread [(''content-type'', contentType)]
               (if truthy correlationId then [(''x-correlation-id'', the correlationId)] else [])) headers"

definition request_for :: "service_urls \<Rightarrow> string \<Rightarrow> forward_request \<Rightarrow> sent_request" where
  "request_for urls contentType r =
     \<lparr>sr_url = resolve urls (fr_service r) (fr_path r), sr_method = fr_method r, sr_body = fr_body r, sr_query = fr_query r,
      sr_headers = headers_for contentType (fr_correlationId r) (fr_headers r)\<rparr>"

definition shouldRetry :: "http_method \<Rightarrow> nat \<Rightarrow> answer \<Rightarrow> bool" where
  "shouldRetry method attempt err =
     (if method \<noteq> GET \<or> READ_RETRIES \<le> attempt then False
      else (case err of
              Refused status _ \<Rightarrow> status = 0 \<or> status = 408 \<or> status = 429 \<or> 500 \<le> status
            | NoResponse \<Rightarrow> True
            | _ \<Rightarrow> False))"

definition toHttpExceptionResponse :: "(jsnum \<Rightarrow> string) \<Rightarrow> json \<Rightarrow> exception_response" where
  "toHttpExceptionResponse num_text v =
     (case v of
        JNull \<Rightarrow> Text ''Downstream service failed''
      | JNum n \<Rightarrow> Text (num_text n)
      | JBool b \<Rightarrow> Text (if b then ''true'' else ''false'')
      | JStr s \<Rightarrow> Text s
      | _ \<Rightarrow> Body v)"

definition AppException :: "string \<Rightarrow> nat \<Rightarrow> string \<Rightarrow> string list \<Rightarrow> http_exception" where
  "AppException message status errorCode details =
     \<lparr>he_status = status,
      he_response = Body (JObj [(''message'', JStr message), (''errorCode'', JStr errorCode), (''details'', JArr (map JStr details))])\<rparr>"

definition toHttpException :: "(jsnum \<Rightarrow> string) \<Rightarrow> answer \<Rightarrow> http_exception" where
  "toHttpException num_text err =
     (case err of
        Refused status data \<Rightarrow> \<lparr>he_status = status, he_response = toHttpExceptionResponse num_text data\<rparr>
      | _ \<Rightarrow> AppException ''Downstream service is unavailable'' 502 ''DOWNSTREAM_UNAVAILABLE'' [])"

text \<open>The loop of \<open>forward\<close>, from an attempt on; it ends because the last attempt is not retried.\<close>

function forward_from ::
  "(jsnum \<Rightarrow> string) \<Rightarrow> service_urls \<Rightarrow> (nat \<Rightarrow> answer) \<Rightarrow> nat \<Rightarrow> forward_request \<Rightarrow> sent_request list
     \<Rightarrow> (http_exception + json) \<times> sent_request list" where
  "forward_from num_text urls answers attempt r sent =
     (let sent' = sent @ [request_for urls ''application/json'' r] in
      case answers (length sent) of
        Answered data \<Rightarrow> (Inr data, sent')
      | err \<Rightarrow>
          if shouldRetry (fr_method r) attempt err then forward_from num_text urls answers (attempt + 1) r sent'
          else (Inl (toHttpException num_text err), sent'))"
  by pat_completeness auto
termination
  by (relation "measure (\<lambda>(_, _, _, attempt, _, _). 3 - attempt)") (auto simp: shouldRetry_def READ_RETRIES_def split: if_splits)

declare forward_from.simps [simp del]

definition forward ::
  "(jsnum \<Rightarrow> string) \<Rightarrow> service_urls \<Rightarrow> (nat \<Rightarrow> answer) \<Rightarrow> forward_request \<Rightarrow> sent_request list
     \<Rightarrow> (http_exception + json) \<times> sent_request list" where
  "forward num_text urls answers r sent = forward_from num_text urls answers 0 r sent"

text \<open>\<open>forwardRaw\<close>: one attempt; the body is the raw text, passed on under the caller's content type.\<close>

definition forwardRaw ::
  "(jsnum \<Rightarrow> string) \<Rightarrow> service_urls \<Rightarrow> (nat \<Rightarrow> answer) \<Rightarrow> forward_request \<Rightarrow> string option \<Rightarrow> sent_request list
     \<Rightarrow> (http_exception + json) \<times> sent_request list" where
  "forwardRaw num_text urls answers r contentType sent =
     (let sent' = sent @ [request_for urls (case contentType of Some c \<Rightarrow> c | None \<Rightarrow> ''application/json'') r] in
      case answers (length sent) of
        Answered data \<Rightarrow> (Inr data, sent')
      | err \<Rightarrow> (Inl (toHttpException num_text err), sent'))"

section \<open>The guard and the routes\<close>

text \<open>\<open>getStringEnv(ADMIN_API_KEY, '')\<close> is the argument \<open>expectedKey\<close>.\<close>

definition UNAUTHORIZED :: http_exception where
  "UNAUTHORIZED = \<lparr>he_status = 401, he_response = Body (JObj [(''message'', JStr ''A valid x-api-key header is required for this endpoint''),
     (''error'', JStr ''Unauthorized''), (''statusCode'', JNum (Fin 401))])\<rparr>"

definition canActivate :: "string \<Rightarrow> string option \<Rightarrow> http_exception option" where
  "canActivate expectedKey providedKey =
     (if expectedKey = [] \<or> \<not> truthy providedKey \<or> the providedKey \<noteq> expectedKey then Some UNAUTHORIZED else None)"

text \<open>A route with its path parameter, its query or its body, in the order of the controller.\<close>

datatype route =
    CreatePurchase json_object | ListBanks "(string \<times> string) list" | GetAchievements string
  | GetAchievementGroups | CreateAchievementGroup json_object | UpdateAchievementGroup string json_object
  | GetAchievementConfigs "(string \<times> string) list" | GetLoyaltyCatalog | CreateAchievementConfig json_object
  | UpdateAchievementConfig string json_object | GetBadgeConfigs "(string \<times> string) list"
  | CreateBadgeConfig json_object | UpdateBadgeConfig string json_object | ListCashbacks "(string \<times> string) list"
  | RetryCashback string json_object | HandlePaystackWebhook "string option"

record gateway_request =
  gq_path :: string
  gq_headers :: "(string \<times> string) list"
  gq_route :: route

definition getHeader :: "gateway_request \<Rightarrow> string \<Rightarrow> string option" where
  "getHeader req name = map_of (gq_headers req) (toLowerCase name)"

definition optionalHeader :: "string \<Rightarrow> string option \<Rightarrow> (string \<times> string) list" where
  "optionalHeader name v = (if truthy v then [(name, the v)] else [])"

text \<open>\<open>CorrelationIdMiddleware\<close>: the id of the caller, or a fresh one.\<close>

definition correlation_id :: "string \<Rightarrow> gateway_request \<Rightarrow> string" where
  "correlation_id fresh req =
     (case getHeader req ''x-correlation-id'' of
        Some incoming \<Rightarrow> if incoming \<noteq> [] then incoming else ''corr_'' @ fresh
      | None \<Rightarrow> ''corr_'' @ fresh)"

text \<open>The routes under \<open>UseGuards(ApiKeyGuard)\<close>.\<close>

fun guarded :: "route \<Rightarrow> bool" where
  "guarded (CreatePurchase _) = False"
| "guarded (ListBanks _) = False"
| "guarded (GetAchievements _) = False"
| "guarded (HandlePaystackWebhook _) = False"
| "guarded _ = True"

text \<open>The validation pipe on the arguments of a handler.\<close>

fun valid_route :: "(string \<Rightarrow> bool) \<Rightarrow> (string \<Rightarrow> bool) \<Rightarrow> route \<Rightarrow> bool" where
  "valid_route isUrl isEmail (CreatePurchase b) = valid_dto isUrl isEmail gw_CreatePurchaseDto b"
| "valid_route isUrl isEmail (ListBanks q) = valid_query gw_ListBanksQueryDto q"
| "valid_route isUrl isEmail (GetAchievements u) = safe_id u"
| "valid_route isUrl isEmail GetAchievementGroups = True"
| "valid_route isUrl isEmail (CreateAchievementGroup b) = valid_dto isUrl isEmail gw_CreateAchievementGroupDto b"
| "valid_route isUrl isEmail (UpdateAchievementGroup k b) = (safe_id k \<and> valid_dto isUrl isEmail gw_UpdateAchievementGroupDto b)"
| "valid_route isUrl isEmail (GetAchievementConfigs q) = valid_query gw_ListAchievementsQueryDto q"
| "valid_route isUrl isEmail GetLoyaltyCatalog = True"
| "valid_route isUrl isEmail (CreateAchievementConfig b) = valid_dto isUrl isEmail gw_CreateAchievementConfigDto b"
| "valid_route isUrl isEmail (UpdateAchievementConfig i b) = (safe_id i \<and> valid_dto isUrl isEmail gw_UpdateAchievementConfigDto b)"
| "valid_route isUrl isEmail (GetBadgeConfigs q) = valid_query gw_ListBadgesQueryDto q"
| "valid_route isUrl isEmail (CreateBadgeConfig b) = valid_dto isUrl isEmail gw_CreateBadgeConfigDto b"
| "valid_route isUrl isEmail (UpdateBadgeConfig i b) = (safe_id i \<and> valid_dto isUrl isEmail gw_UpdateBadgeConfigDto b)"
| "valid_route isUrl isEmail (ListCashbacks q) = valid_query gw_ListCashbacksQueryDto q"
| "valid_route isUrl isEmail (RetryCashback i b) = (safe_id i \<and> valid_dto isUrl isEmail gw_RetryCashbackDto b)"
| "valid_route isUrl isEmail (HandlePaystackWebhook _) = True"

definition call ::
  "string \<Rightarrow> microservice_name \<Rightarrow> http_method \<Rightarrow> string \<Rightarrow> json_object option \<Rightarrow> json_object \<Rightarrow> forward_request" where
  "call corr service method path body query =
     \<lparr>fr_service = service, fr_method = method, fr_path = path, fr_body = map_option JObj body, fr_query = query,
      fr_correlationId = Some corr, fr_headers = []\<rparr>"

fun route_call :: "gateway_request \<Rightarrow> string \<Rightarrow> route \<Rightarrow> forward_request" where
  "route_call req corr (CreatePurchase b) = (call corr PurchaseMs POST ''/purchases'' (Some b) [])\<lparr>fr_headers :=
     optionalHeader ''x-idempotency-key'' (getHeader req ''x-idempotency-key'')\<rparr>"
| "route_call req corr (ListBanks q) = call corr CashbackMs GET ''/banks'' None (transform_query gw_ListBanksQueryDto q)"
| "route_call req corr (GetAchievements u) = call corr LoyaltyMs GET (''/internal/users/'' @ u @ ''/achievements'') None []"
| "route_call req corr GetAchievementGroups = call corr LoyaltyMs GET ''/admin/achievement-groups'' None []"
| "route_call req corr (CreateAchievementGroup b) = call corr LoyaltyMs POST ''/admin/achievement-groups'' (Some b) []"
| "route_call req corr (UpdateAchievementGroup k b) = call corr LoyaltyMs PATCH (''/admin/achievement-groups/'' @ k) (Some b) []"
| "route_call req corr (GetAchievementConfigs q) =
     call corr LoyaltyMs GET ''/admin/achievements'' None (transform_query gw_ListAchievementsQueryDto q)"
| "route_call req corr GetLoyaltyCatalog = call corr LoyaltyMs GET ''/admin/catalog'' None []"
| "route_call req corr (CreateAchievementConfig b) = call corr LoyaltyMs POST ''/admin/achievements'' (Some b) []"
| "route_call req corr (UpdateAchievementConfig i b) = call corr LoyaltyMs PATCH (''/admin/achievements/'' @ i) (Some b) []"
| "route_call req corr (GetBadgeConfigs q) = call corr LoyaltyMs GET ''/admin/badges'' None (transform_query gw_ListBadgesQueryDto q)"
| "route_call req corr (CreateBadgeConfig b) = call corr LoyaltyMs POST ''/admin/badges'' (Some b) []"
| "route_call req corr (UpdateBadgeConfig i b) = call corr LoyaltyMs PATCH (''/admin/badges/'' @ i) (Some b) []"
| "route_call req corr (ListCashbacks q) = call corr CashbackMs GET ''/cashbacks'' None (transform_query gw_ListCashbacksQueryDto q)"
| "route_call req corr (RetryCashback i b) = call corr CashbackMs POST (''/cashbacks/'' @ i @ ''/retry'') (Some b) []"
| "route_call req corr (HandlePaystackWebhook raw) =
     (call corr CashbackMs POST ''/webhooks/paystack'' None [])\<lparr>
       fr_body := Some (JStr (case raw of Some b \<Rightarrow> b | None \<Rightarrow> [])),
       fr_headers := spread [] (optionalHeader ''x-paystack-signature'' (getHeader req ''x-paystack-signature''))\<rparr>"

definition BAD_REQUEST :: "string list \<Rightarrow> http_exception" where
  "BAD_REQUEST texts = \<lparr>he_status = 400, he_response = Body (JObj [(''message'', JArr (map JStr texts)),
     (''error'', JStr ''Bad Request''), (''statusCode'', JNum (Fin 400))])\<rparr>"

text \<open>A request: the guard first, then the validation pipe, then the handler.\<close>

definition dispatch ::
  "(jsnum \<Rightarrow> string) \<Rightarrow> (string \<Rightarrow> bool) \<Rightarrow> (string \<Rightarrow> bool) \<Rightarrow> (route \<Rightarrow> string list) \<Rightarrow> service_urls \<Rightarrow> string \<Rightarrow> string
     \<Rightarrow> (nat \<Rightarrow> answer) \<Rightarrow> gateway_request \<Rightarrow> sent_request list \<Rightarrow> (http_exception + json) \<times> sent_request list" where
  "dispatch num_text isUrl isEmail messages urls expectedKey fresh answers req sent =
     (let r = gq_route req; q = route_call req (correlation_id fresh req) r in
      case (if guarded r then canActivate expectedKey (getHeader req ''x-api-key'') else None) of
        Some err \<Rightarrow> (Inl err, sent)
      | None \<Rightarrow>
          if \<not> valid_route isUrl isEmail r then (Inl (BAD_REQUEST (messages r)), sent)
          else (case r of
                  HandlePaystackWebhook _ \<Rightarrow>
                    forwardRaw num_text urls answers q
                      (Some (case getHeader req ''content-type'' of Some c \<Rightarrow> c | None \<Rightarrow> ''application/json'')) sent
                | _ \<Rightarrow> forward num_text urls answers q sent))"

section \<open>Responses\<close>

definition isMeta :: "json option \<Rightarrow> bool" where
  "isMeta v = (case v of
     Some (JObj kvs) \<Rightarrow> list_all (\<lambda>(_, x). case x of JArr _ \<Rightarrow> False | JObj _ \<Rightarrow> False | _ \<Rightarrow> True) kvs
   | _ \<Rightarrow> False)"

definition isAlreadyWrapped :: "json \<Rightarrow> bool" where
  "isAlreadyWrapped v \<longleftrightarrow> json_get v ''success'' = Some (JBool True)"

text \<open>\<open>extractEnvelope\<close>: payload, message and meta; \<open>None\<close> is \<open>undefined\<close>.\<close>

definition extractEnvelope :: "json \<Rightarrow> json option \<times> string option \<times> json option" where
  "extractEnvelope v =
     (case v of
        JObj kvs \<Rightarrow>
          (Some (case obj_get kvs ''data'' of Some d \<Rightarrow> d | None \<Rightarrow> v),
           (case obj_get kvs ''message'' of Some (JStr m) \<Rightarrow> Some m | _ \<Rightarrow> None),
           (if isMeta (obj_get kvs ''meta'') then obj_get kvs ''meta'' else None))
      | _ \<Rightarrow> (None, None, None))"

definition intercept :: "nat \<Rightarrow> string \<Rightarrow> json option \<Rightarrow> json" where
  "intercept statusCode timestamp result =
     (let v = (case result of Some j \<Rightarrow> j | None \<Rightarrow> JNull) in
      if isAlreadyWrapped v then v
      else (let (data, message, meta) = extractEnvelope v in
            JObj ([(''success'', JBool True), (''statusCode'', JNum (Fin (of_nat statusCode))),
                   (''data'', case data of Some JNull \<Rightarrow> v | Some d \<Rightarrow> d | None \<Rightarrow> v), (''timestamp'', JStr timestamp)]
                  @ (if truthy message then [(''message'', JStr (the message))] else [])
                  @ (case meta of Some m \<Rightarrow> [(''meta'', m)] | None \<Rightarrow> []))))"

text \<open>\<open>HttpExceptionFilter\<close>; a property that is \<open>undefined\<close> is not in the body. \<open>join\<close> on a list of JSON values.\<close>

fun json_text :: "(jsnum \<Rightarrow> string) \<Rightarrow> json \<Rightarrow> string" and
    join_texts :: "(jsnum \<Rightarrow> string) \<Rightarrow> string \<Rightarrow> json list \<Rightarrow> string" where
  "json_text num_text JNull = []"
| "json_text num_text (JBool b) = (if b then ''true'' else ''false'')"
| "json_text num_text (JNum n) = num_text n"
| "json_text num_text (JStr s) = s"
| "json_text num_text (JArr xs) = join_texts num_text '','' xs"
| "json_text num_text (JObj _) = ''[object Object]''"
| "join_texts num_text sep [] = []"
| "join_texts num_text sep [x] = json_text num_text x"
| "join_texts num_text sep (x # y # xs) = json_text num_text x @ sep @ join_texts num_text sep (y # xs)"

text \<open>\<open>a ?? b\<close> on a property of the exception's body.\<close>

definition present :: "json option \<Rightarrow> json option" where
  "present v = (if v = Some JNull then None else v)"

definition extractMessage :: "(jsnum \<Rightarrow> string) \<Rightarrow> exception_response \<Rightarrow> json" where
  "extractMessage num_text resp =
     (case resp of
        Text s \<Rightarrow> JStr s
      | Body body \<Rightarrow>
          (case json_get body ''message'' of
             Some (JArr xs) \<Rightarrow> JStr (join_texts num_text ''; '' xs)
           | m \<Rightarrow> (case present m of
                     Some v \<Rightarrow> v
                   | None \<Rightarrow> (case present (json_get body ''error'') of Some v \<Rightarrow> v | None \<Rightarrow> JStr ''Request failed''))))"

definition getDefaultError :: "nat \<Rightarrow> string" where
  "getDefaultError statusCode = (if statusCode = 500 then ''InternalServerError'' else ''HttpException'')"

definition opt_entry :: "string \<Rightarrow> json option \<Rightarrow> json_object" where
  "opt_entry k v = (case v of Some j \<Rightarrow> [(k, j)] | None \<Rightarrow> [])"

definition buildErrorBody :: "(jsnum \<Rightarrow> string) \<Rightarrow> string \<Rightarrow> string \<Rightarrow> http_exception \<Rightarrow> json" where
  "buildErrorBody num_text path timestamp e =
     (let get = (\<lambda>k. case he_response e of Text _ \<Rightarrow> None | Body body \<Rightarrow> json_get body k) in
      JObj ([(''success'', JBool False), (''statusCode'', JNum (Fin (of_nat (he_status e)))),
             (''error'', case present (get ''error'') of Some v \<Rightarrow> v | None \<Rightarrow> JStr (getDefaultError (he_status e)))]
            @ opt_entry ''errorCode'' (get ''errorCode'')
            @ [(''message'', extractMessage num_text (he_response e))]
            @ opt_entry ''details'' (get ''details'') @ opt_entry ''errors'' (get ''errors'') @ opt_entry ''metaData'' (get ''metaData'')
            @ [(''path'', JStr path), (''timestamp'', JStr timestamp)]))"

text \<open>The status of a success: Nest's default for the method, or the route's \<open>HttpCode\<close>.\<close>

fun success_status :: "route \<Rightarrow> nat" where
  "success_status (CreatePurchase _) = 201"
| "success_status (CreateAchievementGroup _) = 201"
| "success_status (CreateAchievementConfig _) = 201"
| "success_status (CreateBadgeConfig _) = 201"
| "success_status (RetryCashback _ _) = 202"
| "success_status _ = 200"

definition handle_request ::
  "(jsnum \<Rightarrow> string) \<Rightarrow> (string \<Rightarrow> bool) \<Rightarrow> (string \<Rightarrow> bool) \<Rightarrow> (route \<Rightarrow> string list) \<Rightarrow> service_urls \<Rightarrow> string \<Rightarrow> string
     \<Rightarrow> string \<Rightarrow> (nat \<Rightarrow> answer) \<Rightarrow> gateway_request \<Rightarrow> sent_request list \<Rightarrow> (nat \<times> json) \<times> sent_request list" where
  "handle_request num_text isUrl isEmail messages urls expectedKey fresh timestamp answers req sent =
     (case dispatch num_text isUrl isEmail messages urls expectedKey fresh answers req sent of
        (Inl e, sent') \<Rightarrow> ((he_status e, buildErrorBody num_text (gq_path req) timestamp e), sent')
      | (Inr data, sent') \<Rightarrow>
          ((success_status (gq_route req), intercept (success_status (gq_route req)) timestamp (Some data)), sent'))"

end
