(* ===== verification/Tables.thy ===== *)
theory Tables
  imports Js_Prelude
begin

text \<open>
  The relational statements the services issue through TypeORM, on a table kept as the list of its
  rows. Only the statements that occur in the source are here: \<open>findOneBy\<close>/\<open>exists\<close> (a row that
  satisfies a condition), \<open>save\<close> on a manually assigned primary key (update the row with that key,
  insert otherwise), \<open>update\<close> with a condition and its \<open>affected\<close> count, and the range check of a
  column declared \<open>integer\<close> by the migrations. Timestamps that no code reads are left out of rows.

  The locale \<open>conditional_claim\<close> is the contract of a conditional \<open>UPDATE ... WHERE status = 'PENDING'\<close>, on
  which both the outbox and the cashback worker rely: whoever gets \<open>affected > 0\<close> has taken the row
  out of the claimable state.
\<close>

section \<open>Statements\<close>

definition find_one :: "('r \<Rightarrow> bool) \<Rightarrow> 'r list \<Rightarrow> 'r option" where
  "find_one P t = List.find P t"

definition exists_row :: "('r \<Rightarrow> bool) \<Rightarrow> 'r list \<Rightarrow> bool" where
  "exists_row P t \<longleftrightarrow> list_ex P t"

definition update_where :: "('r \<Rightarrow> bool) \<Rightarrow> ('r \<Rightarrow> 'r) \<Rightarrow> 'r list \<Rightarrow> 'r list" where
  "update_where P f t = map (\<lambda>r. if P r then f r else r) t"

definition affected :: "('r \<Rightarrow> bool) \<Rightarrow> 'r list \<Rightarrow> nat" where
  "affected P t = length (filter P t)"

definition upsert :: "('r \<Rightarrow> 'k) \<Rightarrow> 'r \<Rightarrow> 'r list \<Rightarrow> 'r list" where
  "upsert key r t =
     (if list_ex (\<lambda>x. key x = key r) t then update_where (\<lambda>x. key x = key r) (\<lambda>_. r) t
      else t @ [r])"

definition is_int4 :: "int \<Rightarrow> bool" where
  "is_int4 n \<longleftrightarrow> - 2147483648 \<le> n \<and> n \<le> 2147483647"

definition skip_take :: "nat \<Rightarrow> nat \<Rightarrow> 'r list \<Rightarrow> 'r list" where
  "skip_take s n t = take n (drop s t)"

text \<open>
  \<open>ORDER BY\<close> is the database's: a permutation of the rows that is sorted by the columns named. Ties
  and the collation of text columns are the server's choice, so the order is a parameter of the
  definitions that use it, with this as its law.
\<close>

definition orders :: "('r \<Rightarrow> 'r \<Rightarrow> bool) \<Rightarrow> ('r list \<Rightarrow> 'r list) \<Rightarrow> bool" where
  "orders le ord \<longleftrightarrow> (\<forall>t. mset (ord t) = mset t \<and> sorted_wrt le (ord t))"

section \<open>Lemmas\<close>

lemma length_update_where [simp]: "length (update_where P f t) = length t"
  by (simp add: update_where_def)

lemma update_where_Nil [simp]: "update_where P f [] = []"
  by (simp add: update_where_def)

lemma update_where_Cons [simp]:
  "update_where P f (r # t) = (if P r then f r else r) # update_where P f t"
  by (simp add: update_where_def)

lemma map_update_where [table_simps]:
  assumes "\<And>r. P r \<Longrightarrow> g (f r) = g r"
  shows "map g (update_where P f t) = map g t"
  using assms by (induction t) auto

lemma in_update_where:
  "r \<in> set (update_where P f t) \<longleftrightarrow> (\<exists>x \<in> set t. r = (if P x then f x else x))"
  by (auto simp: update_where_def)

lemma update_where_none: "\<not> list_ex P t \<Longrightarrow> update_where P f t = t"
  by (induction t) auto

lemma update_where_gone: "(\<And>r. \<not> P (f r)) \<Longrightarrow> \<not> list_ex P (update_where P f t)"
  by (induction t) auto

lemma affected_pos [table_simps]: "0 < affected P t \<longleftrightarrow> list_ex P t"
  by (induction t) (auto simp: affected_def)

lemma find_one_Some: "find_one P t = Some r \<Longrightarrow> r \<in> set t \<and> P r"
  by (simp add: find_one_def find_SomeD)

lemma find_one_None: "find_one P t = None \<longleftrightarrow> \<not> list_ex P t"
  by (induction t) (auto simp: find_one_def)

lemma list_ex_key: "list_ex (\<lambda>x. key x = k) t \<longleftrightarrow> k \<in> set (map key t)"
  by (induction t) auto

lemma find_one_key:
  assumes "distinct (map key t)" and "r \<in> set t" and "key r = k"
  shows "find_one (\<lambda>x. key x = k) t = Some r"
  using assms find_key_unique [of key t r] by (simp add: find_one_def)

lemma find_one_update_where:
  assumes "\<And>r. P r \<Longrightarrow> key (f r) = key r"
  shows "find_one (\<lambda>x. key x = k) (update_where P f t)
       = map_option (\<lambda>r. if P r then f r else r) (find_one (\<lambda>x. key x = k) t)"
  using assms by (induction t) (auto simp: find_one_def)

lemma upsert_keys:
  "map key (upsert key r t) = (if key r \<in> key ` set t then map key t else map key t @ [key r])"
proof -
  have "map key (update_where (\<lambda>x. key x = key r) (\<lambda>_. r) t) = map key t"
    by (rule map_update_where) simp
  then show ?thesis by (simp add: upsert_def list_ex_key)
qed

lemma upsert_distinct [invariant_intros]:
  "distinct (map key t) \<Longrightarrow> distinct (map key (upsert key r t))"
  by (auto simp: upsert_keys)

lemma upsert_ex_key:
  "list_ex (\<lambda>x. key x = k) (upsert key r t) \<longleftrightarrow> k = key r \<or> list_ex (\<lambda>x. key x = k) t"
  unfolding list_ex_key upsert_keys by auto

lemma upsert_fresh: "key r \<notin> key ` set t \<Longrightarrow> upsert key r t = t @ [r]"
  by (simp add: upsert_def list_ex_key)

lemma fold_upsert_fresh:
  "distinct (map key rs) \<Longrightarrow> key ` set rs \<inter> key ` set t = {} \<Longrightarrow> fold (upsert key) rs t = t @ rs"
proof (induction rs arbitrary: t)
  case (Cons r rs)
  then have "fold (upsert key) (r # rs) t = fold (upsert key) rs (t @ [r])"
    by (simp add: upsert_fresh)
  also have "\<dots> = (t @ [r]) @ rs" using Cons.prems by (intro Cons.IH) auto
  finally show ?case by simp
qed simp

lemma in_upsert: "x \<in> set (upsert key r t) \<longleftrightarrow> x = r \<or> (x \<in> set t \<and> key x \<noteq> key r)"
  by (induction t) (auto simp: upsert_def list_ex_iff in_update_where)

lemma find_one_replace:
  "find_one (\<lambda>x. key x = k) (update_where (\<lambda>x. key x = key r) (\<lambda>_. r) t)
     = (if k = key r \<and> list_ex (\<lambda>x. key x = key r) t then Some r
        else find_one (\<lambda>x. key x = k) t)"
  by (induction t) (auto simp: find_one_def)

lemma find_one_append:
  "find_one P (t @ [r])
     = (case find_one P t of Some x \<Rightarrow> Some x | None \<Rightarrow> if P r then Some r else None)"
  by (simp add: find_one_def split: option.splits)

lemma find_one_upsert:
  "find_one (\<lambda>x. key x = k) (upsert key r t)
     = (if k = key r then Some r else find_one (\<lambda>x. key x = k) t)"
proof (cases "list_ex (\<lambda>x. key x = key r) t")
  case True
  then show ?thesis by (simp add: upsert_def find_one_replace)
next
  case False
  then have "find_one (\<lambda>x. key x = key r) t = None" by (simp add: find_one_None)
  with False show ?thesis
    by (auto simp: upsert_def find_one_append split: option.splits)
qed

lemma fold_if_filter: "fold (\<lambda>x s. if P x then s else f x s) xs s = fold f (filter (\<lambda>x. \<not> P x) xs) s"
  by (induction xs arbitrary: s) auto

lemma orders_set: "orders le ord \<Longrightarrow> set (ord t) = set t"
  unfolding orders_def by (metis set_mset_mset)

lemma orders_distinct: "orders le ord \<Longrightarrow> distinct (map f t) \<Longrightarrow> distinct (map f (ord t))"
  unfolding orders_def by (metis mset_eq_imp_distinct_iff mset_map)

lemma orders_length: "orders le ord \<Longrightarrow> length (ord t) = length t"
  unfolding orders_def by (metis size_mset)

section \<open>Conditional claims\<close>

text \<open>
  A claim takes an identifier and a table and answers whether it won. The contract: a winner found
  the row claimable and leaves it not claimable; a loser changes nothing. The lemma the clients
  need is that of any sequence of claims on one identifier at most one wins.
\<close>

fun attempts :: "('i \<Rightarrow> 't \<Rightarrow> bool \<times> 't) \<Rightarrow> nat \<Rightarrow> 'i \<Rightarrow> 't \<Rightarrow> bool list \<times> 't" where
  "attempts clm 0 i t = ([], t)"
| "attempts clm (Suc n) i t =
     (let (b, t1) = clm i t; (bs, t2) = attempts clm n i t1 in (b # bs, t2))"

locale conditional_claim =
  fixes claim :: "'i \<Rightarrow> 't \<Rightarrow> bool \<times> 't"
    and claimable :: "'i \<Rightarrow> 't \<Rightarrow> bool"
  assumes claim_wins: "fst (claim i t) \<longleftrightarrow> claimable i t"
    and claim_takes: "\<not> claimable i (snd (claim i t))"
    and claim_loses: "\<not> claimable i t \<Longrightarrow> snd (claim i t) = t"
begin

lemma attempts_lost: "\<not> claimable i t \<Longrightarrow> attempts claim n i t = (replicate n False, t)"
proof (induction n)
  case 0
  then show ?case by simp
next
  case (Suc n)
  have "claim i t = (False, t)"
    using Suc.prems claim_wins claim_loses by (metis prod.collapse)
  with Suc show ?case by simp
qed

lemma at_most_one_wins: "length (filter id (fst (attempts claim n i t))) \<le> 1"
proof (cases n)
  case 0
  then show ?thesis by simp
next
  case (Suc m)
  obtain b t1 where c: "claim i t = (b, t1)" by fastforce
  then have "\<not> claimable i t1" using claim_takes [of i t] by simp
  then have "attempts claim m i t1 = (replicate m False, t1)" by (rule attempts_lost)
  with c Suc show ?thesis by simp
qed

lemma exactly_one_wins:
  assumes "claimable i t" and "0 < n"
  shows "fst (attempts claim n i t) = True # replicate (n - 1) False"
proof -
  obtain m where n: "n = Suc m" using assms(2) by (cases n) auto
  obtain b t1 where c: "claim i t = (b, t1)" by fastforce
  then have "b" using claim_wins [of i t] assms(1) by simp
  have "\<not> claimable i t1" using claim_takes [of i t] c by simp
  then have "attempts claim m i t1 = (replicate m False, t1)" by (rule attempts_lost)
  with c \<open>b\<close> n show ?thesis by simp
qed

end

end
