(* ===== verification/Events.thy ===== *)
theory Events
  imports Js_Prelude
begin

text \<open>
  \<open>packages/events-sdk/src\<close>: the enumerations of \<open>enums.ts\<close> with their wire values, the event
  payloads of \<open>events.ts\<close>, \<open>createDomainEvent\<close>, and \<open>createReadableId\<close> of \<open>ids.ts\<close>. The six
  random bytes of an identifier and the clock are arguments. \<open>occurredAt\<close> holds the millisecond
  value whose ISO rendering the code stores.
\<close>

section \<open>Enumerations\<close>

datatype domain_event_name = PurchaseCompleted | AchievementUnlocked | BadgeUnlocked | CashbackProcessed

fun event_name_value :: "domain_event_name \<Rightarrow> string" where
  "event_name_value PurchaseCompleted = ''PurchaseCompleted.v1''"
| "event_name_value AchievementUnlocked = ''AchievementUnlocked.v1''"
| "event_name_value BadgeUnlocked = ''BadgeUnlocked.v1''"
| "event_name_value CashbackProcessed = ''CashbackProcessed.v1''"

datatype entity_id_prefix =
  UserId | PurchaseId | AchievementId | UserAchievementId | BadgeId | UserBadgeId | EventId
  | CashbackId | PayoutAccountId

fun prefix_value :: "entity_id_prefix \<Rightarrow> string" where
  "prefix_value UserId = ''usr''"
| "prefix_value PurchaseId = ''pur''"
| "prefix_value AchievementId = ''ach''"
| "prefix_value UserAchievementId = ''uach''"
| "prefix_value BadgeId = ''bdg''"
| "prefix_value UserBadgeId = ''ubdg''"
| "prefix_value EventId = ''evt''"
| "prefix_value CashbackId = ''cbk''"
| "prefix_value PayoutAccountId = ''poa''"

datatype service_name = ApiGateway | PurchaseService | LoyaltyService | CashbackService

fun service_name_value :: "service_name \<Rightarrow> string" where
  "service_name_value ApiGateway = ''api-gateway''"
| "service_name_value PurchaseService = ''purchase-service''"
| "service_name_value LoyaltyService = ''loyalty-service''"
| "service_name_value CashbackService = ''cashback-service''"

datatype outbox_status = OutboxPending | Publishing | Published | OutboxFailed

datatype payment_status = Pending | Successful | Failed

datatype payment_provider_name = Mock | Paystack

fun provider_name_value :: "payment_provider_name \<Rightarrow> string" where
  "provider_name_value Mock = ''mock''"
| "provider_name_value Paystack = ''paystack''"

datatype cashback_failure_code =
  MissingBankDetails | InvalidAccount | InsufficientBalance | DuplicateReference
  | ProviderUnavailable | ProviderRejected | ProviderMisconfigured

datatype broker_queue_name = LoyaltyPurchaseCompleted | CashbackBadgeUnlocked

fun queue_name_value :: "broker_queue_name \<Rightarrow> string" where
  "queue_name_value LoyaltyPurchaseCompleted = ''loyalty.purchase-completed''"
| "queue_name_value CashbackBadgeUnlocked = ''cashback.badge-unlocked''"

datatype outbox_lock_key = PurchaseLock | LoyaltyLock | CashbackLock

fun lock_key_value :: "outbox_lock_key \<Rightarrow> string" where
  "lock_key_value PurchaseLock = ''outbox:purchase-service''"
| "lock_key_value LoyaltyLock = ''outbox:loyalty-service''"
| "lock_key_value CashbackLock = ''outbox:cashback-service''"

section \<open>Events\<close>

record 'p domain_event =
  eventId :: string
  event_type :: domain_event_name
  version :: nat
  occurredAt :: int
  correlationId :: string
  payload :: 'p

record user_snapshot =
  snap_id :: string
  snap_email :: string
  snap_name :: string
  snap_bankAccountNumber :: "string field"
  snap_bankCode :: "string field"

record purchase_completed_payload =
  pc_userId :: string
  pc_purchaseId :: string
  pc_amountKobo :: int
  pc_user :: user_snapshot

record achievement_unlocked_payload =
  au_achievement_name :: string
  au_user :: user_snapshot

record badge_unlocked_payload =
  bu_badge_name :: string
  bu_rewardAmountKobo :: "int option"
  bu_rewardCurrency :: string
  bu_user :: user_snapshot

record cashback_processed_payload =
  cp_badgeName :: string
  cp_userId :: string
  cp_amountKobo :: int
  cp_providerReference :: string
  cp_status :: payment_status
  cp_failureCode :: "cashback_failure_code option"
  cp_failureReason :: "string option"
  cp_retryable :: "bool option"

type_synonym purchase_completed_event = "purchase_completed_payload domain_event"
type_synonym achievement_unlocked_event = "achievement_unlocked_payload domain_event"
type_synonym badge_unlocked_event = "badge_unlocked_payload domain_event"
type_synonym cashback_processed_event = "cashback_processed_payload domain_event"

datatype bumpa_domain_event =
    PurchaseCompletedEvent purchase_completed_event
  | AchievementUnlockedEvent achievement_unlocked_event
  | BadgeUnlockedEvent badge_unlocked_event
  | CashbackProcessedEvent cashback_processed_event

fun bumpa_event_id :: "bumpa_domain_event \<Rightarrow> string" where
  "bumpa_event_id (PurchaseCompletedEvent e) = eventId e"
| "bumpa_event_id (AchievementUnlockedEvent e) = eventId e"
| "bumpa_event_id (BadgeUnlockedEvent e) = eventId e"
| "bumpa_event_id (CashbackProcessedEvent e) = eventId e"

fun bumpa_event_type :: "bumpa_domain_event \<Rightarrow> domain_event_name" where
  "bumpa_event_type (PurchaseCompletedEvent e) = event_type e"
| "bumpa_event_type (AchievementUnlockedEvent e) = event_type e"
| "bumpa_event_type (BadgeUnlockedEvent e) = event_type e"
| "bumpa_event_type (CashbackProcessedEvent e) = event_type e"

definition createDomainEvent :: "domain_event_name \<Rightarrow> 'p \<Rightarrow> string \<Rightarrow> string \<Rightarrow> int \<Rightarrow> 'p domain_event" where
  "createDomainEvent name p corr eid now =
     \<lparr>eventId = eid, event_type = name, version = 1, occurredAt = now, correlationId = corr, payload = p\<rparr>"

definition createReadableId :: "entity_id_prefix \<Rightarrow> string \<Rightarrow> string" where
  "createReadableId prefix bytes = prefix_value prefix @ ''_'' @ to_hex bytes"

text \<open>
  The random source of a process: \<open>rnd n\<close> is what its \<open>n\<close>-th call of \<open>randomBytes(6)\<close> returns. The
  definitions that draw identifiers thread the number of draws made so far.
\<close>

type_synonym random_source = "nat \<Rightarrow> string"

section \<open>Lemmas\<close>

lemma createDomainEvent_simps [simp]:
  "eventId (createDomainEvent n p c i t) = i"
  "event_type (createDomainEvent n p c i t) = n"
  "correlationId (createDomainEvent n p c i t) = c"
  "payload (createDomainEvent n p c i t) = p"
  by (simp_all add: createDomainEvent_def)

lemma prefix_no_underscore: "CHR ''_'' \<notin> set (prefix_value p)"
  by (cases p) auto

lemma prefix_value_inj: "prefix_value p = prefix_value q \<Longrightarrow> p = q"
  by (cases p; cases q) auto

lemma split_at_char:
  assumes "xs @ c # ys = xs' @ c # ys'" and "c \<notin> set xs" and "c \<notin> set xs'"
  shows "xs = xs' \<and> ys = ys'"
  using assms
proof (induction xs arbitrary: xs')
  case Nil
  then show ?case by (cases xs') auto
next
  case (Cons x xs)
  then show ?case by (cases xs') auto
qed

lemma createReadableId_inj:
  "createReadableId p bs = createReadableId q cs \<longleftrightarrow> p = q \<and> bs = cs"
proof
  assume "createReadableId p bs = createReadableId q cs"
  then have "prefix_value p @ CHR ''_'' # to_hex bs = prefix_value q @ CHR ''_'' # to_hex cs"
    by (simp add: createReadableId_def)
  then have "prefix_value p = prefix_value q \<and> to_hex bs = to_hex cs"
    by (rule split_at_char) (rule prefix_no_underscore)+
  then show "p = q \<and> bs = cs"
    by (auto dest: prefix_value_inj to_hex_inj)
qed simp

end
