(* ===== verification/Backoff.thy ===== *)
theory Backoff
  imports Js_Prelude
begin

text \<open>
  Capped exponential backoff, the schedule shared by the broker's redelivery and reconnect delays
  and the cashback auto-retry. The locale \<open>backoff\<close> states the recurrence a provider promises; the
  closed form, the bounds and monotonicity are proved once here and obtained by interpretation.
\<close>

locale backoff =
  fixes delay :: "nat \<Rightarrow> int" and base :: int and cap :: int
  assumes base_pos: "0 < base" and cap_pos: "0 < cap"
    and delay_0: "delay 0 = min base cap"
    and delay_Suc: "delay (Suc n) = min (2 * delay n) cap"
begin

lemma delay_pos: "0 < delay n"
  by (induction n) (auto simp: delay_0 delay_Suc base_pos cap_pos)

lemma delay_le_cap: "delay n \<le> cap"
  by (cases n) (auto simp: delay_0 delay_Suc)

lemma delay_step: "delay n \<le> delay (Suc n)"
  using delay_pos [of n] delay_le_cap [of n] by (simp add: delay_Suc)

lemma delay_mono: "m \<le> n \<Longrightarrow> delay m \<le> delay n"
  using delay_step by (rule lift_Suc_mono_le)

lemma delay_closed: "delay n = min (base * 2 ^ n) cap"
proof (induction n)
  case 0
  then show ?case by (simp add: delay_0)
next
  case (Suc n)
  then show ?case using cap_pos by (auto simp: delay_Suc min_def)
qed

lemma delay_doubles_or_caps: "delay (Suc n) = 2 * delay n \<or> delay (Suc n) = cap"
  by (auto simp: delay_Suc min_def)

lemma reaches_cap: "\<exists>n. \<forall>m \<ge> n. delay m = cap"
proof -
  define n where "n = nat cap"
  have "cap < 2 ^ n" using of_nat_less_two_power [of n, where 'a = int] cap_pos by (simp add: n_def)
  moreover have "(2::int) ^ n \<le> base * 2 ^ n" using base_pos by simp
  ultimately have "cap \<le> base * 2 ^ n" by linarith
  then have "delay n = cap" by (simp add: delay_closed min_def)
  then have "\<forall>m \<ge> n. delay m = cap" using delay_mono delay_le_cap by (metis order_antisym)
  then show ?thesis by blast
qed

end

text \<open>The expression the code writes, \<open>Math.min(base * 2 ** n, cap)\<close>, satisfies the recurrence.\<close>

definition capped_delay :: "int \<Rightarrow> int \<Rightarrow> nat \<Rightarrow> int" where
  "capped_delay base cap n = min (base * 2 ^ n) cap"

lemma capped_delay_backoff:
  assumes "0 < base" and "0 < cap"
  shows "backoff (capped_delay base cap) base cap"
  using assms by unfold_locales (auto simp: capped_delay_def min_def)

end
