(* ===== verification/Broker.thy ===== *)
theory Broker
  imports Events Backoff
begin

text \<open>
  \<open>packages/broker-sdk/src/broker.service.ts\<close>. Four groups of definitions.

  \<^item> Consumption: \<open>handleMessage\<close> with its helpers, as the list of channel operations it performs.
    The JSON decoder and the handler are arguments; a handler works on the consumer's state and
    answers the error it threw, if any. The channel (after the handler has run) may be absent or
    reject operations. A numeric retry header is one the code itself wrote, a natural number.
  \<^item> \<open>delivery\<close>: what becomes of one message when the retry queue returns it to the main queue
    after its delay, as declared by \<open>bindAndConsume\<close>.
  \<^item> Publishing on the confirm channel.
  \<^item> The connection: the flags of the service, its reconnect timer and the phases of
    \<open>connectAndSetup\<close>, as a step relation over the operations and the events of the client library.
\<close>

section \<open>Consumption\<close>

definition MAX_RETRY_ATTEMPTS :: nat where "MAX_RETRY_ATTEMPTS = 5"
definition RETRY_BASE_DELAY_MS :: int where "RETRY_BASE_DELAY_MS = 1000"
definition MAX_RETRY_DELAY_MS :: int where "MAX_RETRY_DELAY_MS = 30000"

datatype header_value = HNumber nat | HOther

record message =
  content :: string
  retry_header :: "header_value option"
  routingKey :: string
  messageId :: string

record channel =
  accepts_send :: bool
  accepts_ack :: bool

datatype channel_op =
    Ack message
  | Nack message
  | SendToQueue string message int

definition readRetryCount :: "message \<Rightarrow> nat" where
  "readRetryCount m = (case retry_header m of Some (HNumber n) \<Rightarrow> n | _ \<Rightarrow> 0)"

definition safeAck :: "channel option \<Rightarrow> message \<Rightarrow> channel_op list" where
  "safeAck ch m = (case ch of Some c \<Rightarrow> if accepts_ack c then [Ack m] else [] | None \<Rightarrow> [])"

definition safeNack :: "channel option \<Rightarrow> message \<Rightarrow> channel_op list" where
  "safeNack ch m = (case ch of Some c \<Rightarrow> if accepts_ack c then [Nack m] else [] | None \<Rightarrow> [])"

definition scheduleRedelivery ::
  "channel option \<Rightarrow> string \<Rightarrow> message \<Rightarrow> nat \<Rightarrow> int \<Rightarrow> bool \<times> channel_op list" where
  "scheduleRedelivery ch queue m nextRetryCount delayMs =
     (case ch of
        Some c \<Rightarrow>
          if accepts_send c
          then (True, [SendToQueue (queue @ ''.retry'')
                         (m\<lparr>retry_header := Some (HNumber nextRetryCount)\<rparr>) delayMs])
          else (False, [])
      | None \<Rightarrow> (False, []))"

definition redelivery_delay :: "nat \<Rightarrow> int" where
  "redelivery_delay retryCount = min (RETRY_BASE_DELAY_MS * 2 ^ retryCount) MAX_RETRY_DELAY_MS"

definition handleMessage ::
  "(string \<Rightarrow> 'e option) \<Rightarrow> ('e \<Rightarrow> 's \<Rightarrow> string option \<times> 's) \<Rightarrow> channel option \<Rightarrow> message option
     \<Rightarrow> string \<Rightarrow> 's \<Rightarrow> channel_op list \<times> 's" where
  "handleMessage parse handler ch msg queue s =
     (case msg of
        None \<Rightarrow> ([], s)
      | Some m \<Rightarrow>
          (case parse (content m) of
             None \<Rightarrow> (safeNack ch m, s)
           | Some event \<Rightarrow>
               (case handler event s of
                  (None, s') \<Rightarrow> (safeAck ch m, s')
                | (Some err, s') \<Rightarrow>
                    (let retryCount = readRetryCount m in
                     if MAX_RETRY_ATTEMPTS \<le> retryCount then (safeNack ch m, s')
                     else (let (ok, ops) = scheduleRedelivery ch queue m (retryCount + 1)
                                             (redelivery_delay retryCount)
                           in if ok then (ops @ safeAck ch m, s') else (safeNack ch m, s'))))))"

section \<open>What becomes of one message\<close>

datatype fate = Consumed | DeadLettered

text \<open>
  \<open>delivery\<close> runs \<open>handleMessage\<close> over an open channel and, when the message was sent to the retry
  queue, hands the copy with the increased header back to the consumer. It returns the fate of the
  message, the delays it waited, how often the handler ran, and the consumer's state.
\<close>

definition open_channel :: channel where
  "open_channel = \<lparr>accepts_send = True, accepts_ack = True\<rparr>"

lemma handleMessage_send:
  assumes "handleMessage parse handler (Some open_channel) (Some m) queue s = (SendToQueue q m' d # ops, s')"
  shows "readRetryCount m < MAX_RETRY_ATTEMPTS \<and> readRetryCount m' = Suc (readRetryCount m)"
  using assms
  by (auto simp: handleMessage_def safeAck_def safeNack_def scheduleRedelivery_def open_channel_def
      readRetryCount_def Let_def split: option.splits prod.splits if_splits)

function delivery ::
  "(string \<Rightarrow> 'e option) \<Rightarrow> ('e \<Rightarrow> 's \<Rightarrow> string option \<times> 's) \<Rightarrow> string \<Rightarrow> message \<Rightarrow> 's
     \<Rightarrow> fate \<times> int list \<times> nat \<times> 's" where
  "delivery parse handler queue m s =
     (case handleMessage parse handler (Some open_channel) (Some m) queue s of
        (SendToQueue _ m' d # _, s') \<Rightarrow>
          (let (f, ds, k, s'') = delivery parse handler queue m' s' in (f, d # ds, Suc k, s''))
      | (Nack _ # _, s') \<Rightarrow> (DeadLettered, [], (if parse (content m) = None then 0 else 1), s')
      | (_, s') \<Rightarrow> (Consumed, [], 1, s'))"
  by pat_completeness auto
termination
  by (relation "measure (\<lambda>(p, h, q, m, s). MAX_RETRY_ATTEMPTS - readRetryCount m)")
    (auto dest!: handleMessage_send [OF sym])

declare delivery.simps [simp del]

section \<open>Publishing\<close>

text \<open>
  The sending side as the outbox sees it: whether the service holds a channel, how many publishes the
  confirm channel has taken, and the events the broker has confirmed, oldest first. What the broker
  answers to the \<open>n\<close>-th publish (\<open>None\<close> is an acknowledgement, \<open>Some\<close> the error) is the argument
  \<open>confirm\<close>.
\<close>

record bus =
  bus_open :: bool
  bus_publishes :: nat
  bus_log :: "bumpa_domain_event list"

definition publish :: "(nat \<Rightarrow> string option) \<Rightarrow> bumpa_domain_event \<Rightarrow> bus \<Rightarrow> string option \<times> bus" where
  "publish confirm event b =
     (if \<not> bus_open b then (Some ''RabbitMQ channel is not initialized'', b)
      else (case confirm (bus_publishes b) of
              Some err \<Rightarrow> (Some err, b\<lparr>bus_publishes := Suc (bus_publishes b)\<rparr>)
            | None \<Rightarrow> (None, b\<lparr>bus_publishes := Suc (bus_publishes b), bus_log := bus_log b @ [event]\<rparr>)))"

section \<open>The connection\<close>

definition INITIAL_RECONNECT_DELAY_MS :: int where "INITIAL_RECONNECT_DELAY_MS = 1000"
definition MAX_RECONNECT_DELAY_MS :: int where "MAX_RECONNECT_DELAY_MS = 30000"

definition reconnect_delay :: "nat \<Rightarrow> int" where
  "reconnect_delay attempt = min (INITIAL_RECONNECT_DELAY_MS * 2 ^ attempt) MAX_RECONNECT_DELAY_MS"

text \<open>\<open>connectAndSetup\<close> is idle, waiting for the broker, or replaying the subscriptions it has left.\<close>

datatype phase = Idle | Connecting | Binding "string list"

record broker =
  conn :: bool
  chan :: bool
  consuming :: "string list"
  subscriptions :: "string list"
  shuttingDown :: bool
  reconnecting :: bool
  reconnectAttempt :: nat
  reconnectTimer :: "int option"
  phase :: phase

definition broker_started :: broker where
  "broker_started =
     \<lparr>conn = True, chan = True, consuming = [], subscriptions = [], shuttingDown = False,
      reconnecting = False, reconnectAttempt = 0, reconnectTimer = None, phase = Idle\<rparr>"

definition scheduleReconnect :: "broker \<Rightarrow> broker" where
  "scheduleReconnect b =
     (if reconnecting b \<or> shuttingDown b then b
      else b\<lparr>reconnecting := True,
             reconnectTimer := Some (reconnect_delay (reconnectAttempt b)),
             reconnectAttempt := reconnectAttempt b + 1\<rparr>)"

definition handleConnectionIssue :: "broker \<Rightarrow> broker" where
  "handleConnectionIssue b =
     (if shuttingDown b then b
      else scheduleReconnect (b\<lparr>chan := False, conn := False, consuming := []\<rparr>))"

definition subscribe :: "string \<Rightarrow> broker \<Rightarrow> string option \<times> broker" where
  "subscribe q b =
     (let b' = b\<lparr>subscriptions := subscriptions b @ [q]\<rparr> in
      if chan b then (None, b'\<lparr>consuming := consuming b @ [q]\<rparr>)
      else (Some ''RabbitMQ channel is not initialized'', b'))"

text \<open>The timer callback: give up during shutdown, otherwise start \<open>connectAndSetup\<close>.\<close>

definition timer_callback :: "broker \<Rightarrow> broker" where
  "timer_callback b =
     (if shuttingDown b then b\<lparr>reconnectTimer := None, reconnecting := False\<rparr>
      else b\<lparr>reconnectTimer := None, phase := Connecting\<rparr>)"

text \<open>Connection and channel are up: they are stored before the subscriptions are replayed.\<close>

definition connected :: "broker \<Rightarrow> broker" where
  "connected b = b\<lparr>conn := True, chan := True, consuming := [], phase := Binding (subscriptions b)\<rparr>"

text \<open>The \<open>finally\<close> of the reconnect attempt.\<close>

definition attempt_finally :: "broker \<Rightarrow> broker" where
  "attempt_finally b =
     (let b' = b\<lparr>reconnecting := False, phase := Idle\<rparr> in
      if \<not> chan b' \<and> \<not> shuttingDown b' then scheduleReconnect b' else b')"

text \<open>One iteration of the replay loop, or its end, which resets the attempt counter.\<close>

definition bind_next :: "broker \<Rightarrow> broker" where
  "bind_next b =
     (case phase b of
        Binding (q # qs) \<Rightarrow>
          if chan b then b\<lparr>consuming := consuming b @ [q], phase := Binding qs\<rparr> else attempt_finally b
      | Binding [] \<Rightarrow> attempt_finally (b\<lparr>reconnectAttempt := 0\<rparr>)
      | _ \<Rightarrow> b)"

text \<open>
  Shutdown clears the timer and closes channel and connection; the fields keep their references, and
  the \<open>close\<close> events that follow are ignored.
\<close>

definition onModuleDestroy :: "broker \<Rightarrow> broker" where
  "onModuleDestroy b = b\<lparr>shuttingDown := True, reconnectTimer := None, consuming := []\<rparr>"

inductive broker_step :: "broker \<Rightarrow> broker \<Rightarrow> bool" where
  issue: "broker_step b (handleConnectionIssue b)"
| subscribes: "phase b = Idle \<Longrightarrow> broker_step b (snd (subscribe q b))"
| timer: "reconnectTimer b = Some d \<Longrightarrow> broker_step b (timer_callback b)"
| connect_ok: "phase b = Connecting \<Longrightarrow> broker_step b (connected b)"
| connect_fails: "phase b = Connecting \<Longrightarrow> broker_step b (attempt_finally b)"
| bind: "phase b = Binding qs \<Longrightarrow> broker_step b (bind_next b)"
| bind_fails: "phase b = Binding qs \<Longrightarrow> broker_step b (attempt_finally b)"
| destroy: "broker_step b (onModuleDestroy b)"

inductive broker_reachable :: "broker \<Rightarrow> bool" where
  started: "broker_reachable broker_started"
| step: "broker_reachable b \<Longrightarrow> broker_step b b' \<Longrightarrow> broker_reachable b'"

section \<open>Lemmas on consumption\<close>

interpretation redelivery: backoff redelivery_delay RETRY_BASE_DELAY_MS MAX_RETRY_DELAY_MS
  by unfold_locales
    (auto simp: redelivery_delay_def RETRY_BASE_DELAY_MS_def MAX_RETRY_DELAY_MS_def min_def)

interpretation reconnect: backoff reconnect_delay INITIAL_RECONNECT_DELAY_MS MAX_RECONNECT_DELAY_MS
  by unfold_locales
    (auto simp: reconnect_delay_def INITIAL_RECONNECT_DELAY_MS_def MAX_RECONNECT_DELAY_MS_def min_def)

lemmas consume_defs =
  handleMessage_def safeAck_def safeNack_def scheduleRedelivery_def open_channel_def Let_def

lemma delivery_success:
  assumes "parse (content m) = Some e" and "handler e s = (None, s')"
  shows "delivery parse handler queue m s = (Consumed, [], 1, s')"
  using assms by (subst delivery.simps) (simp add: consume_defs)

lemma delivery_exhausted:
  assumes "parse (content m) = Some e" and "handler e s = (Some err, s')"
    and "MAX_RETRY_ATTEMPTS \<le> readRetryCount m"
  shows "delivery parse handler queue m s = (DeadLettered, [], 1, s')"
  using assms by (subst delivery.simps) (simp add: consume_defs)

lemma delivery_retry:
  assumes "parse (content m) = Some e" and "handler e s = (Some err, s')"
    and "readRetryCount m < MAX_RETRY_ATTEMPTS"
    and "delivery parse handler queue
           (m\<lparr>retry_header := Some (HNumber (Suc (readRetryCount m)))\<rparr>) s' = (f, ds, k, s'')"
  shows "delivery parse handler queue m s = (f, redelivery_delay (readRetryCount m) # ds, Suc k, s'')"
  using assms by (subst delivery.simps) (simp add: consume_defs)

lemma delivery_malformed:
  "parse (content m) = None \<Longrightarrow> delivery parse handler queue m s = (DeadLettered, [], 0, s)"
  by (subst delivery.simps) (simp add: consume_defs)

definition handler_fails :: "('e \<Rightarrow> 's \<Rightarrow> string option \<times> 's) \<Rightarrow> 'e \<Rightarrow> 's \<Rightarrow> bool" where
  "handler_fails handler e s \<longleftrightarrow> fst (handler e s) \<noteq> None"

fun after_runs :: "('e \<Rightarrow> 's \<Rightarrow> string option \<times> 's) \<Rightarrow> 'e \<Rightarrow> nat \<Rightarrow> 's \<Rightarrow> 's" where
  "after_runs handler e 0 s = s"
| "after_runs handler e (Suc n) s = after_runs handler e n (snd (handler e s))"

lemma delivery_outcome:
  assumes "parse (content m) = Some e" and "readRetryCount m \<le> MAX_RETRY_ATTEMPTS"
    and "n + readRetryCount m = MAX_RETRY_ATTEMPTS"
  shows "\<exists>k \<le> n. (\<forall>j < k. handler_fails handler e (after_runs handler e j s)) \<and>
     delivery parse handler queue m s =
       (if handler_fails handler e (after_runs handler e k s) then DeadLettered else Consumed,
        map redelivery_delay [readRetryCount m..<readRetryCount m + k], Suc k,
        after_runs handler e (Suc k) s) \<and>
     (handler_fails handler e (after_runs handler e k s) \<longrightarrow> k = n)"
  using assms
proof (induction n arbitrary: m s)
  case 0
  obtain err s' where h: "handler e s = (err, s')" by fastforce
  show ?case
    using 0 h by (cases err)
      (auto simp: handler_fails_def delivery_success delivery_exhausted)
next
  case (Suc n)
  obtain err s' where h: "handler e s = (err, s')" by fastforce
  show ?case
  proof (cases err)
    case None
    with h Suc.prems show ?thesis
      by (intro exI [of _ 0]) (simp add: delivery_success handler_fails_def)
  next
    case (Some x)
    let ?c = "readRetryCount m"
    let ?m = "m\<lparr>retry_header := Some (HNumber (Suc ?c))\<rparr>"
    have c: "readRetryCount ?m = Suc ?c" by (simp add: readRetryCount_def)
    then have "parse (content ?m) = Some e" "readRetryCount ?m \<le> MAX_RETRY_ATTEMPTS"
      "n + readRetryCount ?m = MAX_RETRY_ATTEMPTS"
      using Suc.prems by auto
    from Suc.IH [OF this, of s'] obtain k where k: "k \<le> n"
      "\<forall>j < k. handler_fails handler e (after_runs handler e j s')"
      "delivery parse handler queue ?m s' =
        (if handler_fails handler e (after_runs handler e k s') then DeadLettered else Consumed,
         map redelivery_delay [Suc ?c..<Suc ?c + k], Suc k, after_runs handler e (Suc k) s')"
      "handler_fails handler e (after_runs handler e k s') \<longrightarrow> k = n"
      unfolding c by blast
    have "?c < MAX_RETRY_ATTEMPTS" using Suc.prems by simp
    then have "delivery parse handler queue m s =
        (if handler_fails handler e (after_runs handler e k s') then DeadLettered else Consumed,
         redelivery_delay ?c # map redelivery_delay [Suc ?c..<Suc ?c + k], Suc (Suc k),
         after_runs handler e (Suc k) s')"
      using Suc.prems(1) h Some k(3) by (intro delivery_retry) auto
    moreover have "\<forall>j < Suc k. handler_fails handler e (after_runs handler e j s)"
      using k(2) h Some by (auto simp: less_Suc_eq_0_disj handler_fails_def)
    moreover have "[?c..<?c + Suc k] = ?c # [Suc ?c..<Suc ?c + k]"
      by (simp add: upt_rec)
    ultimately show ?thesis
      using k(1,4) h by (intro exI [of _ "Suc k"]) simp
  qed
qed

section \<open>Lemmas on the connection\<close>

definition broker_inv :: "broker \<Rightarrow> bool" where
  "broker_inv b \<longleftrightarrow>
     (\<not> shuttingDown b \<longrightarrow>
        (reconnecting b \<longleftrightarrow> reconnectTimer b \<noteq> None \<or> phase b \<noteq> Idle) \<and>
        (chan b \<or> reconnecting b) \<and>
        (\<forall>qs. phase b = Binding qs \<and> chan b \<longrightarrow> consuming b @ qs = subscriptions b)) \<and>
     (reconnectTimer b \<noteq> None \<longrightarrow> phase b = Idle) \<and>
     (\<forall>d. reconnectTimer b = Some d \<longrightarrow> d \<le> MAX_RECONNECT_DELAY_MS)"

lemmas broker_defs =
  handleConnectionIssue_def scheduleReconnect_def subscribe_def timer_callback_def connected_def
  attempt_finally_def bind_next_def onModuleDestroy_def Let_def

lemma broker_step_inv: "broker_step b b' \<Longrightarrow> broker_inv b \<Longrightarrow> broker_inv b'"
proof (induction rule: broker_step.induct)
  case (issue b)
  then show ?case by (auto simp: broker_inv_def broker_defs reconnect.delay_le_cap)
next
  case (subscribes b q)
  then show ?case by (auto simp: broker_inv_def broker_defs)
next
  case (timer b d)
  then show ?case by (auto simp: broker_inv_def broker_defs)
next
  case (connect_ok b)
  then show ?case by (auto simp: broker_inv_def broker_defs)
next
  case (connect_fails b)
  then show ?case by (auto simp: broker_inv_def broker_defs reconnect.delay_le_cap)
next
  case (bind b qs)
  then show ?case
    by (cases qs) (auto simp: broker_inv_def broker_defs reconnect.delay_le_cap)
next
  case (bind_fails b qs)
  then show ?case by (auto simp: broker_inv_def broker_defs reconnect.delay_le_cap)
next
  case (destroy b)
  then show ?case by (auto simp: broker_inv_def broker_defs)
qed

lemma broker_reachable_inv: "broker_reachable b \<Longrightarrow> broker_inv b"
proof (induction rule: broker_reachable.induct)
  case started
  show ?case by (simp add: broker_inv_def broker_started_def)
next
  case (step b b')
  then show ?case by (blast intro: broker_step_inv)
qed

section \<open>Properties\<close>

lemma first_delays: "k \<le> 5 \<Longrightarrow> map redelivery_delay [0..<k] = take k [1000, 2000, 4000, 8000, 16000]"
proof -
  assume "k \<le> 5"
  moreover have "map redelivery_delay [0..<5] = [1000, 2000, 4000, 8000, 16000]"
    by (simp add: upt_rec redelivery_delay_def RETRY_BASE_DELAY_MS_def MAX_RETRY_DELAY_MS_def)
  ultimately show ?thesis
    by (metis add_0 take_map take_upt)
qed

text \<open>
  C13. The life of a message that carries no retry header: its handler runs once and then again after
  each failure, at most six times in all, with waits of 1, 2, 4, 8 and 16 seconds in between. The
  message is consumed as soon as a run succeeds, and it is dead-lettered exactly when all six runs
  failed. The consumer's state is the one the runs leave behind.
\<close>

theorem message_delivery:
  assumes "parse (content m) = Some e" and "retry_header m = None"
  shows "\<exists>k \<le> 5. (\<forall>j < k. handler_fails handler e (after_runs handler e j s)) \<and>
     delivery parse handler queue m s =
       (if handler_fails handler e (after_runs handler e k s) then DeadLettered else Consumed,
        take k [1000, 2000, 4000, 8000, 16000], Suc k, after_runs handler e (Suc k) s) \<and>
     (handler_fails handler e (after_runs handler e k s) \<longrightarrow> k = 5)"
proof -
  have c: "readRetryCount m = 0" using assms(2) by (simp add: readRetryCount_def)
  obtain k where k: "k \<le> 5" "\<forall>j < k. handler_fails handler e (after_runs handler e j s)"
    "delivery parse handler queue m s =
       (if handler_fails handler e (after_runs handler e k s) then DeadLettered else Consumed,
        map redelivery_delay [0..<k], Suc k, after_runs handler e (Suc k) s)"
    "handler_fails handler e (after_runs handler e k s) \<longrightarrow> k = 5"
    using delivery_outcome [where n = 5 and m = m and parse = parse and e = e and handler = handler
        and s = s and queue = queue, OF assms(1)] unfolding c add_0 MAX_RETRY_ATTEMPTS_def by auto
  show ?thesis
    using k(2-4) unfolding first_delays [OF k(1)] by (intro exI [of _ k] conjI k(1))
qed

definition sample_message :: "string \<Rightarrow> message" where
  "sample_message c = \<lparr>content = c, retry_header = None, routingKey = ''BadgeUnlocked.v1'', messageId = ''evt_1''\<rparr>"

theorem message_delivery_witness:
  "delivery Some (\<lambda>e n. (if n < 2 then Some ''busy'' else None, Suc n)) ''q'' (sample_message ''x'') (0::nat)
     = (Consumed, [1000, 2000], 3, 3)"
proof -
  let ?h = "\<lambda>(e::string) (n::nat). (if n < 2 then Some ''busy'' else None, Suc n)"
  have runs: "after_runs ?h ''x'' j n = n + j" for j n by (induction j arbitrary: n) auto
  have f: "handler_fails ?h ''x'' n \<longleftrightarrow> n < 2" for n by (simp add: handler_fails_def)
  have "\<exists>k \<le> 5. (\<forall>j < k. j < 2) \<and> delivery Some ?h ''q'' (sample_message ''x'') 0 =
       (if k < 2 then DeadLettered else Consumed, take k [1000, 2000, 4000, 8000, 16000], Suc k, Suc k)
       \<and> (k < 2 \<longrightarrow> k = 5)"
    using message_delivery [of Some "sample_message ''x''" "''x''" ?h 0 "''q''"]
    unfolding runs f by (simp add: sample_message_def)
  then obtain k where k: "\<forall>j < k. j < 2" "k < 2 \<longrightarrow> k = 5"
    "delivery Some ?h ''q'' (sample_message ''x'') 0 =
       (if k < 2 then DeadLettered else Consumed, take k [1000, 2000, 4000, 8000, 16000], Suc k, Suc k)"
    by blast
  have "k \<le> 2" using k(1) [rule_format, of 2] by linarith
  then have "k = 2" using k(2) by linarith
  with k(3) show ?thesis by simp
qed

text \<open>
  How one delivery is settled, on any channel: the message is acknowledged or rejected at most once,
  and exactly once if the channel takes acknowledgements. It is acknowledged only when its handler
  succeeded or a copy with the next retry count was sent to the retry queue before, so no failed
  message is lost; an unreadable message is rejected without running the handler.
\<close>

theorem handleMessage_settles:
  assumes "handleMessage parse handler (Some c) (Some m) queue s = (ops, s')"
  shows "length (filter (\<lambda>p. p \<in> {Ack m, Nack m}) ops) = (if accepts_ack c then 1 else 0)
    \<and> (Ack m \<in> set ops \<longrightarrow>
         (\<exists>e. parse (content m) = Some e \<and>
            (fst (handler e s) = None \<or>
             hd ops = SendToQueue (queue @ ''.retry'')
               (m\<lparr>retry_header := Some (HNumber (Suc (readRetryCount m)))\<rparr>)
               (redelivery_delay (readRetryCount m)))))
    \<and> (parse (content m) = None \<longrightarrow> s' = s \<and> Ack m \<notin> set ops)"
proof (cases "parse (content m)")
  case None
  with assms show ?thesis by (auto simp: consume_defs)
next
  case (Some e)
  obtain err s1 where "handler e s = (err, s1)" by fastforce
  with Some assms show ?thesis
    by (cases err) (auto simp: consume_defs split: if_splits)
qed

theorem handleMessage_settles_witness:
  "handleMessage Some (\<lambda>e n. (Some ''busy'', Suc n)) (Some open_channel) (Some (sample_message ''x'')) ''q'' (0::nat)
     = ([SendToQueue ''q.retry'' ((sample_message ''x'')\<lparr>retry_header := Some (HNumber 1)\<rparr>) 1000,
         Ack (sample_message ''x'')], 1)
   \<and> length (filter (\<lambda>p. p \<in> {Ack (sample_message ''x''), Nack (sample_message ''x'')})
       [SendToQueue ''q.retry'' ((sample_message ''x'')\<lparr>retry_header := Some (HNumber 1)\<rparr>) 1000,
         Ack (sample_message ''x'')]) = 1"
proof -
  have run: "handleMessage Some (\<lambda>e n. (Some ''busy'', Suc n)) (Some open_channel) (Some (sample_message ''x'')) ''q'' (0::nat)
     = ([SendToQueue ''q.retry'' ((sample_message ''x'')\<lparr>retry_header := Some (HNumber 1)\<rparr>) 1000,
         Ack (sample_message ''x'')], 1)"
    by (simp add: consume_defs sample_message_def readRetryCount_def MAX_RETRY_ATTEMPTS_def
        redelivery_delay_def RETRY_BASE_DELAY_MS_def MAX_RETRY_DELAY_MS_def)
  then show ?thesis using handleMessage_settles [OF run] by (simp add: open_channel_def)
qed

text \<open>
  C32. Until it shuts down the service is never stranded without a broker: in every reachable state it
  has a channel, or a reconnect timer of at most 30 seconds is set, or an attempt is under way, and
  never a timer and an attempt at once. A completed replay leaves every subscription consuming, once
  and in order, and resets the backoff.
\<close>

theorem broker_recovers:
  assumes "broker_reachable b" and "\<not> shuttingDown b"
  shows "(chan b \<or> (\<exists>d \<le> 30000. reconnectTimer b = Some d) \<or> phase b \<noteq> Idle)
    \<and> (reconnectTimer b = None \<or> phase b = Idle)
    \<and> (phase b = Binding [] \<and> chan b \<longrightarrow>
         consuming (bind_next b) = subscriptions (bind_next b) \<and> reconnectAttempt (bind_next b) = 0
         \<and> \<not> reconnecting (bind_next b))"
  using broker_reachable_inv [OF assms(1)] assms(2)
  by (auto simp: broker_inv_def broker_defs MAX_RECONNECT_DELAY_MS_def)

theorem broker_recovers_witness:
  "phase (connected (timer_callback (handleConnectionIssue (snd (subscribe ''q'' broker_started)))))
     = Binding [''q'']
   \<and> chan (connected (timer_callback (handleConnectionIssue (snd (subscribe ''q'' broker_started)))))
   \<and> (\<exists>d \<le> 30000. reconnectTimer (handleConnectionIssue (snd (subscribe ''q'' broker_started))) = Some d)"
proof -
  let ?b = "handleConnectionIssue (snd (subscribe ''q'' broker_started))"
  have "phase broker_started = Idle" by (simp add: broker_started_def)
  then have "broker_reachable ?b"
    by (intro broker_reachable.step [OF broker_reachable.step [OF broker_reachable.started
          broker_step.subscribes] broker_step.issue])
  moreover have "\<not> shuttingDown ?b" "\<not> chan ?b" "phase ?b = Idle"
    by (simp_all add: broker_defs broker_started_def)
  ultimately show ?thesis
    using broker_recovers [of ?b] by (simp add: broker_defs broker_started_def)
qed

end
