(* ===== verification/Outbox.thy ===== *)
theory Outbox
  imports Tables Events Broker
begin

text \<open>
  \<open>packages/outbox-sdk/src\<close>: \<open>OutboxService\<close> (claim a row, publish it, record the outcome) and
  \<open>ScheduledOutboxPublisher\<close> (the scanner and its Redis lock). The state is the service's
  \<open>outbox_events\<close> table with the sending side of its broker. \<open>outbox_step\<close> adds the steps of the
  surroundings: a service transaction that inserts rows, and a process that dies in the middle of a
  publish.

  In \<open>publishRecord\<close> the assignment \<open>lastError = undefined\<close> does not reach the table, since
  \<open>save\<close> leaves a column alone whose property is \<open>undefined\<close>; the saved row keeps its old value.
\<close>

section \<open>Rows and options\<close>

record outbox_record =
  ob_id :: string
  ob_eventType :: domain_event_name
  ob_routingKey :: domain_event_name
  ob_payload :: bumpa_domain_event
  ob_status :: outbox_status
  ob_attempts :: nat
  ob_lastError :: "string option"
  ob_createdAt :: int
  ob_publishedAt :: "int option"

type_synonym outbox = "outbox_record list"

record outbox_options =
  batchSize :: nat
  maxAttempts :: nat
  lockTtlMs :: int

definition default_outbox_options :: outbox_options where
  "default_outbox_options = \<lparr>batchSize = 20, maxAttempts = 5, lockTtlMs = 5000\<rparr>"

text \<open>The row the services create for an event, with the column defaults of the entity.\<close>

definition outbox_row :: "bumpa_domain_event \<Rightarrow> int \<Rightarrow> outbox_record" where
  "outbox_row e now =
     \<lparr>ob_id = bumpa_event_id e, ob_eventType = bumpa_event_type e, ob_routingKey = bumpa_event_type e,
      ob_payload = e, ob_status = OutboxPending, ob_attempts = 0, ob_lastError = None,
      ob_createdAt = now, ob_publishedAt = None\<rparr>"

section \<open>OutboxService\<close>

definition claimForPublishing :: "string \<Rightarrow> outbox \<Rightarrow> bool \<times> outbox" where
  "claimForPublishing i t =
     (let P = (\<lambda>r. ob_id r = i \<and> ob_status r = OutboxPending)
      in (0 < affected P t, update_where P (\<lambda>r. r\<lparr>ob_status := Publishing\<rparr>) t))"

definition save_published :: "outbox_record \<Rightarrow> outbox \<Rightarrow> outbox" where
  "save_published event t =
     update_where (\<lambda>r. ob_id r = ob_id event) (\<lambda>r. event\<lparr>ob_lastError := ob_lastError r\<rparr>) t"

definition publishRecord ::
  "outbox_options \<Rightarrow> (nat \<Rightarrow> string option) \<Rightarrow> int \<Rightarrow> outbox_record \<Rightarrow> outbox \<times> bus
     \<Rightarrow> bool \<times> outbox \<times> bus" where
  "publishRecord opts confirm now event = (\<lambda>(t, b).
     (case publish confirm (ob_payload event) b of
        (None, b') \<Rightarrow>
          (True, save_published (event\<lparr>ob_status := Published, ob_publishedAt := Some now\<rparr>) t, b')
      | (Some err, b') \<Rightarrow>
          (let n = ob_attempts event + 1;
               event' = event\<lparr>ob_attempts := n, ob_lastError := Some err,
                              ob_status := (if maxAttempts opts \<le> n then OutboxFailed else OutboxPending)\<rparr>
           in (False, upsert ob_id event' t, b'))))"

definition publishById ::
  "outbox_options \<Rightarrow> (nat \<Rightarrow> string option) \<Rightarrow> int \<Rightarrow> string \<Rightarrow> outbox \<times> bus \<Rightarrow> bool \<times> outbox \<times> bus" where
  "publishById opts confirm now i = (\<lambda>(t, b).
     (case find_one (\<lambda>r. ob_id r = i) t of
        None \<Rightarrow> (False, t, b)
      | Some event \<Rightarrow>
          if ob_status event = Published \<or> maxAttempts opts \<le> ob_attempts event then (False, t, b)
          else (let (claimed, t') = claimForPublishing (ob_id event) t in
                if \<not> claimed then (False, t', b)
                else publishRecord opts confirm now (event\<lparr>ob_status := Publishing\<rparr>) (t', b))))"

fun publishMany ::
  "outbox_options \<Rightarrow> (nat \<Rightarrow> string option) \<Rightarrow> int \<Rightarrow> string list \<Rightarrow> outbox \<times> bus \<Rightarrow> outbox \<times> bus" where
  "publishMany opts confirm now [] s = s"
| "publishMany opts confirm now (i # is) s =
     publishMany opts confirm now is (snd (publishById opts confirm now i s))"

text \<open>The loop of \<open>publishPendingBatch\<close> over the rows it has loaded.\<close>

fun publish_loop ::
  "outbox_options \<Rightarrow> (nat \<Rightarrow> string option) \<Rightarrow> int \<Rightarrow> outbox_record list \<Rightarrow> outbox \<times> bus \<Rightarrow> outbox \<times> bus" where
  "publish_loop opts confirm now [] s = s"
| "publish_loop opts confirm now (event # events) (t, b) =
     (let (claimed, t') = claimForPublishing (ob_id event) t in
      if \<not> claimed then publish_loop opts confirm now events (t', b)
      else publish_loop opts confirm now events
             (snd (publishRecord opts confirm now (event\<lparr>ob_status := Publishing\<rparr>) (t', b))))"

definition pending_rows :: "outbox \<Rightarrow> outbox" where
  "pending_rows t = filter (\<lambda>r. ob_status r = OutboxPending) t"

definition publishPendingBatch ::
  "outbox_options \<Rightarrow> (nat \<Rightarrow> string option) \<Rightarrow> (outbox \<Rightarrow> outbox) \<Rightarrow> int \<Rightarrow> outbox \<times> bus \<Rightarrow> outbox \<times> bus" where
  "publishPendingBatch opts confirm ord now s =
     publish_loop opts confirm now (take (batchSize opts) (ord (pending_rows (fst s)))) s"

definition oldest_first :: "outbox_record \<Rightarrow> outbox_record \<Rightarrow> bool" where
  "oldest_first r r' \<longleftrightarrow> ob_createdAt r \<le> ob_createdAt r'"

section \<open>ScheduledOutboxPublisher\<close>

text \<open>
  A lock value names the process and the time (\<open>pid:now\<close>). Redis holds, per key, a value and the
  time at which it expires; a key past that time is absent.
\<close>

type_synonym lock_value = "nat \<times> int"
type_synonym redis = "string \<Rightarrow> (lock_value \<times> int) option"

definition redis_get :: "redis \<Rightarrow> int \<Rightarrow> string \<Rightarrow> lock_value option" where
  "redis_get r now k = (case r k of Some (v, expiry) \<Rightarrow> if now < expiry then Some v else None | None \<Rightarrow> None)"

definition acquireLock :: "outbox_options \<Rightarrow> string \<Rightarrow> lock_value \<Rightarrow> int \<Rightarrow> redis \<Rightarrow> bool \<times> redis" where
  "acquireLock opts k v now r =
     (if redis_get r now k = None then (True, r(k \<mapsto> (v, now + lockTtlMs opts))) else (False, r))"

definition extendLock :: "outbox_options \<Rightarrow> string \<Rightarrow> lock_value \<Rightarrow> int \<Rightarrow> redis \<Rightarrow> redis" where
  "extendLock opts k v now r =
     (if redis_get r now k = Some v then r(k \<mapsto> (v, now + lockTtlMs opts)) else r)"

definition releaseLock :: "string \<Rightarrow> lock_value \<Rightarrow> int \<Rightarrow> redis \<Rightarrow> redis" where
  "releaseLock k v now r = (if redis_get r now k = Some v then r(k := None) else r)"

definition heartbeat_interval :: "outbox_options \<Rightarrow> int" where
  "heartbeat_interval opts = max 1 (lockTtlMs opts div 2)"

record publisher =
  running :: bool
  pub_redis :: redis
  pub_outbox :: outbox
  pub_bus :: bus

text \<open>
  One tick: \<open>start\<close> and \<open>finish\<close> are the times of acquiring and releasing, and \<open>others\<close> is what
  heartbeats and other processes do to Redis while the batch runs.
\<close>

definition publishPending ::
  "outbox_options \<Rightarrow> string \<Rightarrow> (nat \<Rightarrow> string option) \<Rightarrow> (outbox \<Rightarrow> outbox) \<Rightarrow> nat \<Rightarrow> int \<Rightarrow> int
     \<Rightarrow> (redis \<Rightarrow> redis) \<Rightarrow> publisher \<Rightarrow> publisher" where
  "publishPending opts lockKey confirm ord pid start finish others p =
     (if running p then p
      else (let v = (pid, start);
                (hasLock, r) = acquireLock opts lockKey v start (pub_redis p)
            in if \<not> hasLock then p\<lparr>running := False, pub_redis := r\<rparr>
               else (let (t, b) = publishPendingBatch opts confirm ord start (pub_outbox p, pub_bus p)
                     in p\<lparr>running := False, pub_redis := releaseLock lockKey v finish (others r),
                          pub_outbox := t, pub_bus := b\<rparr>)))"

section \<open>Steps of an outbox in its surroundings\<close>

inductive outbox_step ::
  "outbox_options \<Rightarrow> (nat \<Rightarrow> string option) \<Rightarrow> (outbox \<Rightarrow> outbox) \<Rightarrow> outbox \<times> bus \<Rightarrow> outbox \<times> bus \<Rightarrow> bool"
  for opts confirm ord where
  insert: "bumpa_event_id e \<notin> ob_id ` set t \<Longrightarrow> bumpa_event_id e \<notin> bumpa_event_id ` set (bus_log b) \<Longrightarrow>
     outbox_step opts confirm ord (t, b) (t @ [outbox_row e now], b)"
| by_id: "outbox_step opts confirm ord s (snd (publishById opts confirm now i s))"
| tick: "outbox_step opts confirm ord s (publishPendingBatch opts confirm ord now s)"
| dies_after_claim: "outbox_step opts confirm ord (t, b) (snd (claimForPublishing i t), b)"
| dies_after_publish: "find_one (\<lambda>r. ob_id r = i) t = Some r \<Longrightarrow> ob_status r = OutboxPending \<Longrightarrow>
     outbox_step opts confirm ord (t, b)
       (snd (claimForPublishing i t), snd (publish confirm (ob_payload r) b))"
| link: "outbox_step opts confirm ord (t, b) (t, b\<lparr>bus_open := up\<rparr>)"

section \<open>One row\<close>

text \<open>The row a publish attempt leaves behind, given the broker's answer.\<close>

definition settled :: "outbox_options \<Rightarrow> int \<Rightarrow> string option \<Rightarrow> outbox_record \<Rightarrow> outbox_record" where
  "settled opts now answer r =
     (case answer of
        None \<Rightarrow> r\<lparr>ob_status := Published, ob_publishedAt := Some now\<rparr>
      | Some err \<Rightarrow> r\<lparr>ob_attempts := ob_attempts r + 1, ob_lastError := Some err,
                      ob_status := (if maxAttempts opts \<le> ob_attempts r + 1 then OutboxFailed else OutboxPending)\<rparr>)"

abbreviation set_row :: "outbox_record \<Rightarrow> outbox_record \<Rightarrow> outbox \<Rightarrow> outbox" where
  "set_row r r' t \<equiv> update_where (\<lambda>x. ob_id x = ob_id r) (\<lambda>_. r') t"

lemma set_row_ids: "ob_id r' = ob_id r \<Longrightarrow> map ob_id (set_row r r' t) = map ob_id t"
  by (rule map_update_where) simp

lemma settled_id [simp]: "ob_id (settled opts now a r) = ob_id r"
  by (simp add: settled_def split: option.splits)

lemma settled_payload [simp]: "ob_payload (settled opts now a r) = ob_payload r"
  by (simp add: settled_def split: option.splits)

lemma row_unique:
  "distinct (map ob_id t) \<Longrightarrow> r \<in> set t \<Longrightarrow> e \<in> set t \<Longrightarrow> ob_id r = ob_id e \<Longrightarrow> r = e"
  by (auto simp: distinct_map inj_on_def)

lemma claim_pending:
  assumes "distinct (map ob_id t)" and "r \<in> set t" and "ob_status r = OutboxPending"
  shows "claimForPublishing (ob_id r) t = (True, set_row r (r\<lparr>ob_status := Publishing\<rparr>) t)"
  using assms row_unique [OF assms(1)]
  by (auto simp: claimForPublishing_def Let_def affected_pos list_ex_iff update_where_def)

lemma claim_not_pending:
  assumes "distinct (map ob_id t)" and "r \<in> set t" and "ob_status r \<noteq> OutboxPending"
  shows "claimForPublishing (ob_id r) t = (False, t)"
proof -
  have "\<not> list_ex (\<lambda>x. ob_id x = ob_id r \<and> ob_status x = OutboxPending) t"
    using assms row_unique [OF assms(1)] by (auto simp: list_ex_iff)
  then show ?thesis
    by (simp add: claimForPublishing_def affected_pos update_where_none)
qed

lemma publish_claimed:
  assumes "distinct (map ob_id t)" and "r \<in> set t" and "publish confirm (ob_payload r) b = (a, b')"
  shows "publishRecord opts confirm now (r\<lparr>ob_status := Publishing\<rparr>)
           (set_row r (r\<lparr>ob_status := Publishing\<rparr>) t, b)
       = (a = None, set_row r (settled opts now a r) t, b')"
proof (cases a)
  case None
  have "save_published (r\<lparr>ob_status := Published, ob_publishedAt := Some now\<rparr>)
          (set_row r (r\<lparr>ob_status := Publishing\<rparr>) t)
      = set_row r (r\<lparr>ob_status := Published, ob_publishedAt := Some now\<rparr>) t"
    by (simp add: save_published_def update_where_def)
  with None assms(3) show ?thesis
    by (simp add: publishRecord_def settled_def)
next
  case (Some err)
  have "list_ex (\<lambda>x. ob_id x = ob_id r) (set_row r (r\<lparr>ob_status := Publishing\<rparr>) t)"
    using assms(2) by (auto simp: list_ex_key set_row_ids)
  with Some assms(3) show ?thesis
    by (auto simp: publishRecord_def settled_def upsert_def Let_def update_where_def)
qed

lemma publishById_pending:
  assumes "distinct (map ob_id t)" and "r \<in> set t" and "ob_status r = OutboxPending"
    and "ob_attempts r < maxAttempts opts" and "publish confirm (ob_payload r) b = (a, b')"
  shows "publishById opts confirm now (ob_id r) (t, b)
       = (a = None, set_row r (settled opts now a r) t, b')"
proof -
  have "find_one (\<lambda>x. ob_id x = ob_id r) t = Some r"
    using assms(1,2) by (rule find_one_key) simp
  then show ?thesis
    using assms claim_pending [OF assms(1-3)] publish_claimed [OF assms(1,2,5)]
    by (simp add: publishById_def)
qed

text \<open>A publish by identifier leaves everything as it is unless the row is pending.\<close>

lemma publishById_other:
  assumes "distinct (map ob_id t)"
    and "\<not> (\<exists>r \<in> set t. ob_id r = i \<and> ob_status r = OutboxPending \<and> ob_attempts r < maxAttempts opts)"
  shows "publishById opts confirm now i (t, b) = (False, t, b)"
proof (cases "find_one (\<lambda>x. ob_id x = i) t")
  case None
  then show ?thesis by (simp add: publishById_def)
next
  case (Some r)
  then have "r \<in> set t" "ob_id r = i" by (auto dest: find_one_Some)
  with assms claim_not_pending [OF assms(1)] Some show ?thesis
    by (auto simp: publishById_def)
qed

lemma publish_loop_Cons:
  assumes "distinct (map ob_id t)" and "r \<in> set t" and "ob_status r = OutboxPending"
    and "publish confirm (ob_payload r) b = (a, b')"
  shows "publish_loop opts confirm now (r # rs) (t, b)
       = publish_loop opts confirm now rs (set_row r (settled opts now a r) t, b')"
  using claim_pending [OF assms(1-3)] publish_claimed [OF assms(1,2,4)] by simp

lemma set_row_other: "x \<in> set t \<Longrightarrow> ob_id x \<noteq> ob_id r \<Longrightarrow> x \<in> set (set_row r r' t)"
  by (force simp: update_where_def)

lemma in_set_row: "x \<in> set (set_row r r' t) \<Longrightarrow> x = r' \<or> (x \<in> set t \<and> ob_id x \<noteq> ob_id r)"
  by (auto simp: update_where_def split: if_splits)

text \<open>
  A batch run is the sequence of single publishes of the rows it loaded, so an assertion about table
  and bus that every single publish keeps is kept by the batch.
\<close>

lemma publish_loop_induct:
  assumes step: "\<And>t b r a b'. Q t b \<Longrightarrow> distinct (map ob_id t) \<Longrightarrow> r \<in> set t \<Longrightarrow>
      ob_status r = OutboxPending \<Longrightarrow> publish confirm (ob_payload r) b = (a, b') \<Longrightarrow>
      Q (set_row r (settled opts now a r) t) b'"
    and "Q t b" and "distinct (map ob_id t)" and "distinct (map ob_id rs)"
    and "\<forall>r \<in> set rs. r \<in> set t \<and> ob_status r = OutboxPending"
  shows "case publish_loop opts confirm now rs (t, b) of (t', b') \<Rightarrow> Q t' b' \<and> map ob_id t' = map ob_id t"
  using assms(2-5)
proof (induction rs arbitrary: t b)
  case Nil
  then show ?case by simp
next
  case (Cons r rs)
  obtain a b' where p: "publish confirm (ob_payload r) b = (a, b')" by fastforce
  let ?t = "set_row r (settled opts now a r) t"
  have ids: "map ob_id ?t = map ob_id t" by (rule set_row_ids) simp
  have "Q ?t b'" using Cons.prems p by (intro step) auto
  moreover have "\<forall>x \<in> set rs. x \<in> set ?t \<and> ob_status x = OutboxPending"
    using Cons.prems(3,4) by (auto intro!: set_row_other simp: rev_image_eqI)
  ultimately have "case publish_loop opts confirm now rs (?t, b') of
      (t', b') \<Rightarrow> Q t' b' \<and> map ob_id t' = map ob_id ?t"
    using Cons.prems ids by (intro Cons.IH) auto
  then show ?case
    using publish_loop_Cons [of t r confirm b a b'] Cons.prems p ids by simp
qed

section \<open>The invariant\<close>

definition log_count :: "string \<Rightarrow> bus \<Rightarrow> nat" where
  "log_count i b = length (filter (\<lambda>e. bumpa_event_id e = i) (bus_log b))"

text \<open>
  What a row says about the broker: published rows are in the log exactly once, pending and failed
  rows not at all, rows in flight at most once. Attempts stay within their bound and reach it exactly
  on failed rows.
\<close>

definition row_ok :: "outbox_options \<Rightarrow> bus \<Rightarrow> outbox_record \<Rightarrow> bool" where
  "row_ok opts b r \<longleftrightarrow>
     bumpa_event_id (ob_payload r) = ob_id r \<and>
     ob_attempts r \<le> maxAttempts opts \<and>
     (ob_status r = OutboxFailed \<longleftrightarrow> ob_attempts r = maxAttempts opts) \<and>
     (case ob_status r of
        Published \<Rightarrow> log_count (ob_id r) b = 1
      | Publishing \<Rightarrow> log_count (ob_id r) b \<le> 1
      | _ \<Rightarrow> log_count (ob_id r) b = 0)"

definition outbox_ok :: "outbox_options \<Rightarrow> outbox \<Rightarrow> bus \<Rightarrow> bool" where
  "outbox_ok opts t b \<longleftrightarrow> distinct (map ob_id t) \<and> (\<forall>r \<in> set t. row_ok opts b r)"

lemma publish_answer:
  assumes "publish confirm e b = (a, b')"
  shows "log_count i b' = log_count i b + (if a = None \<and> bumpa_event_id e = i then 1 else 0)"
  using assms by (auto simp: publish_def log_count_def split: if_splits option.splits)

lemma row_ok_frame:
  "row_ok opts b r \<Longrightarrow> log_count (ob_id r) b' = log_count (ob_id r) b \<Longrightarrow> row_ok opts b' r"
  by (cases "ob_status r") (simp_all add: row_ok_def)

lemma row_ok_claimed:
  "row_ok opts b r \<Longrightarrow> ob_status r = OutboxPending \<Longrightarrow> row_ok opts b (r\<lparr>ob_status := Publishing\<rparr>)"
  by (auto simp: row_ok_def)

lemma outbox_ok_publish:
  assumes ok: "outbox_ok opts t b" and r: "r \<in> set t" "ob_status r = OutboxPending"
    and p: "publish confirm (ob_payload r) b = (a, b')"
  shows "outbox_ok opts (set_row r (settled opts now a r) t) b'"
proof -
  have rok: "row_ok opts b r" using ok r(1) by (simp add: outbox_ok_def)
  then have "row_ok opts b' (settled opts now a r)"
    using r(2) publish_answer [OF p, of "ob_id r"]
    by (auto simp: row_ok_def settled_def split: option.splits)
  moreover have "row_ok opts b' x" if "x \<in> set t" "ob_id x \<noteq> ob_id r" for x
  proof -
    have "log_count (ob_id x) b' = log_count (ob_id x) b"
      using publish_answer [OF p, of "ob_id x"] that(2) rok by (auto simp: row_ok_def)
    then show ?thesis
      using ok that(1) row_ok_frame unfolding outbox_ok_def by blast
  qed
  moreover have "map ob_id (set_row r (settled opts now a r) t) = map ob_id t"
    by (rule set_row_ids) simp
  ultimately show ?thesis
    using ok by (auto simp: outbox_ok_def dest!: in_set_row)
qed

lemma outbox_ok_claim:
  assumes "outbox_ok opts t b"
  shows "outbox_ok opts (snd (claimForPublishing i t)) b"
proof -
  have "map ob_id (snd (claimForPublishing i t)) = map ob_id t"
    by (auto simp: claimForPublishing_def Let_def intro: map_update_where)
  then show ?thesis
    using assms
    by (auto simp: outbox_ok_def claimForPublishing_def Let_def in_update_where row_ok_claimed)
qed

lemma outbox_ok_publishById:
  assumes "outbox_ok opts t b" and "publishById opts confirm now i (t, b) = (res, t', b')"
  shows "outbox_ok opts t' b'"
proof (cases "\<exists>r \<in> set t. ob_id r = i \<and> ob_status r = OutboxPending \<and> ob_attempts r < maxAttempts opts")
  case True
  then obtain r where r: "r \<in> set t" "ob_id r = i" "ob_status r = OutboxPending"
    "ob_attempts r < maxAttempts opts" by blast
  obtain a b1 where p: "publish confirm (ob_payload r) b = (a, b1)" by fastforce
  have "distinct (map ob_id t)" using assms(1) by (simp add: outbox_ok_def)
  from publishById_pending [OF this r(1,3,4) p, of now]
  have "t' = set_row r (settled opts now a r) t" "b' = b1"
    using assms(2) r(2) by auto
  then show ?thesis using outbox_ok_publish [OF assms(1) r(1,3) p] by simp
next
  case False
  with assms show ?thesis
    using publishById_other [of t i opts confirm now b] by (auto simp: outbox_ok_def)
qed

lemma batch_rows:
  assumes "orders le ord" and "distinct (map ob_id t)"
  shows "distinct (map ob_id (take n (ord (pending_rows t))))"
    and "r \<in> set (take n (ord (pending_rows t))) \<Longrightarrow> r \<in> set t \<and> ob_status r = OutboxPending"
proof -
  have m: "mset (ord (pending_rows t)) = mset (pending_rows t)"
    using assms(1) by (simp add: orders_def)
  have "distinct (map ob_id (pending_rows t))"
    using assms(2) by (simp add: pending_rows_def distinct_map_filter)
  then have "distinct (map ob_id (ord (pending_rows t)))"
    using m by (metis mset_eq_imp_distinct_iff mset_map)
  then show "distinct (map ob_id (take n (ord (pending_rows t))))"
    by (simp add: take_map [symmetric] distinct_take)
  assume "r \<in> set (take n (ord (pending_rows t)))"
  then have "r \<in> set (pending_rows t)"
    using orders_set [OF assms(1)] in_set_takeD by fastforce
  then show "r \<in> set t \<and> ob_status r = OutboxPending"
    by (simp add: pending_rows_def)
qed

lemma outbox_ok_batch:
  assumes ord: "orders le ord" and ok: "outbox_ok opts t b"
    and r: "publishPendingBatch opts confirm ord now (t, b) = (t', b')"
  shows "outbox_ok opts t' b'"
proof -
  have d: "distinct (map ob_id t)" using ok by (simp add: outbox_ok_def)
  have "case publish_loop opts confirm now (take (batchSize opts) (ord (pending_rows t))) (t, b) of
      (t', b') \<Rightarrow> outbox_ok opts t' b' \<and> map ob_id t' = map ob_id t"
    by (rule publish_loop_induct [where Q = "outbox_ok opts"])
      (use ok d batch_rows [OF ord d] outbox_ok_publish in auto)
  with r show ?thesis by (simp add: publishPendingBatch_def)
qed

lemma outbox_ok_insert:
  assumes "outbox_ok opts t b" and "0 < maxAttempts opts"
    and "bumpa_event_id e \<notin> ob_id ` set t" and "bumpa_event_id e \<notin> bumpa_event_id ` set (bus_log b)"
  shows "outbox_ok opts (t @ [outbox_row e now]) b"
proof -
  have "log_count (bumpa_event_id e) b = 0"
    using assms(4) by (auto simp: log_count_def filter_empty_conv rev_image_eqI)
  then show ?thesis using assms(1-3)
    by (auto simp: outbox_ok_def row_ok_def outbox_row_def)
qed

lemma outbox_ok_step:
  assumes "outbox_step opts confirm ord (t, b) (t', b')"
    and "orders le ord" and "0 < maxAttempts opts" and "outbox_ok opts t b"
  shows "outbox_ok opts t' b'"
  using assms(1)
proof cases
  case (insert e now)
  then show ?thesis using assms outbox_ok_insert by blast
next
  case (by_id now i)
  then show ?thesis using outbox_ok_publishById [OF assms(4)] by (metis prod.collapse)
next
  case (tick now)
  then show ?thesis using outbox_ok_batch [OF assms(2,4)] by metis
next
  case (dies_after_claim i)
  then show ?thesis using outbox_ok_claim [OF assms(4)] by simp
next
  case (dies_after_publish i r)
  have d: "distinct (map ob_id t)" using assms(4) by (simp add: outbox_ok_def)
  have r: "r \<in> set t" "ob_id r = i" using dies_after_publish(3) by (auto dest: find_one_Some)
  have t': "t' = set_row r (r\<lparr>ob_status := Publishing\<rparr>) t"
    using claim_pending [OF d r(1) dies_after_publish(4)] dies_after_publish(1) r(2) by simp
  obtain a b1 where p: "publish confirm (ob_payload r) b = (a, b1)" by fastforce
  then have b': "b' = b1" using dies_after_publish(2) by simp
  have rok: "row_ok opts b r" using assms(4) r(1) by (simp add: outbox_ok_def)
  have "row_ok opts b' x" if x: "x \<in> set t'" for x
  proof (cases "ob_id x = ob_id r")
    case True
    then have "x = r\<lparr>ob_status := Publishing\<rparr>"
      using x t' by (auto dest!: in_set_row)
    then show ?thesis
      using rok dies_after_publish(4) publish_answer [OF p, of "ob_id r"] b'
      by (auto simp: row_ok_def)
  next
    case False
    then have "x \<in> set t" using x t' by (auto dest!: in_set_row)
    moreover have "log_count (ob_id x) b' = log_count (ob_id x) b"
      using publish_answer [OF p, of "ob_id x"] False rok b' by (auto simp: row_ok_def)
    ultimately show ?thesis using assms(4) row_ok_frame unfolding outbox_ok_def by blast
  qed
  moreover have "map ob_id t' = map ob_id t" unfolding t' by (rule set_row_ids) simp
  ultimately show ?thesis using d by (simp add: outbox_ok_def)
next
  case (link up)
  then have "log_count i b' = log_count i b" for i by (simp add: log_count_def)
  then show ?thesis using assms(4) link row_ok_frame unfolding outbox_ok_def by blast
qed

end
