(* ===== verification/Purchase.thy ===== *)
theory Purchase
  imports Tables Outbox
begin

text \<open>
  \<open>apps/purchase-service/src/purchases\<close>: the request body check of \<open>create-purchase.dto.ts\<close>, the
  controller and \<open>PurchaseService.createPurchase\<close> with its idempotency key. Two requests may interleave:
  what other requests do between the lookup of the key and the transaction is the argument \<open>between\<close>.
  The email check of the validation library is the argument \<open>isEmail\<close>.
\<close>

section \<open>Rows\<close>

record user_row =
  u_id :: string
  u_email :: string
  u_name :: string
  u_bankAccountNumber :: "string option"
  u_bankCode :: "string option"

record purchase_row =
  p_id :: string
  p_userId :: string
  p_amountKobo :: int
  p_idempotencyKey :: "string option"

record purchase_db =
  pd_users :: "user_row list"
  pd_purchases :: "purchase_row list"
  pd_outbox :: outbox
  pd_draws :: nat

record create_purchase_dto =
  d_userId :: string
  d_email :: string
  d_name :: string
  d_bankAccountNumber :: "string field"
  d_bankCode :: "string field"
  d_amountKobo :: int

section \<open>The request body\<close>

definition MAX_AMOUNT_KOBO :: int where "MAX_AMOUNT_KOBO = 10000000000"

definition text_of :: "nat \<Rightarrow> json option \<Rightarrow> string option" where
  "text_of limit v = (case v of Some (JStr s) \<Rightarrow> if s \<noteq> [] \<and> length s \<le> limit then Some s else None | _ \<Rightarrow> None)"

text \<open>An optional string: \<open>undefined\<close> and \<open>null\<close> skip the checks.\<close>

definition digits_field :: "nat \<Rightarrow> nat \<Rightarrow> json option \<Rightarrow> string field option" where
  "digits_field lo hi v =
     (case v of
        None \<Rightarrow> Some Undefined
      | Some JNull \<Rightarrow> Some Null
      | Some (JStr s) \<Rightarrow> if list_all is_digit s \<and> lo \<le> length s \<and> length s \<le> hi then Some (Val s) else None
      | _ \<Rightarrow> None)"

definition int_between :: "int \<Rightarrow> int \<Rightarrow> json option \<Rightarrow> int option" where
  "int_between lo hi v =
     (case v of
        Some (JNum (Fin q)) \<Rightarrow>
          if of_int (floor q) = q \<and> lo \<le> floor q \<and> floor q \<le> hi then Some (floor q) else None
      | _ \<Rightarrow> None)"

definition CreatePurchaseDto :: "(string \<Rightarrow> bool) \<Rightarrow> json \<Rightarrow> create_purchase_dto option" where
  "CreatePurchaseDto isEmail body =
     (case body of
        JObj kvs \<Rightarrow>
          if \<not> list_all (\<lambda>(k, _). k \<in> {''userId'', ''email'', ''name'', ''bankAccountNumber'', ''bankCode'', ''amountKobo''}) kvs
          then None
          else (case (text_of 100 (obj_get kvs ''userId''), obj_get kvs ''email'', text_of 200 (obj_get kvs ''name''),
                      digits_field 10 10 (obj_get kvs ''bankAccountNumber''), digits_field 3 6 (obj_get kvs ''bankCode''),
                      int_between 1 MAX_AMOUNT_KOBO (obj_get kvs ''amountKobo'')) of
                  (Some u, Some (JStr e), Some n, Some ban, Some bc, Some a) \<Rightarrow>
                    if isEmail e \<and> length e \<le> 320
                    then Some \<lparr>d_userId = u, d_email = e, d_name = n, d_bankAccountNumber = ban, d_bankCode = bc, d_amountKobo = a\<rparr>
                    else None
                | _ \<Rightarrow> None)
      | _ \<Rightarrow> None)"

section \<open>The service\<close>

datatype purchase_error = IdempotencyKeyTaken | AmountOutOfRange

definition findByIdempotencyKey :: "string \<Rightarrow> purchase_db \<Rightarrow> purchase_row option" where
  "findByIdempotencyKey k db = find_one (\<lambda>r. p_idempotencyKey r = Some k) (pd_purchases db)"

definition isUniqueViolation :: "purchase_error \<Rightarrow> bool" where
  "isUniqueViolation err \<longleftrightarrow> err = IdempotencyKeyTaken"

definition buildUserSnapshot :: "create_purchase_dto \<Rightarrow> user_snapshot" where
  "buildUserSnapshot dto =
     \<lparr>snap_id = d_userId dto, snap_email = d_email dto, snap_name = d_name dto,
      snap_bankAccountNumber = d_bankAccountNumber dto, snap_bankCode = d_bankCode dto\<rparr>"

definition buildPurchaseCompletedEvent ::
  "create_purchase_dto \<Rightarrow> user_snapshot \<Rightarrow> string \<Rightarrow> string \<Rightarrow> string \<Rightarrow> int \<Rightarrow> bumpa_domain_event" where
  "buildPurchaseCompletedEvent dto snapshot purchaseId corr eid now =
     PurchaseCompletedEvent (createDomainEvent PurchaseCompleted
       \<lparr>pc_userId = d_userId dto, pc_purchaseId = purchaseId, pc_amountKobo = d_amountKobo dto, pc_user = snapshot\<rparr>
       corr eid now)"

text \<open>\<open>save\<close> of an optional column: absent keeps the stored value, \<open>null\<close> clears it.\<close>

definition save_field :: "'a field \<Rightarrow> 'a option \<Rightarrow> 'a option" where
  "save_field f old = (case f of Undefined \<Rightarrow> old | Null \<Rightarrow> None | Val x \<Rightarrow> Some x)"

definition save_user :: "user_snapshot \<Rightarrow> user_row list \<Rightarrow> user_row list" where
  "save_user s t =
     (let old = find_one (\<lambda>r. u_id r = snap_id s) t in
      upsert u_id
        \<lparr>u_id = snap_id s, u_email = snap_email s, u_name = snap_name s,
         u_bankAccountNumber = save_field (snap_bankAccountNumber s) (Option.bind old u_bankAccountNumber),
         u_bankCode = save_field (snap_bankCode s) (Option.bind old u_bankCode)\<rparr> t)"

definition create_transaction ::
  "create_purchase_dto \<Rightarrow> string \<Rightarrow> string option \<Rightarrow> string \<Rightarrow> string \<Rightarrow> int \<Rightarrow> purchase_db \<Rightarrow> purchase_error + purchase_db" where
  "create_transaction dto corr key purchaseId eid now db =
     (let snapshot = buildUserSnapshot dto;
          event = buildPurchaseCompletedEvent dto snapshot purchaseId corr eid now in
      if \<not> is_int4 (d_amountKobo dto) then Inl AmountOutOfRange
      else if key \<noteq> None \<and> exists_row (\<lambda>r. p_idempotencyKey r = key \<and> p_id r \<noteq> purchaseId) (pd_purchases db)
      then Inl IdempotencyKeyTaken
      else Inr (db\<lparr>pd_users := save_user snapshot (pd_users db),
                   pd_purchases := upsert p_id
                     \<lparr>p_id = purchaseId, p_userId = d_userId dto, p_amountKobo = d_amountKobo dto,
                      p_idempotencyKey =
                        (if key = None
                         then Option.bind (find_one (\<lambda>r. p_id r = purchaseId) (pd_purchases db)) p_idempotencyKey
                         else key)\<rparr>
                     (pd_purchases db),
                   pd_outbox := upsert ob_id (outbox_row event now) (pd_outbox db)\<rparr>))"

definition createPurchase ::
  "random_source \<Rightarrow> outbox_options \<Rightarrow> (nat \<Rightarrow> string option) \<Rightarrow> int \<Rightarrow> (purchase_db \<times> bus \<Rightarrow> purchase_db \<times> bus)
     \<Rightarrow> create_purchase_dto \<Rightarrow> string \<Rightarrow> string option \<Rightarrow> purchase_db \<times> bus
     \<Rightarrow> (purchase_error + string) \<times> purchase_db \<times> bus" where
  "createPurchase rnd opts confirm now between dto corr key = (\<lambda>(db, b).
     (case (if truthy key then findByIdempotencyKey (the key) db else None) of
        Some existing \<Rightarrow> (Inr (p_id existing), db, b)
      | None \<Rightarrow>
          (let purchaseId = createReadableId PurchaseId (rnd (pd_draws db));
               eid = createReadableId EventId (rnd (Suc (pd_draws db)));
               (db1, b1) = between (db\<lparr>pd_draws := pd_draws db + 2\<rparr>, b) in
           case create_transaction dto corr key purchaseId eid now db1 of
             Inl err \<Rightarrow>
               (case (if truthy key \<and> isUniqueViolation err then findByIdempotencyKey (the key) db1 else None) of
                  Some existing \<Rightarrow> (Inr (p_id existing), db1, b1)
                | None \<Rightarrow> (Inl err, db1, b1))
           | Inr db2 \<Rightarrow>
               (let (t, b2) = publishMany opts confirm now [eid] (pd_outbox db2, b1)
                in (Inr purchaseId, db2\<lparr>pd_outbox := t\<rparr>, b2)))))"

text \<open>The controller: a request without a correlation identifier gets a fresh one.\<close>

definition create ::
  "random_source \<Rightarrow> outbox_options \<Rightarrow> (nat \<Rightarrow> string option) \<Rightarrow> int \<Rightarrow> (purchase_db \<times> bus \<Rightarrow> purchase_db \<times> bus)
     \<Rightarrow> create_purchase_dto \<Rightarrow> string option \<Rightarrow> string option \<Rightarrow> purchase_db \<times> bus
     \<Rightarrow> (purchase_error + string) \<times> purchase_db \<times> bus" where
  "create rnd opts confirm now between dto reqCorr key = (\<lambda>(db, b).
     if truthy reqCorr then createPurchase rnd opts confirm now between dto (the reqCorr) key (db, b)
     else createPurchase rnd opts confirm now between dto
            (createReadableId EventId (rnd (pd_draws db))) key (db\<lparr>pd_draws := pd_draws db + 1\<rparr>, b))"

section \<open>Lemmas\<close>

lemma find_key_after_save:
  assumes "\<not> list_ex (\<lambda>r. p_idempotencyKey r = Some k \<and> p_id r \<noteq> p_id row) t" and "p_idempotencyKey row = Some k"
  shows "find_one (\<lambda>r. p_idempotencyKey r = Some k) (upsert p_id row t) = Some row"
proof -
  have "list_ex (\<lambda>r. p_idempotencyKey r = Some k) (upsert p_id row t)"
    using assms(2) by (auto simp: list_ex_iff in_upsert)
  then obtain x where x: "find_one (\<lambda>r. p_idempotencyKey r = Some k) (upsert p_id row t) = Some x"
    using find_one_None by fastforce
  then have "x \<in> set (upsert p_id row t)" "p_idempotencyKey x = Some k" using find_one_Some by fastforce+
  then have "x = row" using assms(1) by (auto simp: list_ex_iff in_upsert)
  with x show ?thesis by simp
qed

lemma create_transaction_key:
  assumes "create_transaction dto corr (Some k) pid eid now db = Inr db'"
  shows "\<exists>row. findByIdempotencyKey k db' = Some row \<and> p_id row = pid"
  using assms find_key_after_save [of k _ "pd_purchases db"]
  by (auto simp: create_transaction_def findByIdempotencyKey_def exists_row_def Let_def split: if_splits)

lemma createPurchase_key:
  assumes "createPurchase rnd opts confirm now between dto corr (Some k) s = (Inr pid, db', b')" and "k \<noteq> []"
  shows "\<exists>row. findByIdempotencyKey k db' = Some row \<and> p_id row = pid"
proof -
  obtain db b where s: "s = (db, b)" by fastforce
  have t: "truthy (Some k)" using assms(2) by (simp add: truthy_def)
  show ?thesis
  proof (cases "findByIdempotencyKey k db")
    case None
    let ?pid = "createReadableId PurchaseId (rnd (pd_draws db))" and ?eid = "createReadableId EventId (rnd (Suc (pd_draws db)))"
    obtain db1 b1 where bt: "between (db\<lparr>pd_draws := pd_draws db + 2\<rparr>, b) = (db1, b1)" by fastforce
    show ?thesis
    proof (cases "create_transaction dto corr (Some k) ?pid ?eid now db1")
      case (Inl err)
      with assms(1) None t s bt show ?thesis
        by (auto simp: createPurchase_def Let_def split: option.splits if_splits)
    next
      case (Inr db2)
      with assms(1) None t s bt have "pid = ?pid" "pd_purchases db' = pd_purchases db2"
        by (auto simp: createPurchase_def Let_def split: prod.splits)
      with create_transaction_key [OF Inr] show ?thesis by (simp add: findByIdempotencyKey_def)
    qed
  next
    case (Some row)
    with assms(1) t s show ?thesis by (auto simp: createPurchase_def)
  qed
qed

lemma publish_one_keeps:
  assumes "publishMany opts confirm now [i] (t, b) = (t', b')" and "distinct (map ob_id t)"
  shows "map (\<lambda>r. (ob_id r, ob_payload r)) t' = map (\<lambda>r. (ob_id r, ob_payload r)) t"
proof (cases "\<exists>r \<in> set t. ob_id r = i \<and> ob_status r = OutboxPending \<and> ob_attempts r < maxAttempts opts")
  case True
  then obtain r where r: "r \<in> set t" "ob_id r = i" "ob_status r = OutboxPending" "ob_attempts r < maxAttempts opts"
    by blast
  obtain a b1 where p: "publish confirm (ob_payload r) b = (a, b1)" by fastforce
  have "t' = set_row r (settled opts now a r) t"
    using publishById_pending [OF assms(2) r(1,3,4) p, of now] assms(1) r(2) by simp
  then show ?thesis
    using row_unique [OF assms(2) _ r(1)] by (auto simp: update_where_def)
next
  case False
  then show ?thesis using publishById_other [OF assms(2) False, of confirm now b] assms(1) by simp
qed

section \<open>Properties\<close>

text \<open>
  C16. An idempotency key makes a request repeatable: once a request with a non-empty key has answered
  with a purchase, every later request with that key, whatever its body and whatever runs in between
  its own statements, answers with the same purchase and changes nothing, neither tables nor broker.
  The first answer may itself have come from losing a race on the key.
\<close>

theorem idempotency_key_repeats:
  assumes "createPurchase rnd opts confirm now between dto corr (Some k) s = (Inr pid, db', b')" and "k \<noteq> []"
  shows "createPurchase rnd2 opts2 confirm2 now2 between2 dto2 corr2 (Some k) (db', b') = (Inr pid, db', b')"
  using createPurchase_key [OF assms] assms(2) by (auto simp: createPurchase_def truthy_def)

definition sample_dto :: "int \<Rightarrow> create_purchase_dto" where
  "sample_dto a = \<lparr>d_userId = ''usr_1'', d_email = ''a@b.c'', d_name = ''Ada'', d_bankAccountNumber = Undefined,
     d_bankCode = Undefined, d_amountKobo = a\<rparr>"

definition empty_purchases :: purchase_db where
  "empty_purchases = \<lparr>pd_users = [], pd_purchases = [], pd_outbox = [], pd_draws = 0\<rparr>"

definition quiet_bus :: bus where
  "quiet_bus = \<lparr>bus_open = True, bus_publishes = 0, bus_log = []\<rparr>"

lemmas purchase_samples = sample_dto_def empty_purchases_def

theorem idempotency_key_repeats_witness:
  "\<exists>pid db' b'. createPurchase (\<lambda>n. ''abcdef'') default_outbox_options (\<lambda>_. None) 5 id (sample_dto 500) ''c'' (Some ''key'')
        (empty_purchases, quiet_bus) = (Inr pid, db', b')
     \<and> createPurchase (\<lambda>n. ''ghijkl'') default_outbox_options (\<lambda>_. None) 6 id (sample_dto 900) ''d'' (Some ''key'')
        (db', b') = (Inr pid, db', b')"
proof -
  have "fst (createPurchase (\<lambda>n. ''abcdef'') default_outbox_options (\<lambda>_. None) 5 id (sample_dto 500) ''c''
      (Some ''key'') (empty_purchases, quiet_bus)) = Inr (createReadableId PurchaseId ''abcdef'')"
    by (simp add: createPurchase_def create_transaction_def findByIdempotencyKey_def find_one_def truthy_def is_int4_def
        exists_row_def purchase_samples Let_def split_beta del: publishMany.simps)
  then obtain db' b' where run: "createPurchase (\<lambda>n. ''abcdef'') default_outbox_options (\<lambda>_. None) 5 id (sample_dto 500) ''c''
      (Some ''key'') (empty_purchases, quiet_bus) = (Inr (createReadableId PurchaseId ''abcdef''), db', b')"
    by (metis prod.collapse)
  with idempotency_key_repeats [OF run] show ?thesis by blast
qed

lemma created_rows:
  assumes "\<not> truthy key \<or> findByIdempotencyKey (the key) db = None" and "is_int4 (d_amountKobo dto)"
    and "key = None \<or> \<not> exists_row (\<lambda>r. p_idempotencyKey r = key) (pd_purchases db)"
    and "createReadableId PurchaseId (rnd (pd_draws db)) \<notin> p_id ` set (pd_purchases db)"
    and "createReadableId EventId (rnd (Suc (pd_draws db))) \<notin> ob_id ` set (pd_outbox db)"
    and "distinct (map ob_id (pd_outbox db))"
    and "createPurchase rnd opts confirm now id dto corr key (db, b) = (res, db', b')"
  shows "let pid = createReadableId PurchaseId (rnd (pd_draws db)); eid = createReadableId EventId (rnd (Suc (pd_draws db)))
    in res = Inr pid
      \<and> pd_purchases db' = pd_purchases db @
          [\<lparr>p_id = pid, p_userId = d_userId dto, p_amountKobo = d_amountKobo dto, p_idempotencyKey = key\<rparr>]
      \<and> pd_users db' = save_user (buildUserSnapshot dto) (pd_users db)
      \<and> map (\<lambda>r. (ob_id r, ob_payload r)) (pd_outbox db')
        = map (\<lambda>r. (ob_id r, ob_payload r)) (pd_outbox db) @
          [(eid, buildPurchaseCompletedEvent dto (buildUserSnapshot dto) pid corr eid now)]"
proof -
  let ?pid = "createReadableId PurchaseId (rnd (pd_draws db))" and ?eid = "createReadableId EventId (rnd (Suc (pd_draws db)))"
  let ?db1 = "db\<lparr>pd_draws := pd_draws db + 2\<rparr>"
  let ?event = "buildPurchaseCompletedEvent dto (buildUserSnapshot dto) ?pid corr ?eid now"
  let ?row = "\<lparr>p_id = ?pid, p_userId = d_userId dto, p_amountKobo = d_amountKobo dto, p_idempotencyKey = key\<rparr>"
  have free: "find_one (\<lambda>r. p_id r = ?pid) (pd_purchases db) = None"
    using assms(4) by (auto simp: find_one_None list_ex_key)
  have row: "bumpa_event_id ?event = ?eid" by (simp add: buildPurchaseCompletedEvent_def)
  have found: "(if truthy key then findByIdempotencyKey (the key) db else None) = None" using assms(1) by auto
  have tx: "create_transaction dto corr key ?pid ?eid now ?db1
    = Inr (?db1\<lparr>pd_users := save_user (buildUserSnapshot dto) (pd_users db), pd_purchases := pd_purchases db @ [?row],
                pd_outbox := pd_outbox db @ [outbox_row ?event now]\<rparr>)"
    using assms(2-5) free row
    by (auto simp: create_transaction_def Let_def upsert_fresh outbox_row_def exists_row_def list_ex_iff)
  obtain t b2 where p: "publishMany opts confirm now [?eid] (pd_outbox db @ [outbox_row ?event now], b) = (t, b2)"
    by fastforce
  have "res = Inr ?pid" "pd_users db' = save_user (buildUserSnapshot dto) (pd_users db)"
    "pd_purchases db' = pd_purchases db @ [?row]" "pd_outbox db' = t"
    using assms(7) p tx unfolding createPurchase_def by (auto simp: found Let_def simp del: publishMany.simps)
  moreover have "map (\<lambda>r. (ob_id r, ob_payload r)) t
      = map (\<lambda>r. (ob_id r, ob_payload r)) (pd_outbox db) @ [(?eid, ?event)]"
    using publish_one_keeps [OF p] assms(5,6) row by (simp add: outbox_row_def)
  ultimately show ?thesis by (simp add: Let_def)
qed



text \<open>
  The request check admits amounts up to 10,000,000,000 kobo, but the column holds at most
  2,147,483,647: an accepted request above that bound is answered with a database error and leaves no
  trace in the tables, whatever key it carries unless that key was already used.
\<close>

theorem large_amount_rejected:
  assumes "CreatePurchaseDto isEmail body = Some dto" and "2147483647 < d_amountKobo dto"
    and "\<not> truthy key \<or> findByIdempotencyKey (the key) db = None"
  shows "createPurchase rnd opts confirm now id dto corr key (db, b)
    = (Inl AmountOutOfRange, db\<lparr>pd_draws := pd_draws db + 2\<rparr>, b)
    \<and> d_amountKobo dto \<le> MAX_AMOUNT_KOBO"
proof -
  have "d_amountKobo dto \<le> MAX_AMOUNT_KOBO"
    using assms(1)
    by (auto simp: CreatePurchaseDto_def int_between_def split: json.splits option.splits if_splits jsnum.splits)
  with assms(2,3) show ?thesis
    by (auto simp: createPurchase_def create_transaction_def is_int4_def isUniqueViolation_def Let_def)
qed

theorem large_amount_rejected_witness:
  "createPurchase (\<lambda>n. ''abcdef'') default_outbox_options (\<lambda>_. None) 5 id (sample_dto 3000000000) ''c'' None
      (empty_purchases, quiet_bus) = (Inl AmountOutOfRange, empty_purchases\<lparr>pd_draws := 2\<rparr>, quiet_bus)"
proof -
  have "CreatePurchaseDto (\<lambda>_. True)
      (JObj [(''userId'', JStr ''usr_1''), (''email'', JStr ''a@b.c''), (''name'', JStr ''Ada''), (''amountKobo'', JNum (Fin 3000000000))])
    = Some (sample_dto 3000000000)"
    by (simp add: CreatePurchaseDto_def text_of_def digits_field_def int_between_def MAX_AMOUNT_KOBO_def sample_dto_def)
  from large_amount_rejected [OF this, of None empty_purchases "\<lambda>n. ''abcdef''" default_outbox_options "\<lambda>_. None" 5 "''c''" quiet_bus]
  show ?thesis by (simp add: sample_dto_def truthy_def empty_purchases_def)
qed

end
