(* ===== verification/Rules.thy ===== *)
theory Rules
  imports Js_Prelude
begin

text \<open>
  \<open>apps/loyalty-service/src/rules\<close>: the rule engine (\<open>rule-engine.service.ts\<close>), the shape check of
  the admin API (\<open>rule-shape.validator.ts\<close>) and the rule types (\<open>rule.types.ts\<close>). A stored rule is
  whatever JSON the \<open>jsonb\<close> column holds, so \<open>evaluate\<close> works on \<open>json\<close> with JavaScript's
  coercions and exceptions; \<open>achievement_rule\<close> and \<open>meets\<close> say what a well-shaped rule means.
\<close>

section \<open>The engine\<close>

datatype rule_error = RuleTypeError | UnsupportedRuleType

record rule_context =
  purchaseCount :: int
  totalSpendKobo :: int
  unlockedAchievementIds :: "string set"

text \<open>\<open>actual >= expected\<close> where \<open>expected\<close> is any JSON value or \<open>undefined\<close> (NaN).\<close>

definition js_ge :: "int \<Rightarrow> json option \<Rightarrow> rule_error + bool" where
  "js_ge actual expected =
     (case expected of
        None \<Rightarrow> Inr False
      | Some j \<Rightarrow> (case to_number j of
                    None \<Rightarrow> Inl RuleTypeError
                  | Some n \<Rightarrow> Inr (jsnum_ge (Fin (of_int actual)) n)))"

definition compare :: "int \<Rightarrow> json option \<Rightarrow> json option \<Rightarrow> rule_error + bool" where
  "compare actual expected operator =
     (if operator = Some (JStr ''GTE'') then js_ge actual expected else Inr False)"

definition has_id :: "string set \<Rightarrow> json \<Rightarrow> bool" where
  "has_id ids j = (case j of JStr s \<Rightarrow> s \<in> ids | _ \<Rightarrow> False)"

definition evaluate_set :: "json \<Rightarrow> rule_context \<Rightarrow> rule_error + bool" where
  "evaluate_set rule ctx =
     (case json_get rule ''achievementIds'' of
        Some (JArr ids) \<Rightarrow>
          (let count = int (length (filter (has_id (unlockedAchievementIds ctx)) ids))
           in (case json_get rule ''minRequired'' of
                 None \<Rightarrow> Inr (int (length ids) \<le> count)
               | Some JNull \<Rightarrow> Inr (int (length ids) \<le> count)
               | Some j \<Rightarrow> js_ge count (Some j)))
      | _ \<Rightarrow> Inl RuleTypeError)"

lemma obj_get_size: "obj_get kvs k = Some v \<Longrightarrow> size v < size (JObj kvs)"
  by (induction kvs k rule: obj_get.induct) (auto split: if_splits)

lemma json_get_size: "json_get j k = Some v \<Longrightarrow> size v < size j"
  using obj_get_size by (cases "(j, k)" rule: json_get.cases) auto

function evaluate :: "json \<Rightarrow> rule_context \<Rightarrow> rule_error + bool"
  and evaluate_every :: "json list \<Rightarrow> rule_context \<Rightarrow> rule_error + bool" where
  "evaluate rule ctx =
     (if rule = JNull then Inl RuleTypeError
      else if json_get rule ''type'' = Some (JStr ''COUNT'')
      then compare (purchaseCount ctx) (json_get rule ''value'') (json_get rule ''operator'')
      else if json_get rule ''type'' = Some (JStr ''SUM'')
      then compare (totalSpendKobo ctx) (json_get rule ''value'') (json_get rule ''operator'')
      else if json_get rule ''type'' = Some (JStr ''ACHIEVEMENT_SET'') then evaluate_set rule ctx
      else if json_get rule ''type'' = Some (JStr ''COMBINATION'')
      then (case json_get rule ''rules'' of
              Some (JArr rules) \<Rightarrow> evaluate_every rules ctx
            | _ \<Rightarrow> Inl RuleTypeError)
      else Inl UnsupportedRuleType)"
| "evaluate_every [] ctx = Inr True"
| "evaluate_every (rule # rules) ctx =
     (case evaluate rule ctx of
        Inl e \<Rightarrow> Inl e
      | Inr unlocked \<Rightarrow> if unlocked then evaluate_every rules ctx else Inr False)"
  by pat_completeness auto
termination
  by (relation "measure (\<lambda>x. case x of Inl (r, _) \<Rightarrow> size r | Inr (rs, _) \<Rightarrow> size_list size rs)")
    (auto dest!: json_get_size)

declare evaluate.simps [simp del]

section \<open>The shape check\<close>

definition is_threshold :: "json option \<Rightarrow> bool" where
  "is_threshold v = (case v of Some (JNum n) \<Rightarrow> js_isFinite n \<and> jsnum_ge n (Fin 0) | _ \<Rightarrow> False)"

definition is_string :: "json \<Rightarrow> bool" where
  "is_string j = (case j of JStr _ \<Rightarrow> True | _ \<Rightarrow> False)"

function isValidAchievementRuleShape :: "json \<Rightarrow> bool"
  and all_valid_shapes :: "json list \<Rightarrow> bool" where
  "isValidAchievementRuleShape rule =
     (if json_get rule ''type'' = Some (JStr ''COUNT'')
      then json_get rule ''field'' = Some (JStr ''purchase_count'')
           \<and> json_get rule ''operator'' = Some (JStr ''GTE'') \<and> is_threshold (json_get rule ''value'')
      else if json_get rule ''type'' = Some (JStr ''SUM'')
      then json_get rule ''field'' = Some (JStr ''total_spend_kobo'')
           \<and> json_get rule ''operator'' = Some (JStr ''GTE'') \<and> is_threshold (json_get rule ''value'')
      else if json_get rule ''type'' = Some (JStr ''COMBINATION'')
      then json_get rule ''operator'' = Some (JStr ''AND'') \<and>
           (case json_get rule ''rules'' of
              Some (JArr rules) \<Rightarrow> rules \<noteq> [] \<and> all_valid_shapes rules
            | _ \<Rightarrow> False)
      else if json_get rule ''type'' = Some (JStr ''ACHIEVEMENT_SET'')
      then (case json_get rule ''achievementIds'' of
              Some (JArr ids) \<Rightarrow> ids \<noteq> [] \<and> list_all is_string ids
            | _ \<Rightarrow> False) \<and>
           (case json_get rule ''minRequired'' of
              None \<Rightarrow> True
            | Some (JNum n) \<Rightarrow> js_isFinite n
            | _ \<Rightarrow> False)
      else False)"
| "all_valid_shapes [] = True"
| "all_valid_shapes (rule # rules) = (isValidAchievementRuleShape rule \<and> all_valid_shapes rules)"
  by pat_completeness auto
termination
  by (relation "measure (\<lambda>x. case x of Inl r \<Rightarrow> size r | Inr rs \<Rightarrow> size_list size rs)")
    (auto dest!: json_get_size)

declare isValidAchievementRuleShape.simps [simp del]

section \<open>What a rule means\<close>

text \<open>The rule types of \<open>rule.types.ts\<close>; thresholds are finite numbers.\<close>

datatype achievement_rule =
    CountRule rat
  | SumRule rat
  | CombinationRule "achievement_rule list"
  | AchievementSetRule "string list" "rat option"

fun meets :: "achievement_rule \<Rightarrow> rule_context \<Rightarrow> bool" where
  "meets (CountRule v) ctx = (v \<le> of_int (purchaseCount ctx))"
| "meets (SumRule v) ctx = (v \<le> of_int (totalSpendKobo ctx))"
| "meets (CombinationRule rs) ctx = list_all (\<lambda>r. meets r ctx) rs"
| "meets (AchievementSetRule ids mn) ctx =
     (let have = length (filter (\<lambda>i. i \<in> unlockedAchievementIds ctx) ids)
      in case mn of None \<Rightarrow> have = length ids | Some m \<Rightarrow> m \<le> of_nat have)"

text \<open>The JSON text of a rule, as the admin API receives and stores it.\<close>

fun rule_json :: "achievement_rule \<Rightarrow> json" where
  "rule_json (CountRule v) = JObj [(''type'', JStr ''COUNT''), (''field'', JStr ''purchase_count''),
     (''operator'', JStr ''GTE''), (''value'', JNum (Fin v))]"
| "rule_json (SumRule v) = JObj [(''type'', JStr ''SUM''), (''field'', JStr ''total_spend_kobo''),
     (''operator'', JStr ''GTE''), (''value'', JNum (Fin v))]"
| "rule_json (CombinationRule rs) = JObj [(''type'', JStr ''COMBINATION''), (''operator'', JStr ''AND''),
     (''rules'', JArr (map rule_json rs))]"
| "rule_json (AchievementSetRule ids mn) = JObj ([(''type'', JStr ''ACHIEVEMENT_SET''),
     (''achievementIds'', JArr (map JStr ids))] @
     (case mn of None \<Rightarrow> [] | Some m \<Rightarrow> [(''minRequired'', JNum (Fin m))]))"

text \<open>Reading a rule back from its JSON; \<open>None\<close> when the value is not a rule of \<open>rule.types.ts\<close>.\<close>

definition threshold_of :: "json option \<Rightarrow> rat option" where
  "threshold_of v = (case v of Some (JNum (Fin q)) \<Rightarrow> if 0 \<le> q then Some q else None | _ \<Rightarrow> None)"

fun strings_of :: "json list \<Rightarrow> string list option" where
  "strings_of [] = Some []"
| "strings_of (JStr s # js) = map_option (Cons s) (strings_of js)"
| "strings_of (_ # js) = None"

definition min_required_of :: "json option \<Rightarrow> rat option option" where
  "min_required_of v = (case v of None \<Rightarrow> Some None | Some (JNum (Fin q)) \<Rightarrow> Some (Some q) | _ \<Rightarrow> None)"

function rule_of :: "json \<Rightarrow> achievement_rule option"
  and rules_of :: "json list \<Rightarrow> achievement_rule list option" where
  "rule_of j =
     (case json_get j ''type'' of
        Some (JStr ty) \<Rightarrow>
          if ty = ''COUNT'' \<and> json_get j ''field'' = Some (JStr ''purchase_count'') \<and> json_get j ''operator'' = Some (JStr ''GTE'')
          then map_option CountRule (threshold_of (json_get j ''value''))
          else if ty = ''SUM'' \<and> json_get j ''field'' = Some (JStr ''total_spend_kobo'') \<and> json_get j ''operator'' = Some (JStr ''GTE'')
          then map_option SumRule (threshold_of (json_get j ''value''))
          else if ty = ''COMBINATION'' \<and> json_get j ''operator'' = Some (JStr ''AND'')
          then (case json_get j ''rules'' of
                  Some (JArr (r # rs)) \<Rightarrow> map_option CombinationRule (rules_of (r # rs))
                | _ \<Rightarrow> None)
          else if ty = ''ACHIEVEMENT_SET''
          then (case json_get j ''achievementIds'' of
                  Some (JArr (i # is)) \<Rightarrow>
                    Option.bind (strings_of (i # is)) (\<lambda>ids.
                      map_option (AchievementSetRule ids) (min_required_of (json_get j ''minRequired'')))
                | _ \<Rightarrow> None)
          else None
      | _ \<Rightarrow> None)"
| "rules_of [] = Some []"
| "rules_of (j # js) = Option.bind (rule_of j) (\<lambda>r. map_option (Cons r) (rules_of js))"
  by pat_completeness auto
termination
  by (relation "measure (\<lambda>x. case x of Inl r \<Rightarrow> size r | Inr rs \<Rightarrow> size_list size rs)")
    (auto dest!: json_get_size)

declare rule_of.simps [simp del]

fun wf_rule :: "achievement_rule \<Rightarrow> bool" where
  "wf_rule (CountRule v) = (0 \<le> v)"
| "wf_rule (SumRule v) = (0 \<le> v)"
| "wf_rule (CombinationRule rs) = (rs \<noteq> [] \<and> list_all wf_rule rs)"
| "wf_rule (AchievementSetRule ids mn) = (ids \<noteq> [])"

section \<open>Lemmas\<close>

lemma threshold_of_iff: "is_threshold v \<longleftrightarrow> threshold_of v \<noteq> None"
  by (auto simp: is_threshold_def threshold_of_def js_isFinite_def
      split: option.splits json.splits jsnum.splits)

lemma js_ge_threshold: "threshold_of v = Some q \<Longrightarrow> js_ge n v = Inr (q \<le> of_int n)"
  by (auto simp: threshold_of_def js_ge_def to_number_def
      split: option.splits json.splits jsnum.splits if_splits)

lemma strings_of_iff: "list_all is_string js \<longleftrightarrow> strings_of js \<noteq> None"
  by (induction js rule: strings_of.induct) (auto simp: is_string_def)

lemma strings_of_eq: "strings_of js = Some ids \<longleftrightarrow> js = map JStr ids"
  by (induction js arbitrary: ids rule: strings_of.induct) (auto simp: Cons_eq_map_conv)

lemma strings_of_map [simp]: "strings_of (map JStr ids) = Some ids"
  by (simp add: strings_of_eq)

lemma has_id_JStr: "has_id S \<circ> JStr = (\<lambda>i. i \<in> S)"
  by (simp add: has_id_def fun_eq_iff)

lemma evaluate_set_of:
  assumes "json_get j ''achievementIds'' = Some (JArr (map JStr ids))"
    and "min_required_of (json_get j ''minRequired'') = Some mn"
  shows "evaluate_set j ctx = Inr (meets (AchievementSetRule ids mn) ctx)"
proof -
  have "length (filter P ids) = length ids \<longleftrightarrow> length ids \<le> length (filter P ids)" for P
    using length_filter_le [of P ids] by linarith
  then show ?thesis
    using assms
    by (auto simp: evaluate_set_def min_required_of_def filter_map has_id_JStr js_ge_def to_number_def
        split: option.splits json.splits jsnum.splits)
qed

lemma valid_shape_rule_of:
  "isValidAchievementRuleShape j \<longleftrightarrow> rule_of j \<noteq> None"
  "all_valid_shapes js \<longleftrightarrow> rules_of js \<noteq> None"
proof (induction j and js rule: isValidAchievementRuleShape_all_valid_shapes.induct)
  case (1 j)
  have mn: "(case json_get j ''minRequired'' of None \<Rightarrow> True | Some (JNum n) \<Rightarrow> js_isFinite n | _ \<Rightarrow> False)
      \<longleftrightarrow> min_required_of (json_get j ''minRequired'') \<noteq> None"
    by (auto simp: min_required_of_def js_isFinite_def split: option.splits json.splits jsnum.splits)
  consider "json_get j ''type'' = Some (JStr ''COUNT'')" | "json_get j ''type'' = Some (JStr ''SUM'')"
    | "json_get j ''type'' = Some (JStr ''COMBINATION'')" | "json_get j ''type'' = Some (JStr ''ACHIEVEMENT_SET'')"
    | "\<forall>ty \<in> {''COUNT'', ''SUM'', ''COMBINATION'', ''ACHIEVEMENT_SET''}. json_get j ''type'' \<noteq> Some (JStr ty)"
    by auto
  then show ?case
  proof cases
    case 3
    then show ?thesis
      using 1 by (auto simp: isValidAchievementRuleShape.simps [of j] rule_of.simps [of j] neq_Nil_conv
          simp del: rules_of.simps split: option.splits json.splits list.splits)
  next
    case 4
    then show ?thesis
      unfolding isValidAchievementRuleShape.simps [of j] rule_of.simps [of j] mn
      by (auto simp: strings_of_iff neq_Nil_conv simp del: strings_of.simps list.pred_inject
          split: option.splits json.splits list.splits Option.bind_splits)
  next
    case 5
    then show ?thesis
      by (auto simp: isValidAchievementRuleShape.simps [of j] rule_of.simps [of j]
          split: option.splits json.splits)
  qed (auto simp: isValidAchievementRuleShape.simps [of j] rule_of.simps [of j] threshold_of_iff)
qed (auto split: Option.bind_splits)

lemma rule_of_cases [consumes 1, case_names Count Sum Combination Set]:
  assumes "rule_of j = Some r"
  obtains
    v where "json_get j ''type'' = Some (JStr ''COUNT'')" "json_get j ''operator'' = Some (JStr ''GTE'')"
      "threshold_of (json_get j ''value'') = Some v" "r = CountRule v"
  | v where "json_get j ''type'' = Some (JStr ''SUM'')" "json_get j ''operator'' = Some (JStr ''GTE'')"
      "threshold_of (json_get j ''value'') = Some v" "r = SumRule v"
  | js rs where "json_get j ''type'' = Some (JStr ''COMBINATION'')" "json_get j ''rules'' = Some (JArr js)"
      "rules_of js = Some rs" "r = CombinationRule rs"
  | ids mn where "json_get j ''type'' = Some (JStr ''ACHIEVEMENT_SET'')"
      "json_get j ''achievementIds'' = Some (JArr (map JStr ids))"
      "min_required_of (json_get j ''minRequired'') = Some mn" "r = AchievementSetRule ids mn"
proof -
  obtain ty where ty: "json_get j ''type'' = Some (JStr ty)"
    using assms unfolding rule_of.simps [of j] by (simp split: option.splits json.splits)
  note eq = assms [unfolded rule_of.simps [of j] ty option.case json.case]
  consider "ty = ''COUNT''" | "ty = ''SUM''" | "ty = ''COMBINATION''" | "ty = ''ACHIEVEMENT_SET''"
    using eq by (simp split: if_splits)
  then show thesis
  proof cases
    case 1
    with eq ty that(1) show thesis by (auto split: if_splits)
  next
    case 2
    with eq ty that(2) show thesis by (auto split: if_splits)
  next
    case 3
    with eq obtain js where js: "json_get j ''rules'' = Some (JArr js)"
      by (simp split: if_splits option.splits json.splits)
    with 3 eq ty that(3) show thesis
      by (auto simp del: rules_of.simps split: if_splits list.splits)
  next
    case 4
    with eq obtain js where js: "json_get j ''achievementIds'' = Some (JArr js)"
      by (simp split: if_splits option.splits json.splits)
    with 4 eq obtain ids where "strings_of js = Some ids"
      by (auto simp: bind_eq_Some_conv simp del: strings_of.simps split: list.splits)
    moreover from this 4 eq js obtain mn where "min_required_of (json_get j ''minRequired'') = Some mn"
      "r = AchievementSetRule ids mn"
      by (auto simp: bind_eq_Some_conv simp del: strings_of.simps split: list.splits)
    ultimately show thesis using js 4 ty that(4) by (simp add: strings_of_eq)
  qed
qed

lemma evaluate_rule_of:
  "rule_of j = Some r \<Longrightarrow> evaluate j ctx = Inr (meets r ctx)"
  "rules_of js = Some rs \<Longrightarrow> evaluate_every js ctx = Inr (list_all (\<lambda>r. meets r ctx) rs)"
proof (induction j ctx and js ctx arbitrary: r and rs rule: evaluate_evaluate_every.induct)
  case (1 j ctx)
  from 1(2) have nn: "j \<noteq> JNull" by (auto simp: rule_of.simps)
  from 1(2) show ?case
  proof (cases rule: rule_of_cases)
    case (Combination js rs)
    with 1(1) nn show ?thesis by (simp add: evaluate.simps [of j])
  next
    case (Set ids mn)
    with nn show ?thesis by (simp add: evaluate.simps [of j] evaluate_set_of)
  qed (simp_all add: nn evaluate.simps [of j] compare_def js_ge_threshold)
qed (auto split: Option.bind_splits)

definition context_le :: "rule_context \<Rightarrow> rule_context \<Rightarrow> bool" where
  "context_le c c' \<longleftrightarrow> purchaseCount c \<le> purchaseCount c' \<and> totalSpendKobo c \<le> totalSpendKobo c'
     \<and> unlockedAchievementIds c \<subseteq> unlockedAchievementIds c'"

lemma jsnum_ge_mono: "jsnum_ge (Fin a) x \<Longrightarrow> a \<le> b \<Longrightarrow> jsnum_ge (Fin b) x"
  by (cases x) auto

lemma js_ge_stable:
  assumes "js_ge n v \<noteq> Inr False" and "n \<le> n'"
  shows "js_ge n' v = js_ge n v"
proof (cases "Option.bind v to_number")
  case None
  then show ?thesis by (cases v) (simp_all add: js_ge_def)
next
  case (Some x)
  then have "js_ge m v = Inr (jsnum_ge (Fin (of_int m)) x)" for m
    by (cases v) (simp_all add: js_ge_def)
  with assms show ?thesis using jsnum_ge_mono [of "of_int n" x "of_int n'"] by simp
qed

lemma compare_stable: "compare n v op \<noteq> Inr False \<Longrightarrow> n \<le> n' \<Longrightarrow> compare n' v op = compare n v op"
  by (cases "op = Some (JStr ''GTE'')") (simp_all add: compare_def, rule js_ge_stable)

lemma count_mono: "S \<subseteq> S' \<Longrightarrow> length (filter (has_id S) js) \<le> length (filter (has_id S') js)"
  by (induction js) (auto simp: has_id_def split: json.splits)

lemma evaluate_set_stable:
  assumes "evaluate_set j c \<noteq> Inr False" and "unlockedAchievementIds c \<subseteq> unlockedAchievementIds c'"
  shows "evaluate_set j c' = evaluate_set j c"
proof (cases "\<exists>ids. json_get j ''achievementIds'' = Some (JArr ids)")
  case True
  then obtain ids where ids: "json_get j ''achievementIds'' = Some (JArr ids)" by blast
  let ?n = "\<lambda>c. int (length (filter (has_id (unlockedAchievementIds c)) ids))"
  have le: "?n c \<le> ?n c'" using count_mono [OF assms(2)] by simp
  show ?thesis
  proof (cases "json_get j ''minRequired'' \<in> {None, Some JNull}")
    case True
    then have "evaluate_set j d = Inr (int (length ids) \<le> ?n d)" for d
      using ids by (auto simp: evaluate_set_def)
    with assms(1) le show ?thesis by simp
  next
    case False
    then have "evaluate_set j d = js_ge (?n d) (json_get j ''minRequired'')" for d
      using ids by (auto simp: evaluate_set_def Let_def split: option.splits json.splits)
    with assms(1) js_ge_stable [OF _ le] show ?thesis by metis
  qed
next
  case False
  then show ?thesis by (auto simp: evaluate_set_def split: option.splits json.splits)
qed

text \<open>
  Growing counters and unlocks can only turn "not yet" into something else: an outcome other than
  false, an exception included, stays.
\<close>

lemma evaluate_stable:
  "context_le c c' \<Longrightarrow> evaluate j c \<noteq> Inr False \<Longrightarrow> evaluate j c' = evaluate j c"
  "context_le c c' \<Longrightarrow> evaluate_every js c \<noteq> Inr False \<Longrightarrow> evaluate_every js c' = evaluate_every js c"
proof (induction j c and js c rule: evaluate_evaluate_every.induct)
  case (1 j c)
  have le: "purchaseCount c \<le> purchaseCount c'" "totalSpendKobo c \<le> totalSpendKobo c'"
    "unlockedAchievementIds c \<subseteq> unlockedAchievementIds c'"
    using 1(2) by (simp_all add: context_le_def)
  consider "j = JNull" | "json_get j ''type'' = Some (JStr ''COUNT'')" | "json_get j ''type'' = Some (JStr ''SUM'')"
    | "json_get j ''type'' = Some (JStr ''ACHIEVEMENT_SET'')" | "json_get j ''type'' = Some (JStr ''COMBINATION'')"
    | "j \<noteq> JNull" "\<forall>ty \<in> {''COUNT'', ''SUM'', ''ACHIEVEMENT_SET'', ''COMBINATION''}. json_get j ''type'' \<noteq> Some (JStr ty)"
    by auto
  then show ?case
  proof cases
    case 5
    then have nn: "j \<noteq> JNull" by auto
    show ?thesis
    proof (cases "\<exists>js. json_get j ''rules'' = Some (JArr js)")
      case True
      with 1 5 nn show ?thesis by (auto simp: evaluate.simps [of j])
    next
      case False
      with 5 nn show ?thesis
        by (auto simp: evaluate.simps [of j] split: option.splits json.splits)
    qed
  next
    case 2
    then have "evaluate j d = compare (purchaseCount d) (json_get j ''value'') (json_get j ''operator'')" for d
      by (auto simp: evaluate.simps [of j])
    with 1(3) compare_stable [OF _ le(1)] show ?thesis by metis
  next
    case 3
    then have "evaluate j d = compare (totalSpendKobo d) (json_get j ''value'') (json_get j ''operator'')" for d
      by (auto simp: evaluate.simps [of j])
    with 1(3) compare_stable [OF _ le(2)] show ?thesis by metis
  next
    case 4
    then have "evaluate j d = evaluate_set j d" for d by (auto simp: evaluate.simps [of j])
    with 1(3) evaluate_set_stable [OF _ le(3)] show ?thesis by metis
  qed (simp_all add: evaluate.simps)
next
  case (3 j js c)
  then show ?case by (cases "evaluate j c") (auto split: if_splits)
qed simp

lemma rule_of_json: "wf_rule r \<Longrightarrow> rule_of (rule_json r) = Some r"
proof (induction r)
  case (CombinationRule rs)
  have "list_all wf_rule xs \<Longrightarrow> set xs \<subseteq> set rs \<Longrightarrow> rules_of (map rule_json xs) = Some xs" for xs
    using CombinationRule.IH by (induction xs) auto
  then have "rules_of (map rule_json rs) = Some rs" using CombinationRule.prems by simp
  with CombinationRule.prems show ?case by (cases rs) (auto simp: rule_of.simps)
next
  case (AchievementSetRule ids mn)
  then show ?case
    using strings_of_map [of ids]
    by (cases ids; cases mn) (auto simp: rule_of.simps min_required_of_def simp del: strings_of_map)
qed (simp_all add: rule_of.simps threshold_of_def)

section \<open>Properties\<close>

text \<open>
  C21. The shape check accepts exactly the JSON values that denote a rule of \<open>rule.types.ts\<close>, and on
  those the engine never throws: it answers what the rule means, whatever the user's counters and
  unlocked achievements. No rule the admin API accepts can be skipped as broken.
\<close>

theorem valid_rule_evaluates:
  "isValidAchievementRuleShape j \<longleftrightarrow> (\<exists>r. rule_of j = Some r \<and> (\<forall>ctx. evaluate j ctx = Inr (meets r ctx)))"
  using valid_shape_rule_of(1) [of j] evaluate_rule_of(1) [of j] by auto



text \<open>
  Progress is never taken back: for any stored JSON, valid or not, when counters and unlocked
  achievements only grow, an achievement that was earned stays earned, and a rule that threw keeps
  throwing the same error.
\<close>

theorem evaluate_monotone:
  assumes "context_le c c'" and "evaluate j c = Inr True \<or> evaluate j c = Inl e"
  shows "evaluate j c' = evaluate j c"
  using evaluate_stable(1) [OF assms(1), of j] assms(2) by auto

theorem evaluate_monotone_witness:
  "evaluate (JObj [(''type'', JStr ''SUM''), (''operator'', JStr ''GTE''), (''value'', JNum (Fin 100))])
     \<lparr>purchaseCount = 1, totalSpendKobo = 200, unlockedAchievementIds = {}\<rparr> = Inr True"
proof -
  let ?j = "JObj [(''type'', JStr ''SUM''), (''operator'', JStr ''GTE''), (''value'', JNum (Fin 100))]"
  have "evaluate ?j \<lparr>purchaseCount = 1, totalSpendKobo = 150, unlockedAchievementIds = {}\<rparr> = Inr True"
    by (simp add: evaluate.simps compare_def js_ge_def to_number_def)
  then show ?thesis
    using evaluate_monotone [of "\<lparr>purchaseCount = 1, totalSpendKobo = 150, unlockedAchievementIds = {}\<rparr>"
        "\<lparr>purchaseCount = 1, totalSpendKobo = 200, unlockedAchievementIds = {}\<rparr>" ?j]
    by (simp add: context_le_def)
qed

end
