(* ===== verification/Loyalty_Schema.thy ===== *)
theory Loyalty_Schema
  imports Tables Outbox Rules
begin

text \<open>
  \<open>apps/loyalty-service/src/entities\<close>: the rows of the loyalty database and the database as a whole.
  The columns \<open>createdAt\<close>/\<open>updatedAt\<close> of the configuration tables are never read and are left out;
  \<open>unlockedAt\<close> orders a user's unlocks and is kept. \<open>ld_draws\<close> counts the random identifiers the
  process has drawn.

  The server chooses how \<open>ORDER BY\<close> arranges rows that agree on the named columns, and how text
  compares; \<open>loyalty_orders\<close> bundles the orderings the queries use, with what SQL promises of them.
\<close>

record achievement_config =
  ac_id :: string
  ac_name :: string
  ac_description :: string
  ac_groupKey :: string
  ac_sortOrder :: int
  ac_rule :: json
  ac_imageUrl :: "string option"
  ac_active :: bool

record achievement_group =
  ag_key :: string
  ag_name :: string
  ag_sortOrder :: int

record badge_config =
  bc_id :: string
  bc_name :: string
  bc_description :: string
  bc_sortOrder :: int
  bc_requiredAchievementCount :: int
  bc_requiredAchievementIds :: "string list"
  bc_rewardAmountKobo :: int
  bc_rewardCurrency :: string
  bc_imageUrl :: "string option"
  bc_active :: bool

record user_achievement =
  ua_id :: string
  ua_userId :: string
  ua_achievementId :: string
  ua_unlockedAt :: int

record user_badge =
  ub_id :: string
  ub_userId :: string
  ub_badgeId :: string
  ub_unlockedAt :: int

record user_projection =
  up_id :: string
  up_email :: string
  up_name :: string
  up_bankAccountNumber :: "string option"
  up_bankCode :: "string option"

record user_stats =
  st_userId :: string
  st_purchaseCount :: int
  st_totalSpendKobo :: int

record processed_event =
  pe_eventId :: string
  pe_consumer :: service_name

record loyalty_db =
  ld_groups :: "achievement_group list"
  ld_achievements :: "achievement_config list"
  ld_badges :: "badge_config list"
  ld_projections :: "user_projection list"
  ld_stats :: "user_stats list"
  ld_user_achievements :: "user_achievement list"
  ld_user_badges :: "user_badge list"
  ld_processed :: "processed_event list"
  ld_outbox :: outbox
  ld_draws :: nat

record loyalty_orders =
  by_group :: "achievement_config list \<Rightarrow> achievement_config list"
  by_badge_sort :: "badge_config list \<Rightarrow> badge_config list"
  by_unlock_time :: "user_achievement list \<Rightarrow> user_achievement list"
  by_badge_time :: "user_badge list \<Rightarrow> user_badge list"

definition sql_orders :: "loyalty_orders \<Rightarrow> bool" where
  "sql_orders od \<longleftrightarrow>
     orders (\<lambda>a b. ac_groupKey a = ac_groupKey b \<longrightarrow> ac_sortOrder a \<le> ac_sortOrder b) (by_group od) \<and>
     orders (\<lambda>a b. bc_sortOrder a \<le> bc_sortOrder b) (by_badge_sort od) \<and>
     orders (\<lambda>a b. ua_unlockedAt a \<le> ua_unlockedAt b) (by_unlock_time od) \<and>
     orders (\<lambda>a b. ub_unlockedAt a \<le> ub_unlockedAt b) (by_badge_time od)"

definition active_achievements :: "loyalty_db \<Rightarrow> achievement_config list" where
  "active_achievements db = filter ac_active (ld_achievements db)"

definition active_badges :: "loyalty_db \<Rightarrow> badge_config list" where
  "active_badges db = filter bc_active (ld_badges db)"

definition achievements_of :: "string \<Rightarrow> loyalty_db \<Rightarrow> user_achievement list" where
  "achievements_of u db = filter (\<lambda>r. ua_userId r = u) (ld_user_achievements db)"

definition badges_of :: "string \<Rightarrow> loyalty_db \<Rightarrow> user_badge list" where
  "badges_of u db = filter (\<lambda>r. ub_userId r = u) (ld_user_badges db)"

lemma sql_ordersD:
  assumes "sql_orders od"
  shows "orders (\<lambda>a b. ac_groupKey a = ac_groupKey b \<longrightarrow> ac_sortOrder a \<le> ac_sortOrder b) (by_group od)"
    and "orders (\<lambda>a b. bc_sortOrder a \<le> bc_sortOrder b) (by_badge_sort od)"
    and "orders (\<lambda>a b. ua_unlockedAt a \<le> ua_unlockedAt b) (by_unlock_time od)"
    and "orders (\<lambda>a b. ub_unlockedAt a \<le> ub_unlockedAt b) (by_badge_time od)"
  using assms by (simp_all add: sql_orders_def)

lemmas sql_orders_set = sql_ordersD [THEN orders_set]
lemmas sql_orders_distinct = sql_ordersD [THEN orders_distinct]
lemmas sql_orders_length = sql_ordersD [THEN orders_length]

end
