(* ===== verification/Pagination.thy ===== *)
theory Pagination
  imports Tables
begin

text \<open>
  Paged lists, as \<open>findAndCount\<close> with \<open>skip\<close>/\<open>take\<close> and the \<open>meta\<close> block of the list endpoints compute them
  (\<open>cashback.service.ts\<close>, \<open>admin-config.service.ts\<close>), and the \<open>ILIKE\<close> operator of their searches.
\<close>

record page_meta =
  pm_page :: nat
  pm_limit :: nat
  pm_total :: nat
  pm_totalPages :: nat

definition total_pages :: "nat \<Rightarrow> nat \<Rightarrow> nat" where
  "total_pages n limit = max 1 ((n + limit - 1) div limit)"

definition paginate :: "nat option \<Rightarrow> nat option \<Rightarrow> 'r list \<Rightarrow> 'r list \<times> page_meta" where
  "paginate page limit rows =
     (let p = (case page of Some n \<Rightarrow> n | None \<Rightarrow> 1); l = (case limit of Some n \<Rightarrow> n | None \<Rightarrow> 20) in
      (skip_take ((p - 1) * l) l rows,
       \<lparr>pm_page = p, pm_limit = l, pm_total = length rows, pm_totalPages = total_pages (length rows) l\<rparr>))"

text \<open>SQL \<open>LIKE\<close>: percent matches any run of characters, underscore one character, backslash escapes.\<close>

fun like :: "string \<Rightarrow> string \<Rightarrow> bool" where
  "like [] s = (s = [])"
| "like (p # ps) [] =
     (if p = CHR ''%'' then like ps [] else False)"
| "like (p # ps) (c # s) =
     (if p = CHR ''%'' then like ps (c # s) \<or> like (p # ps) s
      else if p = CHR ''_'' then like ps s
      else if p = CHR 0x5C then (case ps of q # qs \<Rightarrow> q = c \<and> like qs s | [] \<Rightarrow> False)
      else p = c \<and> like ps s)"

definition ilike :: "string \<Rightarrow> string \<Rightarrow> bool" where
  "ilike search s \<longleftrightarrow> like (toLowerCase (''%'' @ search @ ''%'')) (toLowerCase s)"

lemma pages_cover:
  "concat (map (\<lambda>p. skip_take (p * l) l rows) [0..<n]) = take (n * l) rows"
proof (induction n)
  case (Suc n)
  have "take (Suc n * l) rows = take (n * l + l) rows" by (simp add: add.commute)
  then show ?case using Suc by (simp add: skip_take_def take_add del: mult_Suc)
qed simp

lemma total_pages_enough:
  assumes "0 < l"
  shows "n \<le> total_pages n l * l"
proof -
  let ?m = "n + l - 1"
  have "?m div l * l + ?m mod l = ?m" by simp
  moreover have "?m mod l < l" using assms by simp
  ultimately have "n \<le> ?m div l * l" by linarith
  also have "\<dots> \<le> total_pages n l * l" by (simp add: total_pages_def)
  finally show ?thesis .
qed

lemma pages_concat:
  assumes "0 < l"
  shows "concat (map (\<lambda>p. fst (paginate (Some p) (Some l) rows)) [1..<Suc (total_pages (length rows) l)]) = rows"
proof -
  have "[1..<Suc n] = map Suc [0..<n]" for n by (simp add: map_Suc_upt)
  then have "concat (map (\<lambda>p. fst (paginate (Some p) (Some l) rows)) [1..<Suc n])
      = concat (map (\<lambda>p. skip_take (p * l) l rows) [0..<n])" for n
    by (simp add: paginate_def comp_def)
  then show ?thesis
    using total_pages_enough [OF assms, of "length rows"] by (simp add: pages_cover)
qed

end
