(* ===== verification/Admin.thy ===== *)
theory Admin
  imports Loyalty_Schema Pagination
begin

text \<open>
  \<open>apps/loyalty-service/src/admin\<close> and \<open>config\<close>: the request bodies of the admin API, the operations of
  \<open>AdminConfigService\<close> on groups, achievements and badges, the catalog, and the default configuration with
  its seeder. An operation is one database transaction: it returns an error and no new state, or the
  response and the new state. The checks of referenced achievements run before the transaction; no
  operation deletes an achievement, so they are part of the same step. The URL check of the validation
  library is the argument \<open>isUrl\<close>.

  An optional property of a body may be absent or \<open>null\<close>; \<open>null\<close> passes the checks and is written by an
  update, which the database rejects for every column but \<open>imageUrl\<close>.
\<close>

section \<open>Request bodies\<close>

datatype admin_error =
    Invalid | Conflict string | NotFoundError string | UnknownAchievements string "string list" | UnknownGroup
  | OutOfRange | NotNullViolation | NameTaken | NullIds

definition text_max :: "nat \<Rightarrow> json \<Rightarrow> string option" where
  "text_max limit v = (case v of JStr s \<Rightarrow> if length s \<le> limit then Some s else None | _ \<Rightarrow> None)"

definition nonempty_text :: "nat \<Rightarrow> json \<Rightarrow> string option" where
  "nonempty_text limit v = (case text_max limit v of Some s \<Rightarrow> if s \<noteq> [] then Some s else None | None \<Rightarrow> None)"

definition any_text :: "json \<Rightarrow> string option" where
  "any_text v = (case v of JStr s \<Rightarrow> Some s | _ \<Rightarrow> None)"

definition url_text :: "(string \<Rightarrow> bool) \<Rightarrow> json \<Rightarrow> string option" where
  "url_text isUrl v = (case v of JStr s \<Rightarrow> if isUrl s then Some s else None | _ \<Rightarrow> None)"

definition positive_int :: "json \<Rightarrow> int option" where
  "positive_int v =
     (case v of JNum (Fin q) \<Rightarrow> if of_int (floor q) = q \<and> 1 \<le> floor q then Some (floor q) else None | _ \<Rightarrow> None)"

definition boolean :: "json \<Rightarrow> bool option" where
  "boolean v = (case v of JBool b \<Rightarrow> Some b | _ \<Rightarrow> None)"

definition string_array :: "json \<Rightarrow> string list option" where
  "string_array v = (case v of JArr js \<Rightarrow> strings_of js | _ \<Rightarrow> None)"

definition rule_shape :: "json \<Rightarrow> json option" where
  "rule_shape v = (case v of JObj kvs \<Rightarrow> if isValidAchievementRuleShape v then Some v else None | _ \<Rightarrow> None)"

text \<open>A property that must be there, and one under \<open>IsOptional\<close>.\<close>

definition required :: "(json \<Rightarrow> 'a option) \<Rightarrow> json_object \<Rightarrow> string \<Rightarrow> 'a option" where
  "required check kvs k = Option.bind (obj_get kvs k) check"

definition opt_field :: "(json \<Rightarrow> 'a option) \<Rightarrow> json_object \<Rightarrow> string \<Rightarrow> 'a field option" where
  "opt_field check kvs k =
     (case obj_get kvs k of None \<Rightarrow> Some Undefined | Some JNull \<Rightarrow> Some Null | Some v \<Rightarrow> map_option Val (check v))"

definition only_keys :: "string list \<Rightarrow> json_object \<Rightarrow> bool" where
  "only_keys ks kvs \<longleftrightarrow> list_all (\<lambda>(k, _). k \<in> set ks) kvs"

record create_group_dto =
  cg_key :: string
  cg_name :: string
  cg_sortOrder :: "int field"

definition CreateAchievementGroupDto :: "json_object \<Rightarrow> create_group_dto option" where
  "CreateAchievementGroupDto kvs =
     (if \<not> only_keys [''key'', ''name'', ''sortOrder''] kvs then None
      else (case (required (nonempty_text 100) kvs ''key'', required (nonempty_text 200) kvs ''name'',
                  opt_field positive_int kvs ''sortOrder'') of
              (Some k, Some n, Some so) \<Rightarrow> Some \<lparr>cg_key = k, cg_name = n, cg_sortOrder = so\<rparr>
            | _ \<Rightarrow> None))"

record update_group_dto =
  ug_name :: "string field"
  ug_sortOrder :: "int field"

definition UpdateAchievementGroupDto :: "json_object \<Rightarrow> update_group_dto option" where
  "UpdateAchievementGroupDto kvs =
     (if \<not> only_keys [''name'', ''sortOrder''] kvs then None
      else (case (opt_field (nonempty_text 200) kvs ''name'', opt_field positive_int kvs ''sortOrder'') of
              (Some n, Some so) \<Rightarrow> Some \<lparr>ug_name = n, ug_sortOrder = so\<rparr>
            | _ \<Rightarrow> None))"

record create_achievement_dto =
  ca_id :: string
  ca_name :: string
  ca_description :: "string field"
  ca_groupKey :: string
  ca_sortOrder :: int
  ca_rule :: json
  ca_imageUrl :: "string field"
  ca_active :: "bool field"

definition CreateAchievementConfigDto :: "(string \<Rightarrow> bool) \<Rightarrow> json_object \<Rightarrow> create_achievement_dto option" where
  "CreateAchievementConfigDto isUrl kvs =
     (if \<not> only_keys [''id'', ''name'', ''description'', ''groupKey'', ''sortOrder'', ''rule'', ''imageUrl'', ''active''] kvs
      then None
      else (case (required (nonempty_text 100) kvs ''id'', required (nonempty_text 200) kvs ''name'',
                  opt_field (text_max 2000) kvs ''description'', required (nonempty_text 100) kvs ''groupKey'',
                  required positive_int kvs ''sortOrder'', required rule_shape kvs ''rule'',
                  opt_field (url_text isUrl) kvs ''imageUrl'', opt_field boolean kvs ''active'') of
              (Some i, Some n, Some d, Some g, Some so, Some r, Some u, Some a) \<Rightarrow>
                Some \<lparr>ca_id = i, ca_name = n, ca_description = d, ca_groupKey = g, ca_sortOrder = so, ca_rule = r,
                      ca_imageUrl = u, ca_active = a\<rparr>
            | _ \<Rightarrow> None))"

record update_achievement_dto =
  xa_name :: "string field"
  xa_description :: "string field"
  xa_groupKey :: "string field"
  xa_sortOrder :: "int field"
  xa_rule :: "json field"
  xa_imageUrl :: "string field"
  xa_active :: "bool field"

definition UpdateAchievementConfigDto :: "(string \<Rightarrow> bool) \<Rightarrow> json_object \<Rightarrow> update_achievement_dto option" where
  "UpdateAchievementConfigDto isUrl kvs =
     (if \<not> only_keys [''name'', ''description'', ''groupKey'', ''sortOrder'', ''rule'', ''imageUrl'', ''active''] kvs then None
      else (case (opt_field (nonempty_text 200) kvs ''name'', opt_field (text_max 2000) kvs ''description'',
                  opt_field (text_max 100) kvs ''groupKey'', opt_field positive_int kvs ''sortOrder'',
                  opt_field rule_shape kvs ''rule'', opt_field (url_text isUrl) kvs ''imageUrl'',
                  opt_field boolean kvs ''active'') of
              (Some n, Some d, Some g, Some so, Some r, Some u, Some a) \<Rightarrow>
                Some \<lparr>xa_name = n, xa_description = d, xa_groupKey = g, xa_sortOrder = so, xa_rule = r,
                      xa_imageUrl = u, xa_active = a\<rparr>
            | _ \<Rightarrow> None))"

record create_badge_dto =
  cb_id :: string
  cb_name :: string
  cb_description :: "string field"
  cb_sortOrder :: int
  cb_requiredAchievementCount :: int
  cb_requiredAchievementIds :: "string list field"
  cb_rewardAmountKobo :: "int field"
  cb_rewardCurrency :: "string field"
  cb_imageUrl :: "string field"
  cb_active :: "bool field"

definition CreateBadgeConfigDto :: "(string \<Rightarrow> bool) \<Rightarrow> json_object \<Rightarrow> create_badge_dto option" where
  "CreateBadgeConfigDto isUrl kvs =
     (if \<not> only_keys [''id'', ''name'', ''description'', ''sortOrder'', ''requiredAchievementCount'', ''requiredAchievementIds'',
                       ''rewardAmountKobo'', ''rewardCurrency'', ''imageUrl'', ''active''] kvs then None
      else (case (required (nonempty_text 100) kvs ''id'', required (nonempty_text 200) kvs ''name'',
                  opt_field (text_max 2000) kvs ''description'', required positive_int kvs ''sortOrder'',
                  required positive_int kvs ''requiredAchievementCount'', opt_field string_array kvs ''requiredAchievementIds'',
                  opt_field positive_int kvs ''rewardAmountKobo'', opt_field any_text kvs ''rewardCurrency'',
                  opt_field (url_text isUrl) kvs ''imageUrl'', opt_field boolean kvs ''active'') of
              (Some i, Some n, Some d, Some so, Some rc, Some ids, Some ra, Some cur, Some u, Some a) \<Rightarrow>
                Some \<lparr>cb_id = i, cb_name = n, cb_description = d, cb_sortOrder = so, cb_requiredAchievementCount = rc,
                      cb_requiredAchievementIds = ids, cb_rewardAmountKobo = ra, cb_rewardCurrency = cur,
                      cb_imageUrl = u, cb_active = a\<rparr>
            | _ \<Rightarrow> None))"

record update_badge_dto =
  xb_name :: "string field"
  xb_description :: "string field"
  xb_sortOrder :: "int field"
  xb_requiredAchievementCount :: "int field"
  xb_requiredAchievementIds :: "string list field"
  xb_rewardAmountKobo :: "int field"
  xb_rewardCurrency :: "string field"
  xb_imageUrl :: "string field"
  xb_active :: "bool field"

definition UpdateBadgeConfigDto :: "(string \<Rightarrow> bool) \<Rightarrow> json_object \<Rightarrow> update_badge_dto option" where
  "UpdateBadgeConfigDto isUrl kvs =
     (if \<not> only_keys [''name'', ''description'', ''sortOrder'', ''requiredAchievementCount'', ''requiredAchievementIds'',
                       ''rewardAmountKobo'', ''rewardCurrency'', ''imageUrl'', ''active''] kvs then None
      else (case (opt_field (nonempty_text 200) kvs ''name'', opt_field (text_max 2000) kvs ''description'',
                  opt_field positive_int kvs ''sortOrder'', opt_field positive_int kvs ''requiredAchievementCount'',
                  opt_field string_array kvs ''requiredAchievementIds'', opt_field positive_int kvs ''rewardAmountKobo'',
                  opt_field any_text kvs ''rewardCurrency'', opt_field (url_text isUrl) kvs ''imageUrl'',
                  opt_field boolean kvs ''active'') of
              (Some n, Some d, Some so, Some rc, Some ids, Some ra, Some cur, Some u, Some a) \<Rightarrow>
                Some \<lparr>xb_name = n, xb_description = d, xb_sortOrder = so, xb_requiredAchievementCount = rc,
                      xb_requiredAchievementIds = ids, xb_rewardAmountKobo = ra, xb_rewardCurrency = cur,
                      xb_imageUrl = u, xb_active = a\<rparr>
            | _ \<Rightarrow> None))"

section \<open>Positions\<close>

text \<open>\<open>manager.increment\<close>: add one to the matching rows; a value past the column's range fails the statement.\<close>

definition increment ::
  "('r \<Rightarrow> bool) \<Rightarrow> ('r \<Rightarrow> int) \<Rightarrow> (int \<Rightarrow> 'r \<Rightarrow> 'r) \<Rightarrow> 'r list \<Rightarrow> admin_error + 'r list" where
  "increment P get set_to t =
     (if list_ex (\<lambda>r. P r \<and> \<not> is_int4 (get r + 1)) t then Inl OutOfRange
      else Inr (update_where P (\<lambda>r. set_to (get r + 1) r) t))"

text \<open>The target is a parameter of an integer comparison; comparing with \<open>null\<close> matches no row.\<close>

definition makeRoomForGroupSortOrder ::
  "int option \<Rightarrow> string option \<Rightarrow> achievement_group list \<Rightarrow> admin_error + achievement_group list" where
  "makeRoomForGroupSortOrder target excludeKey t =
     (case target of
        None \<Rightarrow> Inr t
      | Some n \<Rightarrow>
          if \<not> is_int4 n then Inl OutOfRange
          else increment (\<lambda>r. n \<le> ag_sortOrder r \<and> (truthy excludeKey \<longrightarrow> ag_key r \<noteq> the excludeKey))
                 ag_sortOrder (\<lambda>m r. r\<lparr>ag_sortOrder := m\<rparr>) t)"

definition makeRoomForAchievementSortOrder ::
  "string \<Rightarrow> int option \<Rightarrow> string option \<Rightarrow> achievement_config list \<Rightarrow> admin_error + achievement_config list" where
  "makeRoomForAchievementSortOrder groupKey target excludeId t =
     (case target of
        None \<Rightarrow> Inr t
      | Some n \<Rightarrow>
          if \<not> is_int4 n then Inl OutOfRange
          else increment (\<lambda>r. ac_groupKey r = groupKey \<and> n \<le> ac_sortOrder r \<and> (truthy excludeId \<longrightarrow> ac_id r \<noteq> the excludeId))
                 ac_sortOrder (\<lambda>m r. r\<lparr>ac_sortOrder := m\<rparr>) t)"

definition makeRoomForBadgeSortOrder ::
  "int option \<Rightarrow> string option \<Rightarrow> badge_config list \<Rightarrow> admin_error + badge_config list" where
  "makeRoomForBadgeSortOrder target excludeId t =
     (case target of
        None \<Rightarrow> Inr t
      | Some n \<Rightarrow>
          if \<not> is_int4 n then Inl OutOfRange
          else increment (\<lambda>r. n \<le> bc_sortOrder r \<and> (truthy excludeId \<longrightarrow> bc_id r \<noteq> the excludeId))
                 bc_sortOrder (\<lambda>m r. r\<lparr>bc_sortOrder := m\<rparr>) t)"

definition nextGroupSortOrder :: "achievement_group list \<Rightarrow> int" where
  "nextGroupSortOrder t = (if t = [] then 0 else Max (set (map ag_sortOrder t))) + 1"

section \<open>References\<close>

function collectAchievementSetIds :: "json \<Rightarrow> string list"
  and collect_all :: "json list \<Rightarrow> string list" where
  "collectAchievementSetIds rule =
     (if json_get rule ''type'' = Some (JStr ''ACHIEVEMENT_SET'')
      then (case json_get rule ''achievementIds'' of Some (JArr ids) \<Rightarrow> the (strings_of ids) | _ \<Rightarrow> [])
      else if json_get rule ''type'' = Some (JStr ''COMBINATION'')
      then (case json_get rule ''rules'' of Some (JArr rules) \<Rightarrow> collect_all rules | _ \<Rightarrow> [])
      else [])"
| "collect_all [] = []"
| "collect_all (rule # rules) = collectAchievementSetIds rule @ collect_all rules"
  by pat_completeness auto
termination
  by (relation "measure (\<lambda>x. case x of Inl r \<Rightarrow> size r | Inr rs \<Rightarrow> size_list size rs)")
    (auto dest!: json_get_size)

declare collectAchievementSetIds.simps [simp del]

definition assertAchievementsExist :: "string list \<Rightarrow> string \<Rightarrow> loyalty_db \<Rightarrow> admin_error option" where
  "assertAchievementsExist ids fieldLabel db =
     (if ids = [] then None
      else (let uniqueIds = remdups ids;
                existingIds = map ac_id (filter (\<lambda>a. ac_id a \<in> set uniqueIds) (ld_achievements db));
                missingIds = filter (\<lambda>i. i \<notin> set existingIds) uniqueIds in
            if missingIds \<noteq> [] then Some (UnknownAchievements fieldLabel missingIds) else None))"

section \<open>Groups\<close>

text \<open>The value an update leaves in a column, and whether it writes \<open>null\<close>.\<close>

fun merged :: "'a field \<Rightarrow> 'a \<Rightarrow> 'a" where
  "merged (Val x) old = x"
| "merged _ old = old"

fun merged_nullable :: "'a field \<Rightarrow> 'a option \<Rightarrow> 'a option" where
  "merged_nullable (Val x) old = Some x"
| "merged_nullable Null old = None"
| "merged_nullable Undefined old = old"

fun is_null :: "'a field \<Rightarrow> bool" where
  "is_null Null = True"
| "is_null _ = False"

fun is_defined :: "'a field \<Rightarrow> bool" where
  "is_defined Undefined = False"
| "is_defined _ = True"

definition field_or :: "'a field \<Rightarrow> 'a \<Rightarrow> 'a" where
  "field_or f d = (case nullish f of Some x \<Rightarrow> x | None \<Rightarrow> d)"

definition createGroup :: "create_group_dto \<Rightarrow> loyalty_db \<Rightarrow> admin_error + achievement_group \<times> loyalty_db" where
  "createGroup dto db =
     (if exists_row (\<lambda>g. ag_key g = cg_key dto) (ld_groups db) then Inl (Conflict (cg_key dto))
      else (let target = field_or (cg_sortOrder dto) (nextGroupSortOrder (ld_groups db)) in
            case makeRoomForGroupSortOrder (Some target) None (ld_groups db) of
              Inl err \<Rightarrow> Inl err
            | Inr t \<Rightarrow>
                (let g = \<lparr>ag_key = cg_key dto, ag_name = cg_name dto, ag_sortOrder = target\<rparr>
                 in Inr (g, db\<lparr>ld_groups := upsert ag_key g t\<rparr>))))"

definition updateGroup ::
  "string \<Rightarrow> update_group_dto \<Rightarrow> loyalty_db \<Rightarrow> admin_error + achievement_group \<times> loyalty_db" where
  "updateGroup key dto db =
     (case find_one (\<lambda>g. ag_key g = key) (ld_groups db) of
        None \<Rightarrow> Inl (NotFoundError key)
      | Some g \<Rightarrow>
          (case (if is_defined (ug_sortOrder dto) \<and> nullish (ug_sortOrder dto) \<noteq> Some (ag_sortOrder g)
                 then makeRoomForGroupSortOrder (nullish (ug_sortOrder dto)) (Some key) (ld_groups db)
                 else Inr (ld_groups db)) of
             Inl err \<Rightarrow> Inl err
           | Inr t \<Rightarrow>
               (let g' = g\<lparr>ag_name := merged (ug_name dto) (ag_name g), ag_sortOrder := merged (ug_sortOrder dto) (ag_sortOrder g)\<rparr> in
                if is_null (ug_name dto) \<or> is_null (ug_sortOrder dto) then Inl NotNullViolation
                else Inr (g', db\<lparr>ld_groups := upsert ag_key g' t\<rparr>))))"

section \<open>Achievements\<close>

text \<open>\<open>save\<close> of an achievement: the range, not-null, unique-name and group constraints in the server's order.\<close>

definition save_achievement ::
  "bool \<Rightarrow> achievement_config \<Rightarrow> achievement_config list \<Rightarrow> loyalty_db \<Rightarrow> admin_error + achievement_config \<times> loyalty_db" where
  "save_achievement nulls a t db =
     (if \<not> is_int4 (ac_sortOrder a) then Inl OutOfRange
      else if nulls then Inl NotNullViolation
      else if exists_row (\<lambda>r. ac_name r = ac_name a \<and> ac_id r \<noteq> ac_id a) t then Inl NameTaken
      else if \<not> exists_row (\<lambda>g. ag_key g = ac_groupKey a) (ld_groups db) then Inl UnknownGroup
      else Inr (a, db\<lparr>ld_achievements := upsert ac_id a t\<rparr>))"

definition createAchievement ::
  "create_achievement_dto \<Rightarrow> loyalty_db \<Rightarrow> admin_error + achievement_config \<times> loyalty_db" where
  "createAchievement dto db =
     (case assertAchievementsExist (collectAchievementSetIds (ca_rule dto)) ''rule.achievementIds'' db of
        Some err \<Rightarrow> Inl err
      | None \<Rightarrow>
          if exists_row (\<lambda>a. ac_id a = ca_id dto) (ld_achievements db) then Inl (Conflict (ca_id dto))
          else (case makeRoomForAchievementSortOrder (ca_groupKey dto) (Some (ca_sortOrder dto)) None (ld_achievements db) of
                  Inl err \<Rightarrow> Inl err
                | Inr t \<Rightarrow>
                    save_achievement (is_null (ca_description dto))
                      \<lparr>ac_id = ca_id dto, ac_name = ca_name dto, ac_description = field_or (ca_description dto) [],
                       ac_groupKey = ca_groupKey dto, ac_sortOrder = ca_sortOrder dto, ac_rule = ca_rule dto,
                       ac_imageUrl = nullish (ca_imageUrl dto), ac_active = field_or (ca_active dto) True\<rparr> t db))"

definition updateAchievement ::
  "string \<Rightarrow> update_achievement_dto \<Rightarrow> loyalty_db \<Rightarrow> admin_error + achievement_config \<times> loyalty_db" where
  "updateAchievement i dto db =
     (case (case xa_rule dto of
              Val rule \<Rightarrow> assertAchievementsExist (collectAchievementSetIds rule) ''rule.achievementIds'' db
            | _ \<Rightarrow> None) of
        Some err \<Rightarrow> Inl err
      | None \<Rightarrow>
          (case find_one (\<lambda>a. ac_id a = i) (ld_achievements db) of
             None \<Rightarrow> Inl (NotFoundError i)
           | Some a \<Rightarrow>
               (let targetGroupKey = field_or (xa_groupKey dto) (ac_groupKey a);
                    targetSortOrder = field_or (xa_sortOrder dto) (ac_sortOrder a);
                    positionChanged = (targetGroupKey \<noteq> ac_groupKey a \<or> targetSortOrder \<noteq> ac_sortOrder a) in
                case (if positionChanged
                      then makeRoomForAchievementSortOrder targetGroupKey (Some targetSortOrder) (Some i) (ld_achievements db)
                      else Inr (ld_achievements db)) of
                  Inl err \<Rightarrow> Inl err
                | Inr t \<Rightarrow>
                    save_achievement
                      (is_null (xa_name dto) \<or> is_null (xa_description dto) \<or> is_null (xa_groupKey dto) \<or>
                       is_null (xa_sortOrder dto) \<or> is_null (xa_rule dto) \<or> is_null (xa_active dto))
                      (a\<lparr>ac_name := merged (xa_name dto) (ac_name a), ac_description := merged (xa_description dto) (ac_description a),
                         ac_groupKey := merged (xa_groupKey dto) (ac_groupKey a), ac_sortOrder := merged (xa_sortOrder dto) (ac_sortOrder a),
                         ac_rule := merged (xa_rule dto) (ac_rule a), ac_imageUrl := merged_nullable (xa_imageUrl dto) (ac_imageUrl a),
                         ac_active := merged (xa_active dto) (ac_active a)\<rparr>) t db)))"

section \<open>Badges\<close>

definition save_badge ::
  "bool \<Rightarrow> badge_config \<Rightarrow> badge_config list \<Rightarrow> loyalty_db \<Rightarrow> admin_error + badge_config \<times> loyalty_db" where
  "save_badge nulls b t db =
     (if \<not> is_int4 (bc_sortOrder b) \<or> \<not> is_int4 (bc_requiredAchievementCount b) \<or> \<not> is_int4 (bc_rewardAmountKobo b)
      then Inl OutOfRange
      else if nulls then Inl NotNullViolation
      else if exists_row (\<lambda>r. bc_name r = bc_name b \<and> bc_id r \<noteq> bc_id b) t then Inl NameTaken
      else Inr (b, db\<lparr>ld_badges := upsert bc_id b t\<rparr>))"

definition createBadge :: "create_badge_dto \<Rightarrow> loyalty_db \<Rightarrow> admin_error + badge_config \<times> loyalty_db" where
  "createBadge dto db =
     (case assertAchievementsExist (field_or (cb_requiredAchievementIds dto) []) ''requiredAchievementIds'' db of
        Some err \<Rightarrow> Inl err
      | None \<Rightarrow>
          if exists_row (\<lambda>b. bc_id b = cb_id dto) (ld_badges db) then Inl (Conflict (cb_id dto))
          else (case makeRoomForBadgeSortOrder (Some (cb_sortOrder dto)) None (ld_badges db) of
                  Inl err \<Rightarrow> Inl err
                | Inr t \<Rightarrow>
                    save_badge (is_null (cb_description dto))
                      \<lparr>bc_id = cb_id dto, bc_name = cb_name dto, bc_description = field_or (cb_description dto) [],
                       bc_sortOrder = cb_sortOrder dto, bc_requiredAchievementCount = cb_requiredAchievementCount dto,
                       bc_requiredAchievementIds = field_or (cb_requiredAchievementIds dto) [],
                       bc_rewardAmountKobo = field_or (cb_rewardAmountKobo dto) 30000,
                       bc_rewardCurrency = field_or (cb_rewardCurrency dto) ''NGN'',
                       bc_imageUrl = nullish (cb_imageUrl dto), bc_active = field_or (cb_active dto) True\<rparr> t db))"

definition updateBadge ::
  "string \<Rightarrow> update_badge_dto \<Rightarrow> loyalty_db \<Rightarrow> admin_error + badge_config \<times> loyalty_db" where
  "updateBadge i dto db =
     (case (case xb_requiredAchievementIds dto of
              Undefined \<Rightarrow> None
            | Null \<Rightarrow> Some NullIds
            | Val ids \<Rightarrow> assertAchievementsExist ids ''requiredAchievementIds'' db) of
        Some err \<Rightarrow> Inl err
      | None \<Rightarrow>
          (case find_one (\<lambda>b. bc_id b = i) (ld_badges db) of
             None \<Rightarrow> Inl (NotFoundError i)
           | Some b \<Rightarrow>
               (case (if is_defined (xb_sortOrder dto) \<and> nullish (xb_sortOrder dto) \<noteq> Some (bc_sortOrder b)
                      then makeRoomForBadgeSortOrder (nullish (xb_sortOrder dto)) (Some i) (ld_badges db)
                      else Inr (ld_badges db)) of
                  Inl err \<Rightarrow> Inl err
                | Inr t \<Rightarrow>
                    save_badge
                      (is_null (xb_name dto) \<or> is_null (xb_description dto) \<or> is_null (xb_sortOrder dto) \<or>
                       is_null (xb_requiredAchievementCount dto) \<or> is_null (xb_rewardAmountKobo dto) \<or>
                       is_null (xb_rewardCurrency dto) \<or> is_null (xb_active dto))
                      (b\<lparr>bc_name := merged (xb_name dto) (bc_name b), bc_description := merged (xb_description dto) (bc_description b),
                         bc_sortOrder := merged (xb_sortOrder dto) (bc_sortOrder b),
                         bc_requiredAchievementCount := merged (xb_requiredAchievementCount dto) (bc_requiredAchievementCount b),
                         bc_requiredAchievementIds := merged (xb_requiredAchievementIds dto) (bc_requiredAchievementIds b),
                         bc_rewardAmountKobo := merged (xb_rewardAmountKobo dto) (bc_rewardAmountKobo b),
                         bc_rewardCurrency := merged (xb_rewardCurrency dto) (bc_rewardCurrency b),
                         bc_imageUrl := merged_nullable (xb_imageUrl dto) (bc_imageUrl b),
                         bc_active := merged (xb_active dto) (bc_active b)\<rparr>) t db)))"

section \<open>Lists and the catalog\<close>

record config_query =
  cq_page :: "nat option"
  cq_limit :: "nat option"
  cq_search :: "string option"
  cq_active :: "bool option"
  cq_groupKey :: "string option"

text \<open>
  Query values are text. \<open>page\<close> and \<open>limit\<close> are converted to numbers and checked; \<open>active\<close> is converted
  by \<open>Boolean(...)\<close>, true for every non-empty text.
\<close>

definition query_int :: "int \<Rightarrow> int option \<Rightarrow> string \<Rightarrow> nat option" where
  "query_int lo hi s =
     (case string_to_number s of
        Fin q \<Rightarrow> if of_int (floor q) = q \<and> lo \<le> floor q \<and> (case hi of None \<Rightarrow> True | Some h \<Rightarrow> floor q \<le> h)
                 then Some (nat (floor q)) else None
      | _ \<Rightarrow> None)"

definition opt_param :: "(string \<Rightarrow> 'a option) \<Rightarrow> (string \<times> string) list \<Rightarrow> string \<Rightarrow> 'a option option" where
  "opt_param check ps k = (case map_of ps k of None \<Rightarrow> Some None | Some s \<Rightarrow> map_option Some (check s))"

definition ListAchievementConfigQueryDto :: "(string \<times> string) list \<Rightarrow> config_query option" where
  "ListAchievementConfigQueryDto ps =
     (if \<not> list_all (\<lambda>(k, _). k \<in> {''page'', ''limit'', ''search'', ''active'', ''groupKey''}) ps then None
      else (case (opt_param (query_int 1 None) ps ''page'', opt_param (query_int 1 (Some 100)) ps ''limit'') of
              (Some p, Some l) \<Rightarrow>
                Some \<lparr>cq_page = p, cq_limit = l, cq_search = map_of ps ''search'',
                      cq_active = map_option (\<lambda>s. s \<noteq> []) (map_of ps ''active''), cq_groupKey = map_of ps ''groupKey''\<rparr>
            | _ \<Rightarrow> None))"

definition ListConfigQueryDto :: "(string \<times> string) list \<Rightarrow> config_query option" where
  "ListConfigQueryDto ps = (if list_ex (\<lambda>(k, _). k = ''groupKey'') ps then None else ListAchievementConfigQueryDto ps)"

definition buildAchievementWhere :: "config_query \<Rightarrow> achievement_config \<Rightarrow> bool" where
  "buildAchievementWhere q a \<longleftrightarrow>
     (truthy (cq_groupKey q) \<longrightarrow> ac_groupKey a = the (cq_groupKey q)) \<and>
     (cq_active q \<noteq> None \<longrightarrow> ac_active a = the (cq_active q)) \<and>
     (truthy (cq_search q) \<longrightarrow> ilike (the (cq_search q)) (ac_name a) \<or> ilike (the (cq_search q)) (ac_description a))"

definition buildBadgeWhere :: "config_query \<Rightarrow> badge_config \<Rightarrow> bool" where
  "buildBadgeWhere q b \<longleftrightarrow>
     (cq_active q \<noteq> None \<longrightarrow> bc_active b = the (cq_active q)) \<and>
     (truthy (cq_search q) \<longrightarrow> ilike (the (cq_search q)) (bc_name b) \<or> ilike (the (cq_search q)) (bc_description b))"

definition listGroups :: "(achievement_group list \<Rightarrow> achievement_group list) \<Rightarrow> loyalty_db \<Rightarrow> achievement_group list" where
  "listGroups by_sort db = by_sort (ld_groups db)"

definition listAchievements :: "loyalty_orders \<Rightarrow> config_query \<Rightarrow> loyalty_db \<Rightarrow> achievement_config list \<times> page_meta" where
  "listAchievements od q db = paginate (cq_page q) (cq_limit q) (by_group od (filter (buildAchievementWhere q) (ld_achievements db)))"

definition listBadges :: "loyalty_orders \<Rightarrow> config_query \<Rightarrow> loyalty_db \<Rightarrow> badge_config list \<times> page_meta" where
  "listBadges od q db = paginate (cq_page q) (cq_limit q) (by_badge_sort od (filter (buildBadgeWhere q) (ld_badges db)))"

definition toBadgeCatalogItem :: "achievement_config list \<Rightarrow> badge_config \<Rightarrow> badge_config \<times> achievement_config list" where
  "toBadgeCatalogItem achievements b =
     (b, List.map_filter (\<lambda>i. map_of (rev (map (\<lambda>a. (ac_id a, a)) achievements)) i) (bc_requiredAchievementIds b))"

definition getCatalog ::
  "(achievement_group list \<Rightarrow> achievement_group list) \<Rightarrow> loyalty_orders \<Rightarrow> loyalty_db
     \<Rightarrow> achievement_group list \<times> achievement_config list \<times> (badge_config \<times> achievement_config list) list" where
  "getCatalog by_sort od db =
     (let achievements = by_group od (ld_achievements db) in
      (by_sort (ld_groups db), achievements, map (toBadgeCatalogItem achievements) (by_badge_sort od (ld_badges db))))"

section \<open>The default configuration\<close>

definition placeholder :: "string \<Rightarrow> string" where
  "placeholder name = ''https://placehold.co/512x512/png?text='' @ name"

definition DEFAULT_ACHIEVEMENT_GROUPS :: "achievement_group list" where
  "DEFAULT_ACHIEVEMENT_GROUPS =
     [\<lparr>ag_key = ''purchases'', ag_name = ''Purchases'', ag_sortOrder = 1\<rparr>,
      \<lparr>ag_key = ''spend'', ag_name = ''Spend'', ag_sortOrder = 2\<rparr>,
      \<lparr>ag_key = ''milestones'', ag_name = ''Milestones'', ag_sortOrder = 3\<rparr>]"

definition DEFAULT_ACHIEVEMENTS :: "achievement_config list" where
  "DEFAULT_ACHIEVEMENTS =
     [\<lparr>ac_id = ''ach_first_purchase'', ac_name = ''First Purchase'',
       ac_description = ''Make your first purchase and start your Bumpa loyalty journey.'',
       ac_groupKey = ''purchases'', ac_sortOrder = 1, ac_rule = rule_json (CountRule 1),
       ac_imageUrl = Some (placeholder ''First+Purchase''), ac_active = True\<rparr>,
      \<lparr>ac_id = ''ach_5_purchases'', ac_name = ''5 Purchases'',
       ac_description = ''Complete 5 purchases on Bumpa.'',
       ac_groupKey = ''purchases'', ac_sortOrder = 2, ac_rule = rule_json (CountRule 5),
       ac_imageUrl = Some (placeholder ''5+Purchases''), ac_active = True\<rparr>,
      \<lparr>ac_id = ''ach_10_purchases'', ac_name = ''10 Purchases'',
       ac_description = ''Complete 10 purchases and prove consistent buying activity.'',
       ac_groupKey = ''purchases'', ac_sortOrder = 3, ac_rule = rule_json (CountRule 10),
       ac_imageUrl = Some (placeholder ''10+Purchases''), ac_active = True\<rparr>,
      \<lparr>ac_id = ''ach_big_spender'', ac_name = ''Big Spender'',
       ac_description = ''Spend at least 100,000 Naira in total purchases.'',
       ac_groupKey = ''spend'', ac_sortOrder = 1, ac_rule = rule_json (SumRule 10000000),
       ac_imageUrl = Some (placeholder ''Big+Spender''), ac_active = True\<rparr>,
      \<lparr>ac_id = ''ach_loyal_shopper'', ac_name = ''Loyal Shopper'',
       ac_description = ''Complete 5 purchases, spend at least 25,000 Naira, and unlock the key purchase milestones.'',
       ac_groupKey = ''milestones'', ac_sortOrder = 1, ac_rule = rule_json (CombinationRule [CountRule 5, SumRule 2500000, AchievementSetRule [''ach_first_purchase'', ''ach_5_purchases''] None]),
       ac_imageUrl = Some (placeholder ''Loyal+Shopper''), ac_active = True\<rparr>,
      \<lparr>ac_id = ''ach_power_customer'', ac_name = ''Power Customer'',
       ac_description = ''Unlock at least 4 major achievement milestones.'',
       ac_groupKey = ''milestones'', ac_sortOrder = 2, ac_rule = rule_json (AchievementSetRule [''ach_first_purchase'', ''ach_5_purchases'', ''ach_10_purchases'', ''ach_big_spender'', ''ach_loyal_shopper''] (Some 4)),
       ac_imageUrl = Some (placeholder ''Power+Customer''), ac_active = True\<rparr>]"

definition DEFAULT_BADGES :: "badge_config list" where
  "DEFAULT_BADGES =
     [\<lparr>bc_id = ''bdg_beginner'', bc_name = ''Beginner'',
       bc_description = ''Awarded after the customer makes their first purchase.'',
       bc_sortOrder = 1, bc_requiredAchievementCount = 1,
       bc_requiredAchievementIds = [''ach_first_purchase''],
       bc_rewardAmountKobo = 30000, bc_rewardCurrency = ''NGN'', bc_imageUrl = Some (placeholder ''Beginner''), bc_active = True\<rparr>,
      \<lparr>bc_id = ''bdg_intermediate'', bc_name = ''Intermediate'',
       bc_description = ''Awarded after the customer completes core purchase loyalty milestones.'',
       bc_sortOrder = 2, bc_requiredAchievementCount = 3,
       bc_requiredAchievementIds = [''ach_first_purchase'', ''ach_5_purchases'', ''ach_loyal_shopper''],
       bc_rewardAmountKobo = 30000, bc_rewardCurrency = ''NGN'', bc_imageUrl = Some (placeholder ''Intermediate''), bc_active = True\<rparr>,
      \<lparr>bc_id = ''bdg_advanced'', bc_name = ''Advanced'',
       bc_description = ''Awarded to high-value customers with strong purchase and spend history.'',
       bc_sortOrder = 3, bc_requiredAchievementCount = 5,
       bc_requiredAchievementIds = [''ach_first_purchase'', ''ach_5_purchases'', ''ach_10_purchases'', ''ach_big_spender'', ''ach_loyal_shopper''],
       bc_rewardAmountKobo = 30000, bc_rewardCurrency = ''NGN'', bc_imageUrl = Some (placeholder ''Advanced''), bc_active = True\<rparr>,
      \<lparr>bc_id = ''bdg_elite'', bc_name = ''Elite'',
       bc_description = ''Awarded to top customers who complete every configured loyalty milestone.'',
       bc_sortOrder = 4, bc_requiredAchievementCount = 6,
       bc_requiredAchievementIds = [''ach_first_purchase'', ''ach_5_purchases'', ''ach_10_purchases'', ''ach_big_spender'', ''ach_loyal_shopper'', ''ach_power_customer''],
       bc_rewardAmountKobo = 30000, bc_rewardCurrency = ''NGN'', bc_imageUrl = Some (placeholder ''Elite''), bc_active = True\<rparr>]"

text \<open>The seeder: three inserts, each of the rows not there yet; a taken name fails its insert and the later ones.\<close>

definition missing_rows :: "('r \<Rightarrow> string) \<Rightarrow> 'r list \<Rightarrow> 'r list \<Rightarrow> 'r list" where
  "missing_rows key defaults t = filter (\<lambda>r. key r \<notin> set (map key t)) defaults"

definition seed :: "loyalty_db \<Rightarrow> admin_error option \<times> loyalty_db" where
  "seed db =
     (let db1 = db\<lparr>ld_groups := ld_groups db @ missing_rows ag_key DEFAULT_ACHIEVEMENT_GROUPS (ld_groups db)\<rparr>;
          achievements = missing_rows ac_id DEFAULT_ACHIEVEMENTS (ld_achievements db1) in
      if list_ex (\<lambda>a. ac_name a \<in> set (map ac_name (ld_achievements db1))) achievements then (Some NameTaken, db1)
      else (let db2 = db1\<lparr>ld_achievements := ld_achievements db1 @ achievements\<rparr>;
                badges = missing_rows bc_id DEFAULT_BADGES (ld_badges db2) in
            if list_ex (\<lambda>b. bc_name b \<in> set (map bc_name (ld_badges db2))) badges then (Some NameTaken, db2)
            else (None, db2\<lparr>ld_badges := ld_badges db2 @ badges\<rparr>)))"

end
