(* ===== verification/Gateway_Properties.thy ===== *)
theory Gateway_Properties
  imports Gateway Purchase Admin
begin

text \<open>
  What the gateway promises: how often a request is sent and what decides the answer, that a guarded route
  forwards nothing without the key, that a forwarded path keeps the shape of its route, that every
  response is one envelope, and that its checks of the bodies never refuse what the services accept.
\<close>

section \<open>Forwarding\<close>

text \<open>An answer after which a read is sent again, and what an answer means to the caller.\<close>

fun transient :: "answer \<Rightarrow> bool" where
  "transient (Refused status _) = (status = 0 \<or> status = 408 \<or> status = 429 \<or> 500 \<le> status)"
| "transient NoResponse = True"
| "transient _ = False"

fun result_of :: "(jsnum \<Rightarrow> string) \<Rightarrow> answer \<Rightarrow> http_exception + json" where
  "result_of num_text (Answered data) = Inr data"
| "result_of num_text err = Inl (toHttpException num_text err)"

lemma shouldRetry_iff: "shouldRetry m k a \<longleftrightarrow> m = GET \<and> k < 2 \<and> transient a"
  by (cases a) (auto simp: shouldRetry_def READ_RETRIES_def)

lemma not_transient_Answered: "transient a \<Longrightarrow> a \<noteq> Answered d"
  by auto

lemma forward_from_step:
  "forward_from num_text urls answers k r sent =
     (if fr_method r = GET \<and> k < 2 \<and> transient (answers (length sent))
      then forward_from num_text urls answers (k + 1) r (sent @ [request_for urls ''application/json'' r])
      else (result_of num_text (answers (length sent)), sent @ [request_for urls ''application/json'' r]))"
  by (subst forward_from.simps) (auto simp: shouldRetry_iff Let_def split: answer.splits)

text \<open>The number of requests of a forward that starts at attempt \<open>k\<close>, by the answers it gets.\<close>

definition forward_count :: "(nat \<Rightarrow> answer) \<Rightarrow> http_method \<Rightarrow> nat \<Rightarrow> nat" where
  "forward_count answers m base =
     (if m \<noteq> GET \<or> \<not> transient (answers base) then 1
      else if \<not> transient (answers (base + 1)) then 2 else 3)"

lemma forward_attempts_eq:
  "forward num_text urls answers r sent =
     (let n = forward_count answers (fr_method r) (length sent) in
      (result_of num_text (answers (length sent + n - 1)), sent @ replicate n (request_for urls ''application/json'' r)))"
  unfolding forward_def forward_count_def
  by (simp add: forward_from_step [of _ _ _ 0] forward_from_step [of _ _ _ "Suc 0"] forward_from_step [of _ _ _ "Suc (Suc 0)"]
      Let_def numeral_3_eq_3 numeral_2_eq_2)

lemma attempts_bounds: "1 \<le> forward_count answers m base" "forward_count answers m base \<le> (if m = GET then 3 else 1)"
  by (auto simp: forward_count_def)

lemma attempts_transient: "k + 1 < forward_count answers m base \<Longrightarrow> transient (answers (base + k))"
  by (auto simp: forward_count_def less_Suc_eq numeral_3_eq_3 numeral_2_eq_2 split: if_splits)

lemma attempts_last:
  "forward_count answers m base < (if m = GET then 3 else 1) \<Longrightarrow> \<not> transient (answers (base + forward_count answers m base - 1))"
  by (auto simp: forward_count_def split: if_splits)

text \<open>
  C14. The retry loop of \<open>forward\<close> always ends, and with few requests: the same request is sent once when
  the method is not GET and at most three times when it is; it is sent again only after an answer that
  is missing or whose status is 0, 408, 429 or at least 500; and the caller gets the data, or the
  translated error, of the last answer, which ends the loop early only when it is not such a failure.
\<close>

theorem forward_attempts:
  "\<exists>n. forward num_text urls answers r sent =
         (result_of num_text (answers (length sent + n - 1)), sent @ replicate n (request_for urls ''application/json'' r))
       \<and> 1 \<le> n \<and> n \<le> (if fr_method r = GET then 3 else 1)
       \<and> (\<forall>k. k + 1 < n \<longrightarrow> transient (answers (length sent + k)))
       \<and> (n < (if fr_method r = GET then 3 else 1) \<longrightarrow> \<not> transient (answers (length sent + n - 1)))"
  by (intro exI [of _ "forward_count answers (fr_method r) (length sent)"] conjI allI impI attempts_bounds attempts_transient attempts_last)
     (simp_all add: forward_attempts_eq Let_def)

definition sample_call :: "http_method \<Rightarrow> forward_request" where
  "sample_call m = call ''corr_1'' LoyaltyMs m ''/admin/badges'' None []"

theorem forward_attempts_witness:
  "\<exists>n. forward (\<lambda>_. []) (\<lambda>_. []) (\<lambda>i. if i = 0 then NoResponse else Answered JNull) (sample_call GET) [] =
         (Inr JNull, replicate n (request_for (\<lambda>_. []) ''application/json'' (sample_call GET))) \<and> n = 2"
proof -
  obtain n where n: "forward (\<lambda>_. []) (\<lambda>_. []) (\<lambda>i. if i = 0 then NoResponse else Answered JNull) (sample_call GET) [] =
      (result_of (\<lambda>_. []) (if n - 1 = 0 then NoResponse else Answered JNull),
       replicate n (request_for (\<lambda>_. []) ''application/json'' (sample_call GET)))"
    "1 \<le> n" "n \<le> 3" "\<forall>k. k + 1 < n \<longrightarrow> transient (if k = 0 then NoResponse else Answered JNull)"
    "n < 3 \<longrightarrow> \<not> transient (if n - 1 = 0 then NoResponse else Answered JNull)"
    using forward_attempts [of "\<lambda>_. []" "\<lambda>_. []" "\<lambda>i. if i = 0 then NoResponse else Answered JNull" "sample_call GET" "[]"]
    by (auto simp: sample_call_def call_def)
  have "n \<noteq> 1" using n(5) by auto
  moreover have "\<not> 2 < n" using n(4) [rule_format, of 1] by auto
  ultimately have "n = 2" using n(2) by simp
  then show ?thesis using n(1) by simp
qed

section \<open>Routes\<close>

definition authorised :: "string \<Rightarrow> gateway_request \<Rightarrow> bool" where
  "authorised expectedKey req \<longleftrightarrow>
     (guarded (gq_route req) \<longrightarrow> expectedKey \<noteq> [] \<and> getHeader req ''x-api-key'' = Some expectedKey)"

lemma canActivate_iff: "canActivate key given = None \<longleftrightarrow> key \<noteq> [] \<and> given = Some key"
  by (cases given) (auto simp: canActivate_def truthy_def)

lemma canActivate_Some: "canActivate key given = Some e \<Longrightarrow> e = UNAUTHORIZED"
  by (auto simp: canActivate_def split: if_splits)

definition content_type :: "gateway_request \<Rightarrow> string" where
  "content_type req =
     (case gq_route req of
        HandlePaystackWebhook _ \<Rightarrow> (case getHeader req ''content-type'' of Some c \<Rightarrow> c | None \<Rightarrow> ''application/json'')
      | _ \<Rightarrow> ''application/json'')"

lemma forwardRaw_eq:
  "forwardRaw num_text urls answers r (Some ct) sent =
     (result_of num_text (answers (length sent)), sent @ [request_for urls ct r])"
  by (simp add: forwardRaw_def Let_def split: answer.splits)

lemma guard_unfold:
  "(if guarded (gq_route req) then canActivate key (getHeader req ''x-api-key'') else None) =
     (if authorised key req then None else Some UNAUTHORIZED)"
  using canActivate_iff [of key "getHeader req ''x-api-key''"] canActivate_Some [of key "getHeader req ''x-api-key''"]
  by (cases "canActivate key (getHeader req ''x-api-key'')") (auto simp: authorised_def)

lemma dispatch_eq:
  "dispatch num_text isUrl isEmail messages urls key fresh answers req sent =
     (if \<not> authorised key req then (Inl UNAUTHORIZED, sent)
      else if \<not> valid_route isUrl isEmail (gq_route req) then (Inl (BAD_REQUEST (messages (gq_route req))), sent)
      else (let q = route_call req (correlation_id fresh req) (gq_route req);
                n = (case gq_route req of HandlePaystackWebhook _ \<Rightarrow> 1 | _ \<Rightarrow> forward_count answers (fr_method q) (length sent)) in
            (result_of num_text (answers (length sent + n - 1)), sent @ replicate n (request_for urls (content_type req) q))))"
  unfolding dispatch_def Let_def guard_unfold
  by (cases "gq_route req") (simp_all add: forwardRaw_eq forward_attempts_eq content_type_def Let_def)

lemma handle_request_sent:
  "snd (handle_request num_text isUrl isEmail messages urls key fresh timestamp answers req sent) =
     snd (dispatch num_text isUrl isEmail messages urls key fresh answers req sent)"
  by (simp add: handle_request_def split: prod.splits sum.splits)

lemma webhook_method: "fr_method (route_call req corr (HandlePaystackWebhook raw)) = POST"
  by (simp add: call_def)

lemma route_attempts_bounds:
  fixes answers req fresh sent
  defines "q \<equiv> route_call req (correlation_id fresh req) (gq_route req)"
  defines "n \<equiv> (case gq_route req of HandlePaystackWebhook _ \<Rightarrow> 1 | _ \<Rightarrow> forward_count answers (fr_method q) (length sent))"
  shows "1 \<le> n \<and> n \<le> (if fr_method q = GET then 3 else 1)"
  using attempts_bounds [of answers "fr_method q" "length sent"]
  by (cases "gq_route req") (simp_all add: n_def q_def call_def del: One_nat_def)

text \<open>
  C5. The gateway lets through only what it should, and sends nothing else: the requests a call causes are
  \<open>n\<close> copies of the one its route prescribes, and \<open>n\<close> is 0 exactly when the call is refused, because
  the route is guarded and the key of the environment is empty or not the one in the header, or because
  a body, query or path parameter fails its checks. An unauthorised call is answered with 401 whatever
  its arguments are, and an authorised one with invalid arguments with 400; a call that is not a
  read is never sent twice.
\<close>

theorem gateway_forwards_only_authorised:
  "\<exists>n. snd (handle_request num_text isUrl isEmail messages urls key fresh timestamp answers req sent) =
         sent @ replicate n (request_for urls (content_type req) (route_call req (correlation_id fresh req) (gq_route req)))
     \<and> (n = 0 \<longleftrightarrow> \<not> (authorised key req \<and> valid_route isUrl isEmail (gq_route req)))
     \<and> n \<le> (if fr_method (route_call req (correlation_id fresh req) (gq_route req)) = GET then 3 else 1)
     \<and> (\<not> authorised key req \<longrightarrow>
          fst (fst (handle_request num_text isUrl isEmail messages urls key fresh timestamp answers req sent)) = 401)
     \<and> (authorised key req \<and> \<not> valid_route isUrl isEmail (gq_route req) \<longrightarrow>
          fst (fst (handle_request num_text isUrl isEmail messages urls key fresh timestamp answers req sent)) = 400)"
proof (cases "authorised key req \<and> valid_route isUrl isEmail (gq_route req)")
  case True
  then show ?thesis
    using route_attempts_bounds [where req = req and answers = answers and sent = sent and fresh = fresh]
    by (intro exI [of _ "case gq_route req of HandlePaystackWebhook _ \<Rightarrow> 1
          | _ \<Rightarrow> forward_count answers (fr_method (route_call req (correlation_id fresh req) (gq_route req))) (length sent)"])
      (auto simp: handle_request_sent dispatch_eq Let_def)
next
  case False
  then show ?thesis
    by (intro exI [of _ 0]) (auto simp: handle_request_sent dispatch_eq handle_request_def UNAUTHORIZED_def BAD_REQUEST_def)
qed

definition sample_gateway_request :: "(string \<times> string) list \<Rightarrow> route \<Rightarrow> gateway_request" where
  "sample_gateway_request headers r = \<lparr>gq_path = ''/admin/catalog'', gq_headers = headers, gq_route = r\<rparr>"

theorem gateway_forwards_only_authorised_witness:
  "snd (handle_request (\<lambda>_. []) (\<lambda>_. False) (\<lambda>_. False) (\<lambda>_. []) (\<lambda>_. []) ''k'' ''00'' ''t'' (\<lambda>_. NoResponse)
     (sample_gateway_request [(''x-api-key'', ''wrong'')] GetLoyaltyCatalog) []) = []"
proof -
  have no: "\<not> authorised ''k'' (sample_gateway_request [(''x-api-key'', ''wrong'')] GetLoyaltyCatalog)"
    by (simp add: authorised_def sample_gateway_request_def getHeader_def toLowerCase_def lower_char_def code_def)
  show ?thesis
    using gateway_forwards_only_authorised [where sent = "[]" and num_text = "\<lambda>_. []" and isUrl = "\<lambda>_. False" and isEmail = "\<lambda>_. False"
        and messages = "\<lambda>_. []" and urls = "\<lambda>_. []" and key = "''k''" and fresh = "''00''" and timestamp = "''t''"
        and answers = "\<lambda>_. NoResponse" and req = "sample_gateway_request [(''x-api-key'', ''wrong'')] GetLoyaltyCatalog"] no
    by auto
qed

section \<open>Paths\<close>

definition path_of :: "string list \<Rightarrow> string" where
  "path_of segments = concat (map (\<lambda>s. CHR ''/'' # s) segments)"

text \<open>The route of the services behind a call: fixed words and the path parameter.\<close>

fun route_segments :: "route \<Rightarrow> string list" where
  "route_segments (CreatePurchase _) = [''purchases'']"
| "route_segments (ListBanks _) = [''banks'']"
| "route_segments (GetAchievements u) = [''internal'', ''users'', u, ''achievements'']"
| "route_segments GetAchievementGroups = [''admin'', ''achievement-groups'']"
| "route_segments (CreateAchievementGroup _) = [''admin'', ''achievement-groups'']"
| "route_segments (UpdateAchievementGroup k _) = [''admin'', ''achievement-groups'', k]"
| "route_segments (GetAchievementConfigs _) = [''admin'', ''achievements'']"
| "route_segments GetLoyaltyCatalog = [''admin'', ''catalog'']"
| "route_segments (CreateAchievementConfig _) = [''admin'', ''achievements'']"
| "route_segments (UpdateAchievementConfig i _) = [''admin'', ''achievements'', i]"
| "route_segments (GetBadgeConfigs _) = [''admin'', ''badges'']"
| "route_segments (CreateBadgeConfig _) = [''admin'', ''badges'']"
| "route_segments (UpdateBadgeConfig i _) = [''admin'', ''badges'', i]"
| "route_segments (ListCashbacks _) = [''cashbacks'']"
| "route_segments (RetryCashback i _) = [''cashbacks'', i, ''retry'']"
| "route_segments (HandlePaystackWebhook _) = [''webhooks'', ''paystack'']"

fun split_path :: "string \<Rightarrow> string list" where
  "split_path [] = [[]]"
| "split_path (c # s) = (if c = CHR ''/'' then [] # split_path s else (c # hd (split_path s)) # tl (split_path s))"

lemma safe_no_slash: "safe_id s \<Longrightarrow> CHR ''/'' \<notin> set s"
  by (auto simp: safe_id_def list_all_iff is_safe_char_def is_digit_def code_def)

lemma split_path_nonempty: "split_path s \<noteq> []"
  by (cases s) auto

lemma split_path_segment: "CHR ''/'' \<notin> set s \<Longrightarrow> split_path (s @ CHR ''/'' # t) = s # split_path t"
  by (induction s) auto

lemma split_path_last: "CHR ''/'' \<notin> set s \<Longrightarrow> split_path s = [s]"
  by (induction s) auto

lemma split_path_of:
  assumes "list_all safe_id segs" and "segs \<noteq> []"
  shows "split_path (path_of segs) = [] # segs"
  using assms
proof (induction segs)
  case (Cons s segs)
  then have "CHR ''/'' \<notin> set s" by (simp add: safe_no_slash)
  then show ?case
    using Cons by (cases segs) (simp_all add: path_of_def split_path_last split_path_segment)
qed simp

lemma fixed_words_safe:
  "list_all safe_id [''purchases'', ''banks'', ''internal'', ''users'', ''achievements'', ''admin'', ''achievement-groups'', ''catalog'',
     ''badges'', ''cashbacks'', ''retry'', ''webhooks'', ''paystack'']"
  by code_simp

lemma route_segments_safe: "valid_route isUrl isEmail r \<Longrightarrow> list_all safe_id (route_segments r) \<and> route_segments r \<noteq> []"
  using fixed_words_safe by (cases r) simp_all

lemma route_call_path: "fr_path (route_call req corr r) = path_of (route_segments r)"
  by (cases r) (simp_all add: call_def path_of_def)

lemma resolve_path: "resolve urls service (CHR ''/'' # p) = urls service @ CHR ''/'' # p"
  by (simp add: resolve_def)

text \<open>
  C29. A caller cannot leave the route it called: the URL a valid call is sent to is the address of the
  service followed by a path that splits at its slashes into the segments of the route, each of them
  letters, digits, underscores and hyphens only. A path parameter therefore adds no separator, dot,
  query or escape to the URL.
\<close>

theorem forwarded_path_segments:
  assumes "valid_route isUrl isEmail r"
  shows "\<exists>path. sr_url (request_for urls ct (route_call req corr r)) = urls (fr_service (route_call req corr r)) @ path
           \<and> split_path path = [] # route_segments r \<and> list_all safe_id (route_segments r)"
proof -
  obtain s segs where segs: "route_segments r = s # segs"
    using route_segments_safe [OF assms] by (cases "route_segments r") auto
  have "sr_url (request_for urls ct (route_call req corr r)) = urls (fr_service (route_call req corr r)) @ path_of (route_segments r)"
    unfolding request_for_def by (simp add: route_call_path segs) (simp add: path_of_def resolve_path)
  then show ?thesis using route_segments_safe [OF assms] split_path_of by blast
qed

theorem forwarded_path_segments_witness:
  "\<exists>path. sr_url (request_for (\<lambda>_. ''http://loyalty:3002'') [] (route_call (sample_gateway_request [] GetLoyaltyCatalog) [] (GetAchievements ''usr_1''))) =
       ''http://loyalty:3002'' @ path \<and> split_path path = [[], ''internal'', ''users'', ''usr_1'', ''achievements'']"
proof -
  have "valid_route (\<lambda>_. False) (\<lambda>_. False) (GetAchievements ''usr_1'')" by code_simp
  from forwarded_path_segments [OF this, of "\<lambda>_. ''http://loyalty:3002''" "[]" "sample_gateway_request [] GetLoyaltyCatalog" "[]"]
  show ?thesis by auto
qed

section \<open>Responses\<close>

lemma intercept_success: "json_get (intercept status timestamp v) ''success'' = Some (JBool True)"
  by (cases "isAlreadyWrapped (case v of Some j \<Rightarrow> j | None \<Rightarrow> JNull)")
    (simp_all add: intercept_def isAlreadyWrapped_def Let_def split: prod.splits)

lemma intercept_once: "intercept status timestamp (Some (intercept status' timestamp' v)) = intercept status' timestamp' v"
  using intercept_success [of status' timestamp' v] by (simp add: intercept_def [of status] isAlreadyWrapped_def)

lemma error_not_success:
  "json_get (buildErrorBody num_text path timestamp e) ''success'' = Some (JBool False)"
  "json_get (buildErrorBody num_text path timestamp e) ''statusCode'' = Some (JNum (Fin (of_nat (he_status e))))"
  by (simp_all add: buildErrorBody_def Let_def)


section \<open>Bodies\<close>

lemma obj_get_Some_key: "only_keys ks kvs \<Longrightarrow> list_all (\<lambda>(k, _). k \<in> set ks) kvs"
  by (simp add: only_keys_def)

lemma needed_text:
  "required (nonempty_text n) kvs k = Some s \<Longrightarrow> valid_property u e kvs (k, Needed, [IsString, IsNotEmpty, MaxLength n])"
  by (auto simp: required_def nonempty_text_def text_max_def valid_property_def string_that_def Let_def
      split: Option.bind_splits json.splits if_splits)

lemma needed_int:
  "required positive_int kvs k = Some s \<Longrightarrow> valid_property u e kvs (k, Needed, [IsInt, Min 1])"
  by (auto simp: required_def positive_int_def valid_property_def is_integer_def number_that_def Let_def le_floor_iff
      split: Option.bind_splits json.splits jsnum.splits if_splits)

lemma needed_rule:
  "required rule_shape kvs k = Some s \<Longrightarrow> valid_property u e kvs (k, Needed, [IsRuleShape])"
  by (auto simp: required_def rule_shape_def valid_property_def has_rule_type_def string_that_def Let_def
      isValidAchievementRuleShape.simps
      split: Option.bind_splits json.splits if_splits)

lemma optional_property:
  assumes "opt_field check kvs k = Some f"
    and "\<And>v x. check v = Some x \<Longrightarrow> list_all (satisfies u e (Some v)) ds"
  shows "valid_property u e kvs (k, IsOptional, ds)"
  using assms
  by (fastforce simp: opt_field_def valid_property_def Let_def split: option.splits json.splits)

lemma optional_checks:
  "nonempty_text n v = Some s \<Longrightarrow> list_all (satisfies u e (Some v)) [IsString, IsNotEmpty, MaxLength n]"
  "text_max n v = Some s \<Longrightarrow> list_all (satisfies u e (Some v)) [IsString, MaxLength n]"
  "any_text v = Some s \<Longrightarrow> list_all (satisfies u e (Some v)) [IsString]"
  "url_text u v = Some s \<Longrightarrow> list_all (satisfies u e (Some v)) [IsUrl]"
  "boolean v = Some b \<Longrightarrow> list_all (satisfies u e (Some v)) [IsBoolean]"
  "rule_shape v = Some r \<Longrightarrow> list_all (satisfies u e (Some v)) [IsRuleShape]"
  "positive_int v = Some i \<Longrightarrow> list_all (satisfies u e (Some v)) [IsInt, Min 1]"
  "positive_int v = Some i \<Longrightarrow> list_all (satisfies u e (Some v)) [IsInt, Min 0]"
  by (auto simp: nonempty_text_def text_max_def any_text_def url_text_def boolean_def rule_shape_def positive_int_def string_that_def
      is_integer_def number_that_def has_rule_type_def le_floor_iff isValidAchievementRuleShape.simps
      split: json.splits jsnum.splits if_splits)

lemma optional_array:
  "string_array v = Some xs \<Longrightarrow> list_all (satisfies u e (Some v)) [IsArray, IsStringEach]"
  by (auto simp: string_array_def strings_of_eq string_that_def list_all_iff split: json.splits)

lemmas optional_properties =
  optional_property [OF _ optional_checks(1)]
  optional_property [OF _ optional_checks(2)]
  optional_property [OF _ optional_checks(3)]
  optional_property [OF _ optional_checks(4)]
  optional_property [OF _ optional_checks(5)]
  optional_property [OF _ optional_checks(6)]
  optional_property [OF _ optional_checks(7)]
  optional_property [OF _ optional_checks(8)]
  optional_property [OF _ optional_array]

lemma valid_dtoI: "only_keys (map fst spec) kvs \<Longrightarrow> list_all (valid_property u e kvs) spec \<Longrightarrow> valid_dto u e spec kvs"
  by (simp add: valid_dto_def only_keys_def)

lemma create_group_body:
  assumes "CreateAchievementGroupDto kvs = Some g"
  shows "valid_dto u e gw_CreateAchievementGroupDto kvs"
  using assms unfolding CreateAchievementGroupDto_def gw_CreateAchievementGroupDto_def
  by (intro valid_dtoI) (auto intro: needed_text optional_properties split: if_splits option.splits)

lemma update_group_body:
  assumes "UpdateAchievementGroupDto kvs = Some g"
  shows "valid_dto u e gw_UpdateAchievementGroupDto kvs"
  using assms unfolding UpdateAchievementGroupDto_def gw_UpdateAchievementGroupDto_def
  by (intro valid_dtoI) (auto intro: optional_properties split: if_splits option.splits)

lemma create_achievement_body:
  assumes "CreateAchievementConfigDto u kvs = Some g"
  shows "valid_dto u e gw_CreateAchievementConfigDto kvs"
  using assms unfolding CreateAchievementConfigDto_def gw_CreateAchievementConfigDto_def
  by (intro valid_dtoI) (auto intro: needed_text needed_int needed_rule optional_properties split: if_splits option.splits)

lemma update_achievement_body:
  assumes "UpdateAchievementConfigDto u kvs = Some g"
  shows "valid_dto u e gw_UpdateAchievementConfigDto kvs"
  using assms unfolding UpdateAchievementConfigDto_def gw_UpdateAchievementConfigDto_def
  by (intro valid_dtoI) (auto intro: optional_properties split: if_splits option.splits)

lemma create_badge_body:
  assumes "CreateBadgeConfigDto u kvs = Some g"
  shows "valid_dto u e gw_CreateBadgeConfigDto kvs"
  using assms unfolding CreateBadgeConfigDto_def gw_CreateBadgeConfigDto_def
  by (intro valid_dtoI) (auto intro: needed_text needed_int optional_properties split: if_splits option.splits)

lemma update_badge_body:
  assumes "UpdateBadgeConfigDto u kvs = Some g"
  shows "valid_dto u e gw_UpdateBadgeConfigDto kvs"
  using assms unfolding UpdateBadgeConfigDto_def gw_UpdateBadgeConfigDto_def
  by (intro valid_dtoI) (auto intro: optional_properties split: if_splits option.splits)

lemma purchase_checks:
  "text_of n (obj_get kvs k) = Some s \<Longrightarrow> valid_property u e kvs (k, Needed, [IsString, IsNotEmpty, MaxLength n])"
  "digits_field lo hi (obj_get kvs k) = Some f \<Longrightarrow> valid_property u e kvs (k, IsOptional, [IsString])"
  "int_between 1 hi' (obj_get kvs k) = Some i \<Longrightarrow> valid_property u e kvs (k, Needed, [IsInt, Min 1])"
  "obj_get kvs k = Some (JStr t) \<Longrightarrow> e t \<Longrightarrow> length t \<le> m \<Longrightarrow> valid_property u e kvs (k, Needed, [IsEmail, MaxLength m])"
  by (auto simp: text_of_def digits_field_def int_between_def valid_property_def string_that_def is_integer_def number_that_def
      le_floor_iff Let_def split: option.splits json.splits jsnum.splits if_splits)

lemma purchase_body:
  assumes "CreatePurchaseDto e (JObj kvs) = Some d"
  shows "valid_dto u e gw_CreatePurchaseDto kvs"
  using assms unfolding CreatePurchaseDto_def gw_CreatePurchaseDto_def
  by (intro valid_dtoI) (auto simp: only_keys_def intro: purchase_checks split: if_splits option.splits json.splits)

text \<open>
  C23. The gateway's checks are a weakening of the services': a body that the purchase service or the admin API
  of the loyalty service accepts is never refused by the gateway in front of it, for each of the seven
  request classes the two sides share.
\<close>

theorem gateway_accepts_service_bodies:
  "(CreatePurchaseDto isEmail (JObj kvs) \<noteq> None \<longrightarrow> valid_route isUrl isEmail (CreatePurchase kvs))
   \<and> (CreateAchievementGroupDto kvs \<noteq> None \<longrightarrow> valid_route isUrl isEmail (CreateAchievementGroup kvs))
   \<and> (safe_id i \<and> UpdateAchievementGroupDto kvs \<noteq> None \<longrightarrow> valid_route isUrl isEmail (UpdateAchievementGroup i kvs))
   \<and> (CreateAchievementConfigDto isUrl kvs \<noteq> None \<longrightarrow> valid_route isUrl isEmail (CreateAchievementConfig kvs))
   \<and> (safe_id i \<and> UpdateAchievementConfigDto isUrl kvs \<noteq> None \<longrightarrow> valid_route isUrl isEmail (UpdateAchievementConfig i kvs))
   \<and> (CreateBadgeConfigDto isUrl kvs \<noteq> None \<longrightarrow> valid_route isUrl isEmail (CreateBadgeConfig kvs))
   \<and> (safe_id i \<and> UpdateBadgeConfigDto isUrl kvs \<noteq> None \<longrightarrow> valid_route isUrl isEmail (UpdateBadgeConfig i kvs))"
  by (auto intro: purchase_body create_group_body update_group_body create_achievement_body update_achievement_body create_badge_body
      update_badge_body)

definition sample_badge_body :: "rat \<Rightarrow> json_object" where
  "sample_badge_body reward =
     [(''id'', JStr ''bdg_elite''), (''name'', JStr ''Elite''), (''sortOrder'', JNum (Fin 4)), (''requiredAchievementCount'', JNum (Fin 8)),
      (''rewardAmountKobo'', JNum (Fin reward))]"

theorem gateway_accepts_service_bodies_witness:
  "valid_route (\<lambda>_. True) (\<lambda>_. True) (CreateBadgeConfig (sample_badge_body 30000))"
proof -
  have "CreateBadgeConfigDto (\<lambda>_. True) (sample_badge_body 30000) \<noteq> None" by code_simp
  then show ?thesis using gateway_accepts_service_bodies [of "\<lambda>_. True" "sample_badge_body 30000" "\<lambda>_. True" "[]"] by blast
qed

text \<open>The converse fails: a reward of 0 passes the gateway and is refused by the service.\<close>

lemma zero_reward_refused_behind_gateway:
  "valid_route (\<lambda>_. True) (\<lambda>_. True) (CreateBadgeConfig (sample_badge_body 0))"
  "CreateBadgeConfigDto (\<lambda>_. True) (sample_badge_body 0) = None"
  by code_simp+

end
