(* ===== verification/Loyalty.thy ===== *)
theory Loyalty
  imports Loyalty_Schema
begin

text \<open>
  \<open>apps/loyalty-service/src/loyalty/loyalty.service.ts\<close>: the handler of \<open>PurchaseCompleted\<close> and the
  achievement state of a user. The database transaction is one function from database to database; it
  fails, leaving the database as it was, when a counter leaves the range of its \<open>integer\<close> column.
  Identifiers come from a random source \<open>rnd\<close>, read at the position \<open>ld_draws\<close>; times from the
  argument \<open>now\<close>.
\<close>

section \<open>The projection and the counters\<close>

text \<open>
  \<open>manager.upsert(UserProjection, ...)\<close>: a column whose value is \<open>undefined\<close> is not among the columns
  overwritten on conflict, and is NULL in a new row.
\<close>

definition upsert_projection :: "user_snapshot \<Rightarrow> user_projection list \<Rightarrow> user_projection list" where
  "upsert_projection u t =
     (let bank = nullish (snap_bankAccountNumber u); bcode = nullish (snap_bankCode u) in
      if exists_row (\<lambda>r. up_id r = snap_id u) t
      then update_where (\<lambda>r. up_id r = snap_id u)
             (\<lambda>r. r\<lparr>up_email := snap_email u, up_name := snap_name u,
                    up_bankAccountNumber := (case bank of None \<Rightarrow> up_bankAccountNumber r | Some x \<Rightarrow> Some x),
                    up_bankCode := (case bcode of None \<Rightarrow> up_bankCode r | Some x \<Rightarrow> Some x)\<rparr>) t
      else t @ [\<lparr>up_id = snap_id u, up_email = snap_email u, up_name = snap_name u,
                 up_bankAccountNumber = bank, up_bankCode = bcode\<rparr>])"

definition stats_of :: "string \<Rightarrow> user_stats list \<Rightarrow> user_stats" where
  "stats_of u t =
     (case find_one (\<lambda>r. st_userId r = u) t of
        Some r \<Rightarrow> r
      | None \<Rightarrow> \<lparr>st_userId = u, st_purchaseCount = 0, st_totalSpendKobo = 0\<rparr>)"

definition count_purchase :: "purchase_completed_payload \<Rightarrow> user_stats \<Rightarrow> user_stats" where
  "count_purchase p r =
     r\<lparr>st_purchaseCount := st_purchaseCount r + 1, st_totalSpendKobo := st_totalSpendKobo r + pc_amountKobo p\<rparr>"

section \<open>Unlocking achievements\<close>

record unlock_run =
  existingAchievementIds :: "string set"
  brokenAchievementIds :: "string set"
  unlockedInPass :: bool
  ur_rows :: "user_achievement list"
  ur_outbox :: outbox
  ur_eventIds :: "string list"
  ur_draws :: nat

definition stats_context :: "user_stats \<Rightarrow> string set \<Rightarrow> rule_context" where
  "stats_context stats ids =
     \<lparr>purchaseCount = st_purchaseCount stats, totalSpendKobo = st_totalSpendKobo stats,
      unlockedAchievementIds = ids\<rparr>"

definition unlock_row :: "random_source \<Rightarrow> int \<Rightarrow> string \<Rightarrow> nat \<Rightarrow> string \<Rightarrow> user_achievement" where
  "unlock_row rnd now u n a =
     \<lparr>ua_id = createReadableId UserAchievementId (rnd n), ua_userId = u, ua_achievementId = a,
      ua_unlockedAt = now\<rparr>"

definition achievement_event ::
  "random_source \<Rightarrow> int \<Rightarrow> purchase_completed_event \<Rightarrow> nat \<Rightarrow> achievement_config \<Rightarrow> bumpa_domain_event" where
  "achievement_event rnd now event n config =
     AchievementUnlockedEvent (createDomainEvent AchievementUnlocked
       \<lparr>au_achievement_name = ac_name config, au_user = pc_user (payload event)\<rparr>
       (correlationId event) (createReadableId EventId (rnd (Suc n))) now)"

definition unlock_one ::
  "random_source \<Rightarrow> int \<Rightarrow> purchase_completed_event \<Rightarrow> user_stats \<Rightarrow> achievement_config \<Rightarrow> unlock_run \<Rightarrow> unlock_run" where
  "unlock_one rnd now event stats config run =
     (if ac_id config \<in> existingAchievementIds run \<or> ac_id config \<in> brokenAchievementIds run then run
      else (case evaluate (ac_rule config) (stats_context stats (existingAchievementIds run)) of
              Inl err \<Rightarrow> run\<lparr>brokenAchievementIds := insert (ac_id config) (brokenAchievementIds run)\<rparr>
            | Inr unlocked \<Rightarrow>
                if \<not> unlocked then run
                else (let n = ur_draws run;
                          e = achievement_event rnd now event n config
                      in run\<lparr>ur_rows := upsert ua_id
                               (unlock_row rnd now (pc_userId (payload event)) n (ac_id config)) (ur_rows run),
                             existingAchievementIds := insert (ac_id config) (existingAchievementIds run),
                             unlockedInPass := True,
                             ur_outbox := upsert ob_id (outbox_row e now) (ur_outbox run),
                             ur_eventIds := ur_eventIds run @ [bumpa_event_id e],
                             ur_draws := n + 2\<rparr>)))"

definition unlock_pass ::
  "random_source \<Rightarrow> int \<Rightarrow> purchase_completed_event \<Rightarrow> user_stats \<Rightarrow> achievement_config list \<Rightarrow> unlock_run \<Rightarrow> unlock_run" where
  "unlock_pass rnd now event stats configs run = fold (unlock_one rnd now event stats) configs run"

lemma unlock_one_ids:
  "existingAchievementIds run \<subseteq> existingAchievementIds (unlock_one rnd now event stats c run)"
  "existingAchievementIds (unlock_one rnd now event stats c run) \<subseteq> insert (ac_id c) (existingAchievementIds run)"
  "unlockedInPass (unlock_one rnd now event stats c run) \<noteq> unlockedInPass run \<Longrightarrow>
     ac_id c \<in> existingAchievementIds (unlock_one rnd now event stats c run) - existingAchievementIds run"
  by (auto simp: unlock_one_def Let_def split: sum.splits if_splits)

lemma unlock_pass_ids:
  "existingAchievementIds run \<subseteq> existingAchievementIds (unlock_pass rnd now event stats cs run)
   \<and> existingAchievementIds (unlock_pass rnd now event stats cs run)
       \<subseteq> existingAchievementIds run \<union> ac_id ` set cs"
proof (induction cs arbitrary: run)
  case Nil
  then show ?case by (simp add: unlock_pass_def)
next
  case (Cons c cs)
  show ?case
    using Cons.IH [of "unlock_one rnd now event stats c run"]
      unlock_one_ids(1,2) [where c = c and run = run and rnd = rnd and now = now and event = event and stats = stats]
    by (simp add: unlock_pass_def) blast
qed

lemma unlock_pass_grows:
  assumes "unlockedInPass (unlock_pass rnd now event stats cs run)" and "\<not> unlockedInPass run"
  shows "\<exists>c \<in> set cs. ac_id c \<in> existingAchievementIds (unlock_pass rnd now event stats cs run)
           - existingAchievementIds run"
  using assms
proof (induction cs arbitrary: run)
  case Nil
  then show ?case by (simp add: unlock_pass_def)
next
  case (Cons c cs)
  let ?run = "unlock_one rnd now event stats c run"
  have pass: "unlock_pass rnd now event stats (c # cs) run = unlock_pass rnd now event stats cs ?run"
    by (simp add: unlock_pass_def)
  note mono = unlock_one_ids(1) [of run rnd now event stats c]
    unlock_pass_ids [of ?run rnd now event stats cs]
  show ?case
  proof (cases "unlockedInPass ?run")
    case True
    then have "ac_id c \<in> existingAchievementIds ?run - existingAchievementIds run"
      using Cons.prems(2) unlock_one_ids(3) by blast
    then show ?thesis using mono unfolding pass by auto
  next
    case False
    from Cons.IH [OF _ False] Cons.prems(1) pass
    obtain d where "d \<in> set cs" "ac_id d \<in> existingAchievementIds (unlock_pass rnd now event stats cs ?run)
        - existingAchievementIds ?run" by auto
    then show ?thesis using mono unfolding pass by auto
  qed
qed

text \<open>
  The \<open>do ... while (unlockedInPass)\<close> loop. It ends because every pass that unlocked something has
  taken an achievement out of the ones still locked.
\<close>

function unlock_loop ::
  "random_source \<Rightarrow> int \<Rightarrow> purchase_completed_event \<Rightarrow> user_stats \<Rightarrow> achievement_config list \<Rightarrow> unlock_run \<Rightarrow> unlock_run" where
  "unlock_loop rnd now event stats configs run =
     (let run' = unlock_pass rnd now event stats configs (run\<lparr>unlockedInPass := False\<rparr>) in
      if unlockedInPass run' then unlock_loop rnd now event stats configs run' else run')"
  by pat_completeness auto
termination
proof (relation "measure (\<lambda>(rnd, now, event, stats, configs, run).
    card (ac_id ` set configs - existingAchievementIds run))")
  fix rnd now event stats configs run run'
  assume r: "run' = unlock_pass rnd now event stats configs (run\<lparr>unlockedInPass := False\<rparr>)"
    and u: "unlockedInPass run'"
  have "ac_id ` set configs - existingAchievementIds run' \<subset> ac_id ` set configs - existingAchievementIds run"
    using unlock_pass_grows [of rnd now event stats configs "run\<lparr>unlockedInPass := False\<rparr>"]
      unlock_pass_ids [of "run\<lparr>unlockedInPass := False\<rparr>" rnd now event stats configs] r u
    by auto
  then have "card (ac_id ` set configs - existingAchievementIds run') < card (ac_id ` set configs - existingAchievementIds run)"
    by (intro psubset_card_mono) auto
  then show "((rnd, now, event, stats, configs, run'), (rnd, now, event, stats, configs, run))
      \<in> measure (\<lambda>(rnd, now, event, stats, configs, run). card (ac_id ` set configs - existingAchievementIds run))"
    by simp
qed simp

declare unlock_loop.simps [simp del]

section \<open>Unlocking badges\<close>

definition meetsBadgeRequirement :: "badge_config \<Rightarrow> int \<Rightarrow> string set \<Rightarrow> bool" where
  "meetsBadgeRequirement badge achievementCount ids \<longleftrightarrow>
     bc_requiredAchievementCount badge \<le> achievementCount \<and>
     list_all (\<lambda>a. a \<in> ids) (bc_requiredAchievementIds badge)"

record badge_run =
  br_rows :: "user_badge list"
  br_outbox :: outbox
  br_eventIds :: "string list"
  br_draws :: nat

definition badge_row :: "random_source \<Rightarrow> int \<Rightarrow> string \<Rightarrow> nat \<Rightarrow> string \<Rightarrow> user_badge" where
  "badge_row rnd now u n b =
     \<lparr>ub_id = createReadableId UserBadgeId (rnd n), ub_userId = u, ub_badgeId = b, ub_unlockedAt = now\<rparr>"

definition badge_event ::
  "random_source \<Rightarrow> int \<Rightarrow> purchase_completed_event \<Rightarrow> nat \<Rightarrow> badge_config \<Rightarrow> bumpa_domain_event" where
  "badge_event rnd now event n badge =
     BadgeUnlockedEvent (createDomainEvent BadgeUnlocked
       \<lparr>bu_badge_name = bc_name badge, bu_rewardAmountKobo = Some (bc_rewardAmountKobo badge),
        bu_rewardCurrency = bc_rewardCurrency badge, bu_user = pc_user (payload event)\<rparr>
       (correlationId event) (createReadableId EventId (rnd (Suc n))) now)"

definition unlock_badge ::
  "random_source \<Rightarrow> int \<Rightarrow> purchase_completed_event \<Rightarrow> badge_config \<Rightarrow> badge_run \<Rightarrow> badge_run" where
  "unlock_badge rnd now event badge run =
     (let n = br_draws run; e = badge_event rnd now event n badge in
      run\<lparr>br_rows := upsert ub_id (badge_row rnd now (pc_userId (payload event)) n (bc_id badge)) (br_rows run),
          br_outbox := upsert ob_id (outbox_row e now) (br_outbox run),
          br_eventIds := br_eventIds run @ [bumpa_event_id e],
          br_draws := n + 2\<rparr>)"

definition unlockBadges ::
  "random_source \<Rightarrow> loyalty_orders \<Rightarrow> int \<Rightarrow> purchase_completed_event \<Rightarrow> loyalty_db \<Rightarrow> string list \<times> loyalty_db" where
  "unlockBadges rnd od now event db =
     (let u = pc_userId (payload event);
          unlockedAchievements = achievements_of u db;
          ids = ua_achievementId ` set unlockedAchievements;
          achievementCount = int (length unlockedAchievements);
          existingBadgeIds = ub_badgeId ` set (badges_of u db);
          run = fold (\<lambda>badge run.
                   if bc_id badge \<in> existingBadgeIds \<or> \<not> meetsBadgeRequirement badge achievementCount ids
                   then run else unlock_badge rnd now event badge run)
                 (by_badge_sort od (active_badges db))
                 \<lparr>br_rows = ld_user_badges db, br_outbox = ld_outbox db, br_eventIds = [], br_draws = ld_draws db\<rparr>
      in (br_eventIds run,
          db\<lparr>ld_user_badges := br_rows run, ld_outbox := br_outbox run, ld_draws := br_draws run\<rparr>))"

section \<open>The handler\<close>

definition integer_out_of_range :: string where
  "integer_out_of_range = ''value is out of range for type integer''"

text \<open>The database transaction: the identifiers to publish with the new database, or the error.\<close>

definition purchase_transaction ::
  "random_source \<Rightarrow> loyalty_orders \<Rightarrow> int \<Rightarrow> purchase_completed_event \<Rightarrow> loyalty_db
     \<Rightarrow> string + string list \<times> loyalty_db" where
  "purchase_transaction rnd od now event db =
     (let p = payload event;
          u = pc_userId p;
          stats = count_purchase p (stats_of u (ld_stats db)) in
      if \<not> (is_int4 (st_purchaseCount stats) \<and> is_int4 (st_totalSpendKobo stats))
      then Inl integer_out_of_range
      else (let run = unlock_loop rnd now event stats (by_group od (active_achievements db))
                        \<lparr>existingAchievementIds = ua_achievementId ` set (achievements_of u db),
                         brokenAchievementIds = {}, unlockedInPass = False,
                         ur_rows = ld_user_achievements db, ur_outbox = ld_outbox db,
                         ur_eventIds = [], ur_draws = ld_draws db\<rparr>;
                db1 = db\<lparr>ld_projections := upsert_projection (pc_user p) (ld_projections db),
                         ld_stats := upsert st_userId stats (ld_stats db),
                         ld_user_achievements := ur_rows run, ld_outbox := ur_outbox run,
                         ld_draws := ur_draws run\<rparr>;
                (badgeEventIds, db2) = unlockBadges rnd od now event db1
            in Inr (ur_eventIds run @ badgeEventIds,
                    db2\<lparr>ld_processed := upsert pe_eventId
                          \<lparr>pe_eventId = eventId event, pe_consumer = LoyaltyService\<rparr> (ld_processed db2)\<rparr>)))"

definition processed :: "string \<Rightarrow> loyalty_db \<Rightarrow> bool" where
  "processed i db \<longleftrightarrow> exists_row (\<lambda>r. pe_eventId r = i) (ld_processed db)"

definition handlePurchaseCompleted ::
  "random_source \<Rightarrow> loyalty_orders \<Rightarrow> outbox_options \<Rightarrow> (nat \<Rightarrow> string option) \<Rightarrow> int
     \<Rightarrow> purchase_completed_event \<Rightarrow> loyalty_db \<times> bus \<Rightarrow> string option \<times> loyalty_db \<times> bus" where
  "handlePurchaseCompleted rnd od opts confirm now event = (\<lambda>(db, b).
     (if processed (eventId event) db then (None, db, b)
      else (case purchase_transaction rnd od now event db of
              Inl err \<Rightarrow> (Some err, db, b)
            | Inr (outboxEventIds, db') \<Rightarrow>
                (let (t, b') = publishMany opts confirm now outboxEventIds (ld_outbox db', b)
                 in (None, db'\<lparr>ld_outbox := t\<rparr>, b')))))"

section \<open>The achievement state of a user\<close>

record badge_state =
  currentBadge :: string
  nextBadge :: string
  remainingToUnlockNextBadge :: int

record achievement_state =
  unlocked_achievements :: "string list"
  next_available_achievements :: "string list"
  current_badge :: string
  next_badge :: string
  remaining_to_unlock_next_badge :: int

text \<open>The joined configuration row; the foreign key guarantees that it exists.\<close>

definition achievement_name :: "loyalty_db \<Rightarrow> string \<Rightarrow> string" where
  "achievement_name db a =
     (case find_one (\<lambda>c. ac_id c = a) (ld_achievements db) of Some c \<Rightarrow> ac_name c | None \<Rightarrow> [])"

definition badge_of :: "loyalty_db \<Rightarrow> string \<Rightarrow> badge_config option" where
  "badge_of db i = find_one (\<lambda>c. bc_id c = i) (ld_badges db)"

text \<open>The element \<open>[0]\<close> of a list after the stable sort by decreasing \<open>sortOrder\<close>.\<close>

definition top_badge :: "badge_config list \<Rightarrow> badge_config option" where
  "top_badge bs = (case sort_key (\<lambda>b. - bc_sortOrder b) bs of [] \<Rightarrow> None | b # _ \<Rightarrow> Some b)"

definition getBadgeState ::
  "loyalty_orders \<Rightarrow> string \<Rightarrow> int \<Rightarrow> string set \<Rightarrow> loyalty_db \<Rightarrow> badge_state" where
  "getBadgeState od u achievementCount ids db =
     (let unlocked = by_badge_time od (badges_of u db);
          current = top_badge (List.map_filter (\<lambda>r. badge_of db (ub_badgeId r)) unlocked);
          unlockedBadgeIds = ub_badgeId ` set unlocked;
          nxt = List.find (\<lambda>b. bc_id b \<notin> unlockedBadgeIds) (by_badge_sort od (active_badges db))
      in \<lparr>currentBadge = (case current of None \<Rightarrow> [] | Some b \<Rightarrow> bc_name b),
          nextBadge = (case nxt of None \<Rightarrow> [] | Some b \<Rightarrow> bc_name b),
          remainingToUnlockNextBadge =
            (case nxt of
               None \<Rightarrow> 0
             | Some b \<Rightarrow>
                 max (max (bc_requiredAchievementCount b - achievementCount)
                          (int (length (filter (\<lambda>a. a \<notin> ids) (bc_requiredAchievementIds b))))) 0)\<rparr>)"

text \<open>
  \<open>grouped\<close> is a \<open>Map\<close> filled in the order of the rows: its values are the rows of each group, groups in
  the order of their first row.
\<close>

definition group_values :: "achievement_config list \<Rightarrow> achievement_config list list" where
  "group_values cs = map (\<lambda>g. filter (\<lambda>c. ac_groupKey c = g) cs) (rev (remdups (rev (map ac_groupKey cs))))"

definition getAchievementState :: "loyalty_orders \<Rightarrow> string \<Rightarrow> loyalty_db \<Rightarrow> achievement_state" where
  "getAchievementState od u db =
     (let unlocked = by_unlock_time od (achievements_of u db);
          ids = ua_achievementId ` set unlocked;
          configs = by_group od (active_achievements db);
          badges = getBadgeState od u (int (length unlocked)) ids db
      in \<lparr>unlocked_achievements = map (\<lambda>r. achievement_name db (ua_achievementId r)) unlocked,
          next_available_achievements =
            map ac_name (List.map_filter (List.find (\<lambda>c. ac_id c \<notin> ids)) (group_values configs)),
          current_badge = currentBadge badges,
          next_badge = nextBadge badges,
          remaining_to_unlock_next_badge = remainingToUnlockNextBadge badges\<rparr>)"

end
