(* ===== verification/Loyalty_Unlocks.thy ===== *)
theory Loyalty_Unlocks
  imports Loyalty
begin

text \<open>
  What the unlock loop of \<open>handlePurchaseCompleted\<close> computes. \<open>earned\<close> is the specification: the least
  set that contains the achievements the user has and every active achievement whose rule holds over
  that set. The loop reaches it whatever the order of the rows, and writes one row and one event per
  achievement gained.
\<close>

section \<open>The effect of a run\<close>

primrec unlock_rows :: "random_source \<Rightarrow> int \<Rightarrow> string \<Rightarrow> nat \<Rightarrow> achievement_config list \<Rightarrow> user_achievement list" where
  "unlock_rows rnd now u n [] = []"
| "unlock_rows rnd now u n (c # cs) = unlock_row rnd now u n (ac_id c) # unlock_rows rnd now u (n + 2) cs"

primrec unlock_events ::
  "random_source \<Rightarrow> int \<Rightarrow> purchase_completed_event \<Rightarrow> nat \<Rightarrow> achievement_config list \<Rightarrow> bumpa_domain_event list" where
  "unlock_events rnd now event n [] = []"
| "unlock_events rnd now event n (c # cs) = achievement_event rnd now event n c # unlock_events rnd now event (n + 2) cs"

lemma unlock_rows_append:
  "unlock_rows rnd now u n (cs @ ds) = unlock_rows rnd now u n cs @ unlock_rows rnd now u (n + 2 * length cs) ds"
  by (induction cs arbitrary: n) auto

lemma unlock_events_append:
  "unlock_events rnd now event n (cs @ ds)
     = unlock_events rnd now event n cs @ unlock_events rnd now event (n + 2 * length cs) ds"
  by (induction cs arbitrary: n) auto

lemma unlock_rows_achievements [simp]: "map ua_achievementId (unlock_rows rnd now u n cs) = map ac_id cs"
  by (induction cs arbitrary: n) (auto simp: unlock_row_def)

lemma unlock_rows_user: "r \<in> set (unlock_rows rnd now u n cs) \<Longrightarrow> ua_userId r = u"
  by (induction cs arbitrary: n) (auto simp: unlock_row_def)

definition unlocked_by ::
  "random_source \<Rightarrow> int \<Rightarrow> purchase_completed_event \<Rightarrow> achievement_config list \<Rightarrow> unlock_run \<Rightarrow> unlock_run \<Rightarrow> bool" where
  "unlocked_by rnd now event cs run run' \<longleftrightarrow>
     distinct (map ac_id cs) \<and> ac_id ` set cs \<inter> existingAchievementIds run = {} \<and>
     existingAchievementIds run' = existingAchievementIds run \<union> ac_id ` set cs \<and>
     ur_rows run' = fold (upsert ua_id) (unlock_rows rnd now (pc_userId (payload event)) (ur_draws run) cs) (ur_rows run) \<and>
     ur_outbox run' = fold (upsert ob_id)
       (map (\<lambda>e. outbox_row e now) (unlock_events rnd now event (ur_draws run) cs)) (ur_outbox run) \<and>
     ur_eventIds run' = ur_eventIds run @ map bumpa_event_id (unlock_events rnd now event (ur_draws run) cs) \<and>
     ur_draws run' = ur_draws run + 2 * length cs"

lemma unlocked_by_trans:
  assumes "unlocked_by rnd now event cs a b" and "unlocked_by rnd now event ds b c"
  shows "unlocked_by rnd now event (cs @ ds) a c"
  using assms by (auto simp: unlocked_by_def unlock_rows_append unlock_events_append)

lemma unlocked_by_flag: "unlocked_by rnd now event cs (a\<lparr>unlockedInPass := f\<rparr>) b = unlocked_by rnd now event cs a b"
  by (simp add: unlocked_by_def)

lemma unlock_one_effect:
  "\<exists>cs. set cs \<subseteq> {c} \<and> unlocked_by rnd now event cs run (unlock_one rnd now event stats c run)"
proof (cases "ac_id c \<notin> existingAchievementIds run \<and> ac_id c \<notin> brokenAchievementIds run
    \<and> evaluate (ac_rule c) (stats_context stats (existingAchievementIds run)) = Inr True")
  case True
  then show ?thesis
    by (intro exI [of _ "[c]"]) (simp add: unlock_one_def unlocked_by_def Let_def)
next
  case False
  then show ?thesis
    by (intro exI [of _ "[]"]) (auto simp: unlock_one_def unlocked_by_def split: sum.splits)
qed

lemma unlock_pass_effect:
  "\<exists>cs. set cs \<subseteq> set configs \<and> unlocked_by rnd now event cs run (unlock_pass rnd now event stats configs run)"
proof (induction configs arbitrary: run)
  case Nil
  then show ?case by (intro exI [of _ "[]"]) (simp add: unlock_pass_def unlocked_by_def)
next
  case (Cons c configs)
  let ?run = "unlock_one rnd now event stats c run"
  obtain cs where cs: "set cs \<subseteq> {c}" "unlocked_by rnd now event cs run ?run"
    using unlock_one_effect by blast
  obtain ds where ds: "set ds \<subseteq> set configs"
    "unlocked_by rnd now event ds ?run (unlock_pass rnd now event stats configs ?run)"
    using Cons.IH by blast
  have "unlock_pass rnd now event stats (c # configs) run = unlock_pass rnd now event stats configs ?run"
    by (simp add: unlock_pass_def)
  with unlocked_by_trans [OF cs(2) ds(2)] cs(1) ds(1) show ?case
    by (intro exI [of _ "cs @ ds"]) auto
qed

lemma unlock_loop_effect:
  "\<exists>cs. set cs \<subseteq> set configs \<and> unlocked_by rnd now event cs run (unlock_loop rnd now event stats configs run)"
proof (induction rnd now event stats configs run rule: unlock_loop.induct)
  case (1 rnd now event stats configs run)
  let ?run = "unlock_pass rnd now event stats configs (run\<lparr>unlockedInPass := False\<rparr>)"
  obtain cs where cs: "set cs \<subseteq> set configs" "unlocked_by rnd now event cs run ?run"
    using unlock_pass_effect [of configs rnd now event "run\<lparr>unlockedInPass := False\<rparr>" stats] unlocked_by_flag by blast
  show ?case
  proof (cases "unlockedInPass ?run")
    case True
    then obtain ds where ds: "set ds \<subseteq> set configs"
      "unlocked_by rnd now event ds ?run (unlock_loop rnd now event stats configs ?run)"
      using "1.IH" by blast
    with True unlocked_by_trans [OF cs(2) ds(2)] cs(1) show ?thesis
      by (intro exI [of _ "cs @ ds"]) (simp add: unlock_loop.simps [of _ _ _ _ _ run] Let_def)
  next
    case False
    with cs show ?thesis by (auto simp: unlock_loop.simps [of _ _ _ _ _ run] Let_def)
  qed
qed

section \<open>The specification of the unlocks\<close>

definition unlock_step ::
  "user_stats \<Rightarrow> achievement_config set \<Rightarrow> string set \<Rightarrow> string set \<Rightarrow> string set" where
  "unlock_step stats configs E S =
     E \<union> {ac_id c |c. c \<in> configs \<and> evaluate (ac_rule c) (stats_context stats S) = Inr True}"

definition earned :: "user_stats \<Rightarrow> achievement_config set \<Rightarrow> string set \<Rightarrow> string set" where
  "earned stats configs E = lfp (unlock_step stats configs E)"

lemma evaluate_grows:
  assumes "S \<subseteq> S'" and "evaluate j (stats_context stats S) \<noteq> Inr False"
  shows "evaluate j (stats_context stats S') = evaluate j (stats_context stats S)"
  using assms by (intro evaluate_stable(1)) (auto simp: context_le_def stats_context_def)

lemma unlock_step_mono: "mono (unlock_step stats configs E)"
proof (rule monoI)
  fix S S' :: "string set" assume "S \<subseteq> S'"
  then have "evaluate j (stats_context stats S) = Inr True \<Longrightarrow> evaluate j (stats_context stats S') = Inr True" for j
    using evaluate_grows [of S S' j stats] by simp
  then show "unlock_step stats configs E S \<subseteq> unlock_step stats configs E S'"
    by (auto simp: unlock_step_def)
qed

lemma earned_unfold: "earned stats configs E = unlock_step stats configs E (earned stats configs E)"
  unfolding earned_def by (rule lfp_unfold [OF unlock_step_mono])

lemma earned_base: "E \<subseteq> earned stats configs E"
  using earned_unfold [of stats configs E] by (auto simp: unlock_step_def)

lemma earned_step:
  assumes "c \<in> configs" and "S \<subseteq> earned stats configs E"
    and "evaluate (ac_rule c) (stats_context stats S) = Inr True"
  shows "ac_id c \<in> earned stats configs E"
proof -
  have "evaluate (ac_rule c) (stats_context stats (earned stats configs E)) = Inr True"
    using evaluate_grows [OF assms(2), of "ac_rule c" stats] assms(3) by simp
  then show ?thesis using assms(1) by (subst earned_unfold) (auto simp: unlock_step_def)
qed

lemma earned_least:
  assumes "unlock_step stats configs E S \<subseteq> S"
  shows "earned stats configs E \<subseteq> S"
  unfolding earned_def using assms by (rule lfp_lowerbound)

section \<open>The loop meets the specification\<close>

definition broken_throw :: "user_stats \<Rightarrow> achievement_config list \<Rightarrow> unlock_run \<Rightarrow> bool" where
  "broken_throw stats configs run \<longleftrightarrow>
     (\<forall>c \<in> set configs. ac_id c \<in> brokenAchievementIds run \<longrightarrow>
        (\<exists>e. evaluate (ac_rule c) (stats_context stats (existingAchievementIds run)) = Inl e))"

lemma throw_persists:
  assumes "evaluate j (stats_context stats S) = Inl e" and "S \<subseteq> S'"
  shows "evaluate j (stats_context stats S') = Inl e"
  using evaluate_grows [OF assms(2), of j stats] assms(1) by simp

lemma unlock_one_broken:
  assumes "distinct (map ac_id configs)" and "c \<in> set configs" and "broken_throw stats configs run"
  shows "broken_throw stats configs (unlock_one rnd now event stats c run)"
proof -
  let ?run = "unlock_one rnd now event stats c run"
  have grows: "existingAchievementIds run \<subseteq> existingAchievementIds ?run" by (rule unlock_one_ids)
  have new: "d = c \<and> (\<exists>e. evaluate (ac_rule c) (stats_context stats (existingAchievementIds run)) = Inl e)"
    if "d \<in> set configs" "ac_id d \<in> brokenAchievementIds ?run" "ac_id d \<notin> brokenAchievementIds run" for d
    using that assms(1,2)
    by (auto simp: unlock_one_def Let_def distinct_map inj_on_def split: sum.splits if_splits)
  show ?thesis
    unfolding broken_throw_def
  proof (intro ballI impI)
    fix d assume d: "d \<in> set configs" "ac_id d \<in> brokenAchievementIds ?run"
    then obtain e where "evaluate (ac_rule d) (stats_context stats (existingAchievementIds run)) = Inl e"
      using new [OF d] assms(3) by (cases "ac_id d \<in> brokenAchievementIds run") (auto simp: broken_throw_def)
    then show "\<exists>e. evaluate (ac_rule d) (stats_context stats (existingAchievementIds ?run)) = Inl e"
      using throw_persists [OF _ grows] by blast
  qed
qed

lemma unlock_one_sound:
  assumes "c \<in> configs" and "existingAchievementIds run \<subseteq> earned stats configs E"
  shows "existingAchievementIds (unlock_one rnd now event stats c run) \<subseteq> earned stats configs E"
  using assms earned_step [OF assms]
  by (auto simp: unlock_one_def Let_def split: sum.splits if_splits)

text \<open>After a pass that unlocked nothing, nothing is left to unlock except behind rules that throw.\<close>

definition settled_for :: "user_stats \<Rightarrow> unlock_run \<Rightarrow> achievement_config \<Rightarrow> bool" where
  "settled_for stats run c \<longleftrightarrow>
     ac_id c \<in> existingAchievementIds run \<or> ac_id c \<in> brokenAchievementIds run \<or>
     evaluate (ac_rule c) (stats_context stats (existingAchievementIds run)) = Inr False"

lemma unlock_one_settles:
  assumes "\<not> unlockedInPass (unlock_one rnd now event stats c run)"
  shows "existingAchievementIds (unlock_one rnd now event stats c run) = existingAchievementIds run
    \<and> brokenAchievementIds run \<subseteq> brokenAchievementIds (unlock_one rnd now event stats c run)
    \<and> settled_for stats (unlock_one rnd now event stats c run) c \<and> \<not> unlockedInPass run"
  using assms by (auto simp: unlock_one_def settled_for_def Let_def split: sum.splits if_splits)

lemma unlock_pass_settles:
  assumes "\<not> unlockedInPass (unlock_pass rnd now event stats cs run)"
  shows "existingAchievementIds (unlock_pass rnd now event stats cs run) = existingAchievementIds run
    \<and> brokenAchievementIds run \<subseteq> brokenAchievementIds (unlock_pass rnd now event stats cs run)
    \<and> (\<forall>c \<in> set cs. settled_for stats (unlock_pass rnd now event stats cs run) c) \<and> \<not> unlockedInPass run"
  using assms
proof (induction cs arbitrary: run)
  case Nil
  then show ?case by (simp add: unlock_pass_def)
next
  case (Cons c cs)
  let ?one = "unlock_one rnd now event stats c run"
  let ?run = "unlock_pass rnd now event stats cs ?one"
  have p: "unlock_pass rnd now event stats (c # cs) run = ?run" by (simp add: unlock_pass_def)
  then have rest: "existingAchievementIds ?run = existingAchievementIds ?one
    \<and> brokenAchievementIds ?one \<subseteq> brokenAchievementIds ?run
    \<and> (\<forall>c \<in> set cs. settled_for stats ?run c) \<and> \<not> unlockedInPass ?one"
    using Cons.IH [of ?one] Cons.prems by simp
  moreover have "settled_for stats ?run c"
    using rest unlock_one_settles [of rnd now event stats c run] by (auto simp: settled_for_def)
  ultimately show ?case
    unfolding p using unlock_one_settles [of rnd now event stats c run] by auto
qed

lemma unlock_pass_keeps:
  assumes "distinct (map ac_id configs)" and "set cs \<subseteq> set configs" and "broken_throw stats configs run"
    and "existingAchievementIds run \<subseteq> earned stats (set configs) E"
  shows "broken_throw stats configs (unlock_pass rnd now event stats cs run)
    \<and> existingAchievementIds (unlock_pass rnd now event stats cs run) \<subseteq> earned stats (set configs) E"
  using assms(2-)
proof (induction cs arbitrary: run)
  case Nil
  then show ?case by (simp add: unlock_pass_def)
next
  case (Cons c cs)
  have "broken_throw stats configs (unlock_one rnd now event stats c run)"
    "existingAchievementIds (unlock_one rnd now event stats c run) \<subseteq> earned stats (set configs) E"
    using unlock_one_broken [OF assms(1)] unlock_one_sound Cons.prems by auto
  from Cons.IH [OF _ this] Cons.prems(1) show ?case by (simp add: unlock_pass_def)
qed

lemma unlock_loop_earned:
  assumes "distinct (map ac_id configs)" and "broken_throw stats configs run"
    and "E \<subseteq> existingAchievementIds run" and "existingAchievementIds run \<subseteq> earned stats (set configs) E"
  shows "existingAchievementIds (unlock_loop rnd now event stats configs run) = earned stats (set configs) E"
  using assms
proof (induction rnd now event stats configs run rule: unlock_loop.induct)
  case (1 rnd now event stats configs run)
  let ?start = "run\<lparr>unlockedInPass := False\<rparr>"
  let ?run = "unlock_pass rnd now event stats configs ?start"
  have start: "broken_throw stats configs ?start" "existingAchievementIds ?start \<subseteq> earned stats (set configs) E"
    using "1.prems"(2,4) by (simp_all add: broken_throw_def)
  note keeps = unlock_pass_keeps [OF "1.prems"(1) subset_refl start, of rnd now event]
  have E: "E \<subseteq> existingAchievementIds ?run"
    using "1.prems"(3) unlock_pass_ids [of ?start rnd now event stats configs] by auto
  show ?case
  proof (cases "unlockedInPass ?run")
    case True
    then show ?thesis
      using "1.IH" [OF refl True "1.prems"(1)] keeps E
      by (simp add: unlock_loop.simps [of _ _ _ _ _ run] Let_def)
  next
    case False
    have "unlock_step stats (set configs) E (existingAchievementIds ?run) \<subseteq> existingAchievementIds ?run"
      using E keeps unlock_pass_settles [OF False]
      by (fastforce simp: unlock_step_def settled_for_def broken_throw_def)
    then have "earned stats (set configs) E \<subseteq> existingAchievementIds ?run" by (rule earned_least)
    with keeps False show ?thesis by (auto simp: unlock_loop.simps [of _ _ _ _ _ run] Let_def)
  qed
qed

end
