(* ===== verification/Loyalty_Handler.thy ===== *)
theory Loyalty_Handler
  imports Loyalty_Unlocks
begin

text \<open>
  What one purchase does to the loyalty database, as lists of rows added to the tables, and the
  properties of the handler that follow: the unlocked set, the badges, the events, the counters and
  the effect of repeated delivery.
\<close>

section \<open>Badges added by a run\<close>

primrec badge_rows :: "random_source \<Rightarrow> int \<Rightarrow> string \<Rightarrow> nat \<Rightarrow> badge_config list \<Rightarrow> user_badge list" where
  "badge_rows rnd now u n [] = []"
| "badge_rows rnd now u n (b # bs) = badge_row rnd now u n (bc_id b) # badge_rows rnd now u (n + 2) bs"

primrec badge_events ::
  "random_source \<Rightarrow> int \<Rightarrow> purchase_completed_event \<Rightarrow> nat \<Rightarrow> badge_config list \<Rightarrow> bumpa_domain_event list" where
  "badge_events rnd now event n [] = []"
| "badge_events rnd now event n (b # bs) = badge_event rnd now event n b # badge_events rnd now event (n + 2) bs"

lemma badge_rows_badges [simp]: "map ub_badgeId (badge_rows rnd now u n bs) = map bc_id bs"
  by (induction bs arbitrary: n) (auto simp: badge_row_def)

lemma badge_rows_user: "r \<in> set (badge_rows rnd now u n bs) \<Longrightarrow> ub_userId r = u"
  by (induction bs arbitrary: n) (auto simp: badge_row_def)

lemma fold_unlock_badge:
  "fold (unlock_badge rnd now event) bs run =
     run\<lparr>br_rows := fold (upsert ub_id) (badge_rows rnd now (pc_userId (payload event)) (br_draws run) bs) (br_rows run),
         br_outbox := fold (upsert ob_id)
           (map (\<lambda>e. outbox_row e now) (badge_events rnd now event (br_draws run) bs)) (br_outbox run),
         br_eventIds := br_eventIds run @ map bumpa_event_id (badge_events rnd now event (br_draws run) bs),
         br_draws := br_draws run + 2 * length bs\<rparr>"
  by (induction bs arbitrary: run) (auto simp: unlock_badge_def Let_def)

definition due_badges :: "loyalty_orders \<Rightarrow> string \<Rightarrow> loyalty_db \<Rightarrow> badge_config list" where
  "due_badges od u db =
     filter (\<lambda>b. bc_id b \<notin> ub_badgeId ` set (badges_of u db) \<and>
               meetsBadgeRequirement b (int (length (achievements_of u db)))
                 (ua_achievementId ` set (achievements_of u db)))
       (by_badge_sort od (active_badges db))"

lemma unlockBadges_eq:
  "unlockBadges rnd od now event db =
     (let u = pc_userId (payload event); n = ld_draws db; bs = due_badges od u db in
      (map bumpa_event_id (badge_events rnd now event n bs),
       db\<lparr>ld_user_badges := fold (upsert ub_id) (badge_rows rnd now u n bs) (ld_user_badges db),
          ld_outbox := fold (upsert ob_id)
            (map (\<lambda>e. outbox_row e now) (badge_events rnd now event n bs)) (ld_outbox db),
          ld_draws := n + 2 * length bs\<rparr>))"
  by (simp add: unlockBadges_def Let_def fold_if_filter fold_unlock_badge due_badges_def)

section \<open>Fresh identifiers\<close>

text \<open>
  The assumption on the random source: the identifiers drawn between two positions are distinct and
  not in use. (A row saved under an identifier in use would overwrite that row.)
\<close>

definition fresh_draws :: "random_source \<Rightarrow> nat \<Rightarrow> nat \<Rightarrow> loyalty_db \<Rightarrow> bool" where
  "fresh_draws rnd n n' db \<longleftrightarrow> inj_on rnd {n..<n'} \<and>
     (\<forall>k \<in> {n..<n'}. createReadableId UserAchievementId (rnd k) \<notin> ua_id ` set (ld_user_achievements db)
        \<and> createReadableId UserBadgeId (rnd k) \<notin> ub_id ` set (ld_user_badges db)
        \<and> createReadableId EventId (rnd k) \<notin> ob_id ` set (ld_outbox db))"

lemma outbox_row_id [simp]: "ob_id (outbox_row e now) = bumpa_event_id e"
  by (simp add: outbox_row_def)

definition drawn_ids :: "entity_id_prefix \<Rightarrow> random_source \<Rightarrow> nat \<Rightarrow> nat \<Rightarrow> string list" where
  "drawn_ids prefix rnd n m = map (\<lambda>k. createReadableId prefix (rnd (n + 2 * k))) [0..<m]"

lemma drawn_ids_Suc:
  "drawn_ids prefix rnd n (Suc m) = createReadableId prefix (rnd n) # drawn_ids prefix rnd (n + 2) m"
  by (simp add: drawn_ids_def upt_conv_Cons map_Suc_upt [symmetric] comp_def del: upt_Suc)

lemma drawn_ids_append:
  "drawn_ids prefix rnd n m @ drawn_ids prefix rnd (n + 2 * m) m' = drawn_ids prefix rnd n (m + m')"
proof (induction m arbitrary: n)
  case 0
  then show ?case by (simp add: drawn_ids_def)
next
  case (Suc m)
  from Suc.IH [of "n + 2"] show ?case by (simp add: drawn_ids_Suc add.assoc)
qed

lemma row_ids:
  "map ua_id (unlock_rows rnd now u n cs) = drawn_ids UserAchievementId rnd n (length cs)"
  by (induction cs arbitrary: n) (simp_all add: drawn_ids_Suc unlock_row_def, simp add: drawn_ids_def)

lemma badge_row_ids: "map ub_id (badge_rows rnd now u n bs) = drawn_ids UserBadgeId rnd n (length bs)"
  by (induction bs arbitrary: n) (simp_all add: drawn_ids_Suc badge_row_def, simp add: drawn_ids_def)

lemma event_ids:
  "map bumpa_event_id (unlock_events rnd now event n cs) = drawn_ids EventId rnd (Suc n) (length cs)"
  by (induction cs arbitrary: n) (simp_all add: drawn_ids_Suc achievement_event_def, simp add: drawn_ids_def)

lemma badge_event_ids:
  "map bumpa_event_id (badge_events rnd now event n bs) = drawn_ids EventId rnd (Suc n) (length bs)"
  by (induction bs arbitrary: n) (simp_all add: drawn_ids_Suc badge_event_def, simp add: drawn_ids_def)

lemmas new_ids = row_ids badge_row_ids event_ids badge_event_ids

lemma drawn_ids_distinct:
  assumes "inj_on rnd {a..<b}" and "a \<le> n" and "m = 0 \<or> n + 2 * m \<le> Suc b"
  shows "distinct (drawn_ids prefix rnd n m)"
  unfolding drawn_ids_def distinct_map
proof (intro conjI inj_onI)
  fix k l assume k: "k \<in> set [0..<m]" and l: "l \<in> set [0..<m]"
    and eq: "createReadableId prefix (rnd (n + 2 * k)) = createReadableId prefix (rnd (n + 2 * l))"
  from eq have "rnd (n + 2 * k) = rnd (n + 2 * l)" by (simp add: createReadableId_inj)
  then have "n + 2 * k = n + 2 * l"
    by (rule inj_onD [OF assms(1)]) (use k l assms(2,3) in auto)
  then show "k = l" by simp
qed simp

lemma drawn_ids_unused:
  assumes "\<And>k. k \<in> {a..<b} \<Longrightarrow> createReadableId prefix (rnd k) \<notin> S"
    and "a \<le> n" and "m = 0 \<or> n + 2 * m \<le> Suc b"
  shows "set (drawn_ids prefix rnd n m) \<inter> S = {}"
proof -
  have "createReadableId prefix (rnd (n + 2 * k)) \<notin> S" if "k < m" for k
    using that assms(2,3) by (intro assms(1)) auto
  then show ?thesis by (auto simp: drawn_ids_def)
qed

section \<open>The rows a transaction adds\<close>

definition after_counting :: "purchase_completed_event \<Rightarrow> loyalty_db \<Rightarrow> user_stats" where
  "after_counting event db = count_purchase (payload event) (stats_of (pc_userId (payload event)) (ld_stats db))"

text \<open>The transaction in closed form, for the achievements \<open>cs\<close> and badges \<open>bs\<close> it unlocks.\<close>

definition rows_added ::
  "random_source \<Rightarrow> int \<Rightarrow> purchase_completed_event \<Rightarrow> achievement_config list \<Rightarrow> badge_config list
     \<Rightarrow> loyalty_db \<Rightarrow> loyalty_db" where
  "rows_added rnd now event cs bs db =
     (let u = pc_userId (payload event); n = ld_draws db; m = n + 2 * length cs in
      db\<lparr>ld_projections := upsert_projection (pc_user (payload event)) (ld_projections db),
         ld_stats := upsert st_userId (after_counting event db) (ld_stats db),
         ld_user_achievements := ld_user_achievements db @ unlock_rows rnd now u n cs,
         ld_user_badges := ld_user_badges db @ badge_rows rnd now u m bs,
         ld_processed := upsert pe_eventId \<lparr>pe_eventId = eventId event, pe_consumer = LoyaltyService\<rparr> (ld_processed db),
         ld_outbox := ld_outbox db @ map (\<lambda>e. outbox_row e now)
           (unlock_events rnd now event n cs @ badge_events rnd now event m bs),
         ld_draws := m + 2 * length bs\<rparr>)"

lemma fold_rows_fresh:
  assumes "fresh_draws rnd (ld_draws db) (ld_draws db + 2 * length cs + 2 * length bs) db"
  defines "n \<equiv> ld_draws db" and "m \<equiv> ld_draws db + 2 * length cs"
  shows "fold (upsert ua_id) (unlock_rows rnd now u n cs) (ld_user_achievements db)
      = ld_user_achievements db @ unlock_rows rnd now u n cs"
    and "fold (upsert ub_id) (badge_rows rnd now u m bs) (ld_user_badges db)
      = ld_user_badges db @ badge_rows rnd now u m bs"
    and "fold (upsert ob_id) (map (\<lambda>e. outbox_row e now) (badge_events rnd now event m bs))
        (fold (upsert ob_id) (map (\<lambda>e. outbox_row e now) (unlock_events rnd now event n cs)) (ld_outbox db))
      = ld_outbox db @ map (\<lambda>e. outbox_row e now) (unlock_events rnd now event n cs @ badge_events rnd now event m bs)"
proof -
  let ?b = "m + 2 * length bs"
  have inj: "inj_on rnd {n..<?b}" using assms(1) by (simp add: fresh_draws_def n_def m_def)
  have used: "createReadableId UserAchievementId (rnd k) \<notin> ua_id ` set (ld_user_achievements db)"
    "createReadableId UserBadgeId (rnd k) \<notin> ub_id ` set (ld_user_badges db)"
    "createReadableId EventId (rnd k) \<notin> ob_id ` set (ld_outbox db)" if "k \<in> {n..<?b}" for k
    using that assms(1) by (auto simp: fresh_draws_def n_def m_def)
  show "fold (upsert ua_id) (unlock_rows rnd now u n cs) (ld_user_achievements db)
      = ld_user_achievements db @ unlock_rows rnd now u n cs"
  proof (rule fold_upsert_fresh)
    show "distinct (map ua_id (unlock_rows rnd now u n cs))"
      unfolding new_ids by (rule drawn_ids_distinct [OF inj]) (auto simp: n_def m_def)
    show "ua_id ` set (unlock_rows rnd now u n cs) \<inter> ua_id ` set (ld_user_achievements db) = {}"
      unfolding list.set_map [symmetric] new_ids
      by (rule drawn_ids_unused [OF used(1) [folded list.set_map]]) (auto simp: n_def m_def)
  qed
  show "fold (upsert ub_id) (badge_rows rnd now u m bs) (ld_user_badges db)
      = ld_user_badges db @ badge_rows rnd now u m bs"
  proof (rule fold_upsert_fresh)
    show "distinct (map ub_id (badge_rows rnd now u m bs))"
      unfolding new_ids by (rule drawn_ids_distinct [OF inj]) (auto simp: n_def m_def)
    show "ub_id ` set (badge_rows rnd now u m bs) \<inter> ub_id ` set (ld_user_badges db) = {}"
      unfolding list.set_map [symmetric] new_ids
      by (rule drawn_ids_unused [OF used(2) [folded list.set_map]]) (auto simp: n_def m_def)
  qed
  let ?es = "unlock_events rnd now event n cs @ badge_events rnd now event m bs"
  have ids: "map ob_id (map (\<lambda>e. outbox_row e now) ?es) = drawn_ids EventId rnd (Suc n) (length cs + length bs)"
    using drawn_ids_append [of EventId rnd "Suc n" "length cs" "length bs"]
    by (simp add: new_ids comp_def n_def m_def)
  have "fold (upsert ob_id) (map (\<lambda>e. outbox_row e now) ?es) (ld_outbox db)
      = ld_outbox db @ map (\<lambda>e. outbox_row e now) ?es"
  proof (rule fold_upsert_fresh)
    show "distinct (map ob_id (map (\<lambda>e. outbox_row e now) ?es))"
      unfolding ids by (rule drawn_ids_distinct [OF inj]) (auto simp: n_def m_def)
    show "ob_id ` set (map (\<lambda>e. outbox_row e now) ?es) \<inter> ob_id ` set (ld_outbox db) = {}"
      unfolding list.set_map [symmetric] ids
      by (rule drawn_ids_unused [OF used(3) [folded list.set_map]]) (auto simp: n_def m_def)
  qed
  then show "fold (upsert ob_id) (map (\<lambda>e. outbox_row e now) (badge_events rnd now event m bs))
        (fold (upsert ob_id) (map (\<lambda>e. outbox_row e now) (unlock_events rnd now event n cs)) (ld_outbox db))
      = ld_outbox db @ map (\<lambda>e. outbox_row e now) ?es"
    by simp
qed

definition achievement_ids :: "string \<Rightarrow> loyalty_db \<Rightarrow> string set" where
  "achievement_ids u db = ua_achievementId ` set (achievements_of u db)"

definition badge_ids :: "string \<Rightarrow> loyalty_db \<Rightarrow> string set" where
  "badge_ids u db = ub_badgeId ` set (badges_of u db)"

definition initial_run :: "string \<Rightarrow> loyalty_db \<Rightarrow> unlock_run" where
  "initial_run u db =
     \<lparr>existingAchievementIds = achievement_ids u db, brokenAchievementIds = {}, unlockedInPass = False,
      ur_rows = ld_user_achievements db, ur_outbox = ld_outbox db, ur_eventIds = [], ur_draws = ld_draws db\<rparr>"

lemma initial_run_earned:
  assumes "sql_orders od" and "distinct (map ac_id (ld_achievements db))"
  shows "existingAchievementIds (unlock_loop rnd now event stats (by_group od (active_achievements db)) (initial_run u db))
    = earned stats (set (active_achievements db)) (achievement_ids u db)"
proof -
  let ?cs = "by_group od (active_achievements db)"
  have "distinct (map ac_id (active_achievements db))"
    using assms(2) by (simp add: active_achievements_def distinct_map_filter)
  then have "distinct (map ac_id ?cs)" by (rule sql_orders_distinct(1) [OF assms(1)])
  then have "existingAchievementIds (unlock_loop rnd now event stats ?cs (initial_run u db))
      = earned stats (set ?cs) (achievement_ids u db)"
    by (rule unlock_loop_earned) (simp_all add: broken_throw_def initial_run_def earned_base)
  then show ?thesis by (simp add: sql_orders_set(1) [OF assms(1)])
qed

lemma transaction_rows:
  assumes od: "sql_orders od" and pk: "distinct (map ac_id (ld_achievements db))"
    and tx: "purchase_transaction rnd od now event db = Inr (ids, db')"
    and fresh: "fresh_draws rnd (ld_draws db) (ld_draws db') db"
  defines "u \<equiv> pc_userId (payload event)" and "stats \<equiv> after_counting event db"
  obtains cs bs where "db' = rows_added rnd now event cs bs db"
    and "ids = map bumpa_event_id (unlock_events rnd now event (ld_draws db) cs
                 @ badge_events rnd now event (ld_draws db + 2 * length cs) bs)"
    and "set cs \<subseteq> set (active_achievements db)" and "distinct (map ac_id cs)"
    and "ac_id ` set cs \<inter> achievement_ids u db = {}"
    and "achievement_ids u db \<union> ac_id ` set cs
           = earned stats (set (active_achievements db)) (achievement_ids u db)"
    and "bs = due_badges od u (db\<lparr>ld_user_achievements :=
                 ld_user_achievements db @ unlock_rows rnd now u (ld_draws db) cs\<rparr>)"
proof -
  let ?run = "unlock_loop rnd now event stats (by_group od (active_achievements db)) (initial_run u db)"
  obtain cs where cs: "set cs \<subseteq> set (active_achievements db)" "unlocked_by rnd now event cs (initial_run u db) ?run"
    using unlock_loop_effect [of "by_group od (active_achievements db)"] unfolding sql_orders_set(1) [OF od] by blast
  let ?db1 = "db\<lparr>ld_projections := upsert_projection (pc_user (payload event)) (ld_projections db),
     ld_stats := upsert st_userId stats (ld_stats db), ld_user_achievements := ur_rows ?run,
     ld_outbox := ur_outbox ?run, ld_draws := ur_draws ?run\<rparr>"
  let ?bs = "due_badges od u ?db1"
  have eff: "ur_eventIds ?run = map bumpa_event_id (unlock_events rnd now event (ld_draws db) cs)"
    "ur_draws ?run = ld_draws db + 2 * length cs"
    "ur_rows ?run = fold (upsert ua_id) (unlock_rows rnd now u (ld_draws db) cs) (ld_user_achievements db)"
    "ur_outbox ?run = fold (upsert ob_id) (map (\<lambda>e. outbox_row e now) (unlock_events rnd now event (ld_draws db) cs)) (ld_outbox db)"
    "distinct (map ac_id cs)" "ac_id ` set cs \<inter> achievement_ids u db = {}"
    "existingAchievementIds ?run = achievement_ids u db \<union> ac_id ` set cs"
    using cs(2) by (auto simp: unlocked_by_def initial_run_def u_def)
  have tx': "unlockBadges rnd od now event ?db1 = (badgeIds, db2) \<Longrightarrow>
      ids = ur_eventIds ?run @ badgeIds \<and> db' = db2\<lparr>ld_processed := upsert pe_eventId
        \<lparr>pe_eventId = eventId event, pe_consumer = LoyaltyService\<rparr> (ld_processed db2)\<rparr>" for badgeIds db2
    using tx
    by (simp add: purchase_transaction_def Let_def stats_def after_counting_def u_def initial_run_def
        achievement_ids_def split: if_splits)
  from unlockBadges_eq [of rnd od now event ?db1, unfolded Let_def]
  have res: "ids = ur_eventIds ?run @ map bumpa_event_id (badge_events rnd now event (ur_draws ?run) ?bs)"
    "db' = ?db1\<lparr>ld_user_badges := fold (upsert ub_id) (badge_rows rnd now u (ur_draws ?run) ?bs) (ld_user_badges db),
        ld_outbox := fold (upsert ob_id) (map (\<lambda>e. outbox_row e now) (badge_events rnd now event (ur_draws ?run) ?bs)) (ur_outbox ?run),
        ld_draws := ur_draws ?run + 2 * length ?bs,
        ld_processed := upsert pe_eventId \<lparr>pe_eventId = eventId event, pe_consumer = LoyaltyService\<rparr> (ld_processed db)\<rparr>"
    using tx' by (simp_all add: u_def)
  have "fresh_draws rnd (ld_draws db) (ld_draws db + 2 * length cs + 2 * length ?bs) db"
    using fresh res(2) eff(2) by simp
  note appended = fold_rows_fresh(1,2) [OF this, of now u] fold_rows_fresh(3) [OF this, of now event]
  have "db' = rows_added rnd now event cs ?bs db"
    using res(2) appended eff(2-4)
    by (simp add: rows_added_def Let_def u_def stats_def)
  moreover have "?bs = due_badges od u (db\<lparr>ld_user_achievements :=
      ld_user_achievements db @ unlock_rows rnd now u (ld_draws db) cs\<rparr>)"
    using appended(1) eff(3) by (simp add: due_badges_def badges_of_def achievements_of_def active_badges_def)
  moreover have "achievement_ids u db \<union> ac_id ` set cs = earned stats (set (active_achievements db)) (achievement_ids u db)"
    using initial_run_earned [OF od pk] eff(7) by metis
  ultimately show thesis using that cs(1) eff(1,2,5,6) res(1) by simp
qed

end
