(* ===== verification/Consumer.thy ===== *)
theory Consumer
  imports Broker
begin

text \<open>
  The contract between the broker and the services: a message may be delivered more than once, so a
  handler remembers what it has handled. \<open>idempotent_consumer\<close> states what the loyalty and the
  cashback handler promise (an event that is done is skipped, success makes it done, done stays done),
  \<open>atomic_consumer\<close> adds that a failure leaves the state, and both derive what their clients rely on.
\<close>

fun handle_all :: "('e \<Rightarrow> 's \<Rightarrow> string option \<times> 's) \<Rightarrow> 'e list \<Rightarrow> 's \<Rightarrow> 's" where
  "handle_all h [] s = s"
| "handle_all h (e # es) s = handle_all h es (snd (h e s))"

lemma handle_all_append: "handle_all h (es @ fs) s = handle_all h fs (handle_all h es s)"
  by (induction es arbitrary: s) auto

locale idempotent_consumer =
  fixes handle :: "'e \<Rightarrow> 's \<Rightarrow> string option \<times> 's"
    and is_done :: "'e \<Rightarrow> 's \<Rightarrow> bool"
  assumes done_skips: "is_done e s \<Longrightarrow> handle e s = (None, s)"
    and success_done: "handle e s = (None, s') \<Longrightarrow> is_done e s'"
    and done_stays: "is_done e s \<Longrightarrow> is_done e (snd (handle e' s))"
begin

lemma done_stays_all: "is_done e s \<Longrightarrow> is_done e (handle_all handle es s)"
  by (induction es arbitrary: s) (auto simp: done_stays)

lemma success_fst: "fst (handle e s) = None \<Longrightarrow> is_done e (snd (handle e s))"
  using success_done by (metis prod.collapse)

text \<open>Once handled, a later copy of the event can be dropped from the sequence of deliveries.\<close>

lemma duplicate_dropped:
  assumes "fst (handle e (handle_all handle xs s)) = None"
  shows "handle_all handle (xs @ e # ys @ e # zs) s = handle_all handle (xs @ e # ys @ zs) s"
proof -
  have "is_done e (handle_all handle (xs @ e # ys) s)"
    using success_fst [OF assms] done_stays_all by (simp add: handle_all_append)
  then show ?thesis by (simp add: handle_all_append done_skips)
qed

end

text \<open>A consumer whose failures leave no trace, as when all its work is one database transaction.\<close>

locale atomic_consumer = idempotent_consumer +
  assumes failure_keeps: "handle e s = (Some err, s') \<Longrightarrow> s' = s"
begin

lemma runs_failed: "handler_fails handle e s \<Longrightarrow> after_runs handle e n s = s"
proof (induction n)
  case (Suc n)
  then obtain err where "handle e s = (Some err, s)"
    using failure_keeps unfolding handler_fails_def by (metis not_None_eq prod.collapse)
  with Suc show ?case by simp
qed simp

text \<open>
  A message is either consumed by one successful run, or fails every run and is dead-lettered with
  the consumer's state untouched.
\<close>

lemma delivered_once_or_untouched:
  assumes "parse (content m) = Some e" and "retry_header m = None"
  shows "delivery parse handle queue m s =
    (if handler_fails handle e s
     then (DeadLettered, [1000, 2000, 4000, 8000, 16000], 6, s)
     else (Consumed, [], 1, snd (handle e s)))"
proof -
  have c: "readRetryCount m = 0" using assms(2) by (simp add: readRetryCount_def)
  show ?thesis
  proof (cases "handler_fails handle e s")
    case True
    then have "handler_fails handle e (after_runs handle e n s)" for n by (simp add: runs_failed)
    with delivery_outcome [of parse m e 5 handle s queue] assms(1) c
    have "delivery parse handle queue m s = (DeadLettered, map redelivery_delay [0..<5], 6, after_runs handle e 5 (snd (handle e s)))"
      by (auto simp: MAX_RETRY_ATTEMPTS_def)
    with True show ?thesis using first_delays [of 5] runs_failed [OF True, of "Suc 5", unfolded after_runs.simps(2)] by simp
  next
    case False
    then obtain s' where "handle e s = (None, s')"
      unfolding handler_fails_def by (metis prod.collapse)
    with False assms(1) show ?thesis by (simp add: delivery_success)
  qed
qed

end

end
