(* ===== verification/Outbox_Delivery.thy ===== *)
theory Outbox_Delivery
  imports Outbox
begin

text \<open>
  What the outbox promises its clients, over the definitions of \<open>Outbox\<close>: exclusive claims (an
  interpretation of \<open>conditional_claim\<close>), at most one confirmed publish per event in every run of the
  step relation, eventual publication in creation order, bounded retries, the fate of a row whose
  publisher died, and the safety of the Redis lock.
\<close>

section \<open>Claims\<close>

definition publishable :: "string \<Rightarrow> outbox \<Rightarrow> bool" where
  "publishable i t \<longleftrightarrow> exists_row (\<lambda>r. ob_id r = i \<and> ob_status r = OutboxPending) t"

interpretation outbox_claim: conditional_claim claimForPublishing publishable
proof
  show "fst (claimForPublishing i t) \<longleftrightarrow> publishable i t" for i t
    by (simp add: claimForPublishing_def publishable_def exists_row_def affected_pos Let_def)
  show "\<not> publishable i (snd (claimForPublishing i t))" for i t
    by (simp add: claimForPublishing_def publishable_def exists_row_def Let_def update_where_gone)
  show "snd (claimForPublishing i t) = t" if "\<not> publishable i t" for i t
    using that by (simp add: claimForPublishing_def publishable_def exists_row_def update_where_none Let_def)
qed

text \<open>
  However many processes claim one outbox row, exactly one of them wins if the row is pending,
  and none otherwise; the losers leave the table as the winner left it.
\<close>

theorem outbox_claim_exclusive:
  "fst (attempts claimForPublishing (Suc n) i t) = publishable i t # replicate n False"
proof (cases "publishable i t")
  case True
  then show ?thesis using outbox_claim.exactly_one_wins [of i t "Suc n"] by simp
next
  case False
  then show ?thesis using outbox_claim.attempts_lost [of i t "Suc n"] by simp
qed

section \<open>At most one publish per event\<close>

lemma outbox_ok_steps:
  assumes "(outbox_step opts confirm ord)\<^sup>*\<^sup>* (t, b) (t', b')"
    and "orders le ord" and "0 < maxAttempts opts" and "outbox_ok opts t b"
  shows "outbox_ok opts t' b'"
  using assms(1)
proof (induction rule: rtranclp_induct2)
  case refl
  then show ?case using assms by simp
next
  case (step t1 b1 t2 b2)
  then show ?case using outbox_ok_step assms by blast
qed


section \<open>Eventual publication\<close>

lemma publish_confirmed:
  assumes "bus_open b" and "\<And>n. confirm n = None"
  shows "publish confirm e b = (None, b\<lparr>bus_publishes := Suc (bus_publishes b), bus_log := bus_log b @ [e]\<rparr>)"
  using assms by (simp add: publish_def)

lemma loop_confirmed:
  assumes "\<And>n. confirm n = None" and "bus_open b" and "distinct (map ob_id t)"
    and "distinct (map ob_id rs)" and "\<forall>r \<in> set rs. r \<in> set t \<and> ob_status r = OutboxPending"
  shows "publish_loop opts confirm now rs (t, b)
    = (update_where (\<lambda>x. ob_id x \<in> ob_id ` set rs) (settled opts now None) t,
       b\<lparr>bus_publishes := bus_publishes b + length rs, bus_log := bus_log b @ map ob_payload rs\<rparr>)"
  using assms(2-5)
proof (induction rs arbitrary: t b)
  case Nil
  then show ?case by (simp add: update_where_def)
next
  case (Cons r rs)
  let ?t = "set_row r (settled opts now None r) t"
  let ?b = "b\<lparr>bus_publishes := Suc (bus_publishes b), bus_log := bus_log b @ [ob_payload r]\<rparr>"
  have ids: "map ob_id ?t = map ob_id t" by (rule set_row_ids) simp
  have "\<forall>x \<in> set rs. x \<in> set ?t \<and> ob_status x = OutboxPending"
    using Cons.prems(3,4) by (auto intro!: set_row_other simp: rev_image_eqI)
  then have IH: "publish_loop opts confirm now rs (?t, ?b)
    = (update_where (\<lambda>x. ob_id x \<in> ob_id ` set rs) (settled opts now None) ?t,
       ?b\<lparr>bus_publishes := bus_publishes ?b + length rs, bus_log := bus_log ?b @ map ob_payload rs\<rparr>)"
    using Cons.prems ids by (intro Cons.IH) auto
  have "publish_loop opts confirm now (r # rs) (t, b) = publish_loop opts confirm now rs (?t, ?b)"
    using Cons.prems publish_confirmed [OF Cons.prems(1) assms(1)]
    by (intro publish_loop_Cons) auto
  moreover have "update_where (\<lambda>x. ob_id x \<in> ob_id ` set rs) (settled opts now None) ?t
    = update_where (\<lambda>x. ob_id x \<in> ob_id ` set (r # rs)) (settled opts now None) t"
    using Cons.prems row_unique [OF Cons.prems(2)] by (auto simp: update_where_def image_iff)
  ultimately show ?case using IH by simp
qed

fun ticks ::
  "outbox_options \<Rightarrow> (nat \<Rightarrow> string option) \<Rightarrow> (outbox \<Rightarrow> outbox) \<Rightarrow> int list \<Rightarrow> outbox \<times> bus \<Rightarrow> outbox \<times> bus" where
  "ticks opts confirm ord [] s = s"
| "ticks opts confirm ord (now # nows) s =
     ticks opts confirm ord nows (publishPendingBatch opts confirm ord now s)"

lemma pending_after:
  "pending_rows (update_where (\<lambda>x. ob_id x \<in> I) (settled opts now None) t)
     = filter (\<lambda>x. ob_id x \<notin> I) (pending_rows t)"
  by (induction t) (auto simp: pending_rows_def settled_def)

lemma pending_after_batch:
  assumes "orders le ord" and "distinct (map ob_id t)"
  shows "mset (filter (\<lambda>x. ob_id x \<notin> ob_id ` set (take n (ord (pending_rows t)))) (pending_rows t))
       = mset (drop n (ord (pending_rows t)))"
proof -
  let ?p = "ord (pending_rows t)"
  have m: "mset ?p = mset (pending_rows t)" using assms(1) by (simp add: orders_def)
  have "distinct (map ob_id ?p)"
    using batch_rows(1) [OF assms, of "length ?p"] by simp
  then have "distinct (map ob_id (take n ?p @ drop n ?p))" by simp
  then have "filter (\<lambda>x. ob_id x \<notin> ob_id ` set (take n ?p)) (take n ?p @ drop n ?p) = drop n ?p"
    by (simp only: filter_append distinct_append map_append) (auto simp: filter_id_conv)
  then show ?thesis by (metis m append_take_drop_id mset_filter)
qed

lemma batch_confirmed:
  assumes "\<And>n. confirm n = None" and "orders oldest_first ord" and "distinct (map ob_id t)"
    and "bus_open b" and "publishPendingBatch opts confirm ord now (t, b) = (t', b')"
  shows "distinct (map ob_id t')" and "bus_open b'"
    and "mset (pending_rows t') = mset (drop (batchSize opts) (ord (pending_rows t)))"
    and "bus_log b' = bus_log b @ map ob_payload (take (batchSize opts) (ord (pending_rows t)))"
proof -
  let ?rs = "take (batchSize opts) (ord (pending_rows t))"
  have "publish_loop opts confirm now ?rs (t, b)
    = (update_where (\<lambda>x. ob_id x \<in> ob_id ` set ?rs) (settled opts now None) t,
       b\<lparr>bus_publishes := bus_publishes b + length ?rs, bus_log := bus_log b @ map ob_payload ?rs\<rparr>)"
    using batch_rows [OF assms(2,3)] assms by (intro loop_confirmed) auto
  then have t': "t' = update_where (\<lambda>x. ob_id x \<in> ob_id ` set ?rs) (settled opts now None) t"
    and b': "b' = b\<lparr>bus_publishes := bus_publishes b + length ?rs, bus_log := bus_log b @ map ob_payload ?rs\<rparr>"
    using assms(5) by (auto simp: publishPendingBatch_def)
  show "distinct (map ob_id t')" using assms(3) t' by (simp add: map_update_where)
  show "bus_open b'" using assms(4) b' by simp
  show "bus_log b' = bus_log b @ map ob_payload ?rs" using b' by simp
  show "mset (pending_rows t') = mset (drop (batchSize opts) (ord (pending_rows t)))"
    unfolding t' pending_after by (rule pending_after_batch [OF assms(2,3)])
qed

text \<open>
  C19. When the broker accepts what it is sent, enough ticks publish everything: if the pending rows fit
  into the batches of the ticks run, none is pending afterwards, and the broker has received exactly
  the pending events, each once, ordered by creation time across all batches.
\<close>

theorem outbox_ticks_drain:
  assumes "\<And>n. confirm n = None" and "orders oldest_first ord" and "distinct (map ob_id t)"
    and "bus_open b" and "length (pending_rows t) \<le> length nows * batchSize opts"
  shows "\<exists>t' b' rs. ticks opts confirm ord nows (t, b) = (t', b') \<and> pending_rows t' = []
    \<and> bus_log b' = bus_log b @ map ob_payload rs \<and> mset rs = mset (pending_rows t)
    \<and> sorted_wrt oldest_first rs"
  using assms(3-5)
proof (induction nows arbitrary: t b)
  case Nil
  then show ?case by simp
next
  case (Cons now nows)
  let ?p = "ord (pending_rows t)"
  have p: "mset ?p = mset (pending_rows t)" "sorted_wrt oldest_first ?p"
    using assms(2) by (auto simp: orders_def)
  obtain t1 b1 where s: "publishPendingBatch opts confirm ord now (t, b) = (t1, b1)" by fastforce
  note batch = batch_confirmed [OF assms(1,2) Cons.prems(1,2) s]
  have "length (pending_rows t1) = length (pending_rows t) - batchSize opts"
    using batch(3) p(1) by (metis length_drop size_mset)
  then have "length (pending_rows t1) \<le> length nows * batchSize opts" using Cons.prems(3) by simp
  from Cons.IH [OF batch(1,2) this] obtain t' b' rs where
    rs: "ticks opts confirm ord nows (t1, b1) = (t', b')" "pending_rows t' = []"
    "bus_log b' = bus_log b1 @ map ob_payload rs" "mset rs = mset (pending_rows t1)"
    "sorted_wrt oldest_first rs" by blast
  let ?rs = "take (batchSize opts) ?p @ rs"
  have "set rs = set (drop (batchSize opts) ?p)"
    using rs(4) batch(3) by (metis set_mset_mset)
  moreover have "sorted_wrt oldest_first (take (batchSize opts) ?p @ drop (batchSize opts) ?p)"
    using p(2) by simp
  ultimately have "sorted_wrt oldest_first ?rs"
    using rs(5) by (simp only: sorted_wrt_append) simp
  moreover have "mset ?rs = mset (pending_rows t)"
    using rs(4) batch(3) p(1) by (metis append_take_drop_id mset_append)
  moreover have "bus_log b' = bus_log b @ map ob_payload ?rs" using rs(3) batch(4) by simp
  ultimately show ?case using rs(1,2) s by (intro exI [of _ t'] exI [of _ b'] exI [of _ ?rs]) simp
qed

text \<open>A concrete event and row order, for the witnesses.\<close>

definition sample_event :: "string \<Rightarrow> bumpa_domain_event" where
  "sample_event i = PurchaseCompletedEvent (createDomainEvent PurchaseCompleted
     \<lparr>pc_userId = ''usr_1'', pc_purchaseId = ''pur_1'', pc_amountKobo = 500000,
      pc_user = \<lparr>snap_id = ''usr_1'', snap_email = ''a@b.c'', snap_name = ''Ada'',
                 snap_bankAccountNumber = Undefined, snap_bankCode = Undefined\<rparr>\<rparr> ''corr'' i 7)"

definition sample_bus :: bus where
  "sample_bus = \<lparr>bus_open = True, bus_publishes = 0, bus_log = []\<rparr>"

lemma sort_by_creation: "orders oldest_first (sort_key ob_createdAt)"
  unfolding orders_def oldest_first_def
  by (metis mset_sort sorted_sort_key sorted_map)

lemmas sample_defs = sample_event_def sample_bus_def outbox_row_def default_outbox_options_def
  createDomainEvent_def


theorem outbox_ticks_drain_witness:
  "\<exists>t' b' rs. ticks default_outbox_options (\<lambda>_. None) (sort_key ob_createdAt) [10]
      ([outbox_row (sample_event ''evt_2'') 9, outbox_row (sample_event ''evt_1'') 8], sample_bus) = (t', b')
    \<and> pending_rows t' = [] \<and> bus_log b' = bus_log sample_bus @ map ob_payload rs
    \<and> mset rs = mset (pending_rows [outbox_row (sample_event ''evt_2'') 9, outbox_row (sample_event ''evt_1'') 8])
    \<and> sorted_wrt oldest_first rs"
  by (rule outbox_ticks_drain [OF _ sort_by_creation])
    (simp_all add: sample_defs pending_rows_def)

section \<open>Bounded retries\<close>

lemma settled_rejected_step:
  assumes "distinct (map ob_id t)" and "r \<in> set t" and "ob_status r = OutboxPending"
    and "ob_attempts r < maxAttempts opts" and "bus_open b" and "confirm (bus_publishes b) = Some err"
  shows "publishById opts confirm now (ob_id r) (t, b)
    = (False, set_row r (settled opts now (Some err) r) t, b\<lparr>bus_publishes := Suc (bus_publishes b)\<rparr>)"
  using publishById_pending [OF assms(1-4), of confirm b "Some err" _ now] assms(5,6)
  by (simp add: publish_def)

lemma publishMany_idle:
  assumes "distinct (map ob_id t)"
    and "\<not> (\<exists>r \<in> set t. ob_id r = i \<and> ob_status r = OutboxPending \<and> ob_attempts r < maxAttempts opts)"
  shows "publishMany opts confirm now (replicate n i) (t, b) = (t, b)"
  using publishById_other [OF assms] by (induction n) auto

text \<open>
  C33. While the broker rejects every publish, each attempt on a pending row is counted and the row is
  offered again, until the count reaches \<open>maxAttempts\<close>: the row is then failed and further attempts
  do not reach the broker. Nothing is ever recorded as published.
\<close>

theorem outbox_retries_bounded:
  assumes "\<And>k. confirm k \<noteq> None" and "bus_open b" and "distinct (map ob_id t)" and "r \<in> set t"
    and "ob_status r = OutboxPending" and "ob_attempts r < maxAttempts opts"
    and "publishMany opts confirm now (replicate n (ob_id r)) (t, b) = (t', b')"
  shows "\<exists>r' \<in> set t'. ob_id r' = ob_id r
      \<and> ob_attempts r' = min (ob_attempts r + n) (maxAttempts opts)
      \<and> ob_status r' = (if maxAttempts opts \<le> ob_attempts r + n then OutboxFailed else OutboxPending)
      \<and> bus_publishes b' = bus_publishes b + min n (maxAttempts opts - ob_attempts r)
      \<and> bus_log b' = bus_log b"
  using assms(2-)
proof (induction n arbitrary: t b r)
  case 0
  then show ?case by (intro bexI [of _ r]) auto
next
  case (Suc n)
  obtain err where err: "confirm (bus_publishes b) = Some err" using assms(1) by fastforce
  let ?r = "settled opts now (Some err) r" and ?b = "b\<lparr>bus_publishes := Suc (bus_publishes b)\<rparr>"
  let ?t = "set_row r ?r t"
  have d: "distinct (map ob_id ?t)" using Suc.prems(2) by (simp add: set_row_ids)
  have r: "?r \<in> set ?t" using Suc.prems(3) by (auto simp: in_update_where)
  have run: "publishMany opts confirm now (replicate n (ob_id ?r)) (?t, ?b) = (t', b')"
    using Suc.prems(6) settled_rejected_step [where confirm = confirm, OF Suc.prems(2-5,1) err] by simp
  show ?case
  proof (cases "ob_attempts ?r < maxAttempts opts")
    case True
    then have "ob_status ?r = OutboxPending" by (simp add: settled_def)
    with True Suc.IH [OF _ d r _ True run] Suc.prems(1) show ?thesis by (auto simp: settled_def)
  next
    case False
    then have "\<not> (\<exists>x \<in> set ?t. ob_id x = ob_id ?r \<and> ob_status x = OutboxPending \<and> ob_attempts x < maxAttempts opts)"
      using row_unique [OF d _ r] by blast
    from publishMany_idle [OF d this] have "t' = ?t" "b' = ?b" using run by auto
    with r False Suc.prems(5) show ?thesis by (intro bexI [of _ ?r]) (auto simp: settled_def)
  qed
qed

theorem outbox_retries_bounded_witness:
  "\<exists>r' \<in> set (fst (publishMany default_outbox_options (\<lambda>_. Some ''nack'') 9 (replicate 7 ''evt_1'')
                     ([outbox_row (sample_event ''evt_1'') 8], sample_bus))).
      ob_id r' = ''evt_1'' \<and> ob_attempts r' = 5 \<and> ob_status r' = OutboxFailed"
proof -
  let ?t = "[outbox_row (sample_event ''evt_1'') 8]"
  have "ob_id (outbox_row (sample_event ''evt_1'') 8) = ''evt_1''" by (simp add: sample_defs)
  then show ?thesis
    using outbox_retries_bounded [of "\<lambda>_. Some ''nack''" sample_bus ?t "outbox_row (sample_event ''evt_1'') 8"
        default_outbox_options 9 7 _ _, OF _ _ _ _ _ _ surjective_pairing]
    by (simp add: sample_defs) blast
qed

section \<open>A publisher that dies\<close>

lemma in_flight_stays:
  assumes "outbox_step opts confirm ord (t, b) (t', b')" and "orders le ord"
    and "distinct (map ob_id t)" and "x \<in> set t" and "ob_status x = Publishing"
  shows "x \<in> set t'"
  using assms(1)
proof cases
  case (by_id now i)
  show ?thesis
  proof (cases "\<exists>r \<in> set t. ob_id r = i \<and> ob_status r = OutboxPending \<and> ob_attempts r < maxAttempts opts")
    case True
    then obtain r where r: "r \<in> set t" "ob_id r = i" "ob_status r = OutboxPending"
      "ob_attempts r < maxAttempts opts" by blast
    obtain a b1 where p: "publish confirm (ob_payload r) b = (a, b1)" by fastforce
    have "ob_id x \<noteq> ob_id r" using row_unique [OF assms(3,4) r(1)] r(3) assms(5) by auto
    then have "x \<in> set (set_row r (settled opts now a r) t)" using assms(4) by (simp add: set_row_other)
    then show ?thesis
      using by_id publishById_pending [OF assms(3) r(1,3,4) p, of now] r(2) by auto
  next
    case False
    then show ?thesis using publishById_other [OF assms(3) False, of confirm now b] by_id assms(4) by simp
  qed
next
  case (tick now)
  have "case publish_loop opts confirm now (take (batchSize opts) (ord (pending_rows t))) (t, b) of
      (t', b') \<Rightarrow> x \<in> set t' \<and> map ob_id t' = map ob_id t"
  proof (rule publish_loop_induct [where Q = "\<lambda>t b. x \<in> set t"])
    show "x \<in> set (set_row r (settled opts now a r) t)"
      if "x \<in> set t" "distinct (map ob_id t)" "r \<in> set t" "ob_status r = OutboxPending" for t r a
      using that row_unique [OF that(2,1,3)] assms(5) by (auto intro!: set_row_other)
  qed (use assms batch_rows [OF assms(2,3)] in auto)
  then show ?thesis using tick by (auto simp: publishPendingBatch_def split: prod.splits)
qed (use assms(4,5) in \<open>force simp: claimForPublishing_def Let_def in_update_where\<close>)+

lemma step_distinct:
  assumes "outbox_step opts confirm ord (t, b) (t', b')" and "orders le ord" and "0 < maxAttempts opts"
    and "outbox_ok opts t b"
  shows "distinct (map ob_id t')"
  using outbox_ok_step [OF assms] by (simp add: outbox_ok_def)

text \<open>
  A process that dies after claiming a row, before recording the outcome, strands it: no later
  publish, tick or other step of any process changes the row again, so it is neither retried nor
  marked failed. Only rows that are still pending are retried by the scanner.
\<close>

theorem outbox_crash_strands_row:
  assumes "orders oldest_first ord" and "0 < maxAttempts opts" and "outbox_ok opts t b"
    and "r \<in> set t" and "ob_status r = OutboxPending"
    and "(outbox_step opts confirm ord)\<^sup>*\<^sup>* (snd (claimForPublishing (ob_id r) t), b) (t', b')"
  shows "r\<lparr>ob_status := Publishing\<rparr> \<in> set t'"
proof -
  have start: "outbox_ok opts (snd (claimForPublishing (ob_id r) t)) b"
    "r\<lparr>ob_status := Publishing\<rparr> \<in> set (snd (claimForPublishing (ob_id r) t))"
    using assms(3-5) by (auto simp: outbox_ok_claim)
      (auto simp: claimForPublishing_def Let_def in_update_where intro!: bexI [of _ r])
  have "outbox_ok opts t' b' \<and> r\<lparr>ob_status := Publishing\<rparr> \<in> set t'"
    using assms(6)
  proof (induction rule: rtranclp_induct2)
    case refl
    show ?case using start by simp
  next
    case (step t1 b1 t2 b2)
    then show ?case
      using outbox_ok_step [OF step(2) assms(1,2)] in_flight_stays [OF step(2) assms(1)]
      by (simp add: outbox_ok_def)
  qed
  then show ?thesis by simp
qed

theorem outbox_crash_strands_row_witness:
  "(outbox_row (sample_event ''evt_1'') 8)\<lparr>ob_status := Publishing\<rparr>
     \<in> set (fst (publishPendingBatch default_outbox_options (\<lambda>_. None) (sort_key ob_createdAt) 99
           (snd (claimForPublishing ''evt_1'' [outbox_row (sample_event ''evt_1'') 8]), sample_bus)))"
proof -
  let ?r = "outbox_row (sample_event ''evt_1'') 8"
  let ?s = "(snd (claimForPublishing ''evt_1'' [?r]), sample_bus)"
  let ?c = "\<lambda>_::nat. None :: string option"
  have i: "ob_id ?r = ''evt_1''" by (simp add: sample_defs)
  obtain t' b' where run: "publishPendingBatch default_outbox_options ?c (sort_key ob_createdAt) 99 ?s = (t', b')"
    by fastforce
  have "(outbox_step default_outbox_options ?c (sort_key ob_createdAt))\<^sup>*\<^sup>* ?s (t', b')"
    unfolding run [symmetric] by (intro r_into_rtranclp outbox_step.tick)
  moreover have "outbox_ok default_outbox_options [?r] sample_bus" "0 < maxAttempts default_outbox_options"
    "ob_status ?r = OutboxPending"
    by (simp_all add: sample_defs outbox_ok_def row_ok_def log_count_def)
  ultimately show ?thesis
    using outbox_crash_strands_row [of "sort_key ob_createdAt" default_outbox_options "[?r]" sample_bus ?r ?c t' b']
    unfolding i run by (simp add: sort_by_creation)
qed

section \<open>The lock of the scanner\<close>

text \<open>
  What a lock holder \<open>v\<close> sees while it runs: it acquired the key, renews it at least every heartbeat
  interval (\<open>l\<close> is the time of the last renewal, \<open>n\<close> the present), and processes with other lock
  values acquire, extend and release as they please.
\<close>

inductive lock_trace :: "outbox_options \<Rightarrow> string \<Rightarrow> lock_value \<Rightarrow> redis \<Rightarrow> int \<Rightarrow> int \<Rightarrow> bool"
  for opts k v where
  acquired: "acquireLock opts k v s r = (True, r') \<Longrightarrow> lock_trace opts k v r' s s"
| beat: "lock_trace opts k v r l n \<Longrightarrow> n \<le> n' \<Longrightarrow> n' \<le> l + heartbeat_interval opts \<Longrightarrow>
     lock_trace opts k v (extendLock opts k v n' r) n' n'"
| foreign_acquire: "lock_trace opts k v r l n \<Longrightarrow> n \<le> n' \<Longrightarrow> n' \<le> l + heartbeat_interval opts \<Longrightarrow> w \<noteq> v \<Longrightarrow>
     lock_trace opts k v (snd (acquireLock opts k w n' r)) l n'"
| foreign_extend: "lock_trace opts k v r l n \<Longrightarrow> n \<le> n' \<Longrightarrow> n' \<le> l + heartbeat_interval opts \<Longrightarrow> w \<noteq> v \<Longrightarrow>
     lock_trace opts k v (extendLock opts k w n' r) l n'"
| foreign_release: "lock_trace opts k v r l n \<Longrightarrow> n \<le> n' \<Longrightarrow> n' \<le> l + heartbeat_interval opts \<Longrightarrow> w \<noteq> v \<Longrightarrow>
     lock_trace opts k v (releaseLock k w n' r) l n'"

lemma heartbeat_before_expiry: "2 \<le> lockTtlMs opts \<Longrightarrow> 0 < heartbeat_interval opts \<and> heartbeat_interval opts < lockTtlMs opts"
  by (simp add: heartbeat_interval_def) arith

lemma lock_trace_held:
  assumes "lock_trace opts k v r l n" and "2 \<le> lockTtlMs opts"
  shows "r k = Some (v, l + lockTtlMs opts) \<and> n \<le> l + heartbeat_interval opts"
  using assms(1) heartbeat_before_expiry [OF assms(2)]
  by (induction rule: lock_trace.induct)
    (auto simp: acquireLock_def extendLock_def releaseLock_def redis_get_def split: if_splits)

text \<open>
  One scanner at a time: as long as the holder of the lock renews it every heartbeat interval, the
  key names it whatever other processes try, the heartbeat comes before the expiry, and a tick of
  another process leaves its outbox and the broker as they are.
\<close>

theorem outbox_lock_exclusive:
  assumes "lock_trace opts k v r l n" and "2 \<le> lockTtlMs opts" and "pub_redis p = r"
  shows "redis_get r n k = Some v
    \<and> pub_outbox (publishPending opts k confirm ord pid n finish others p) = pub_outbox p
    \<and> pub_bus (publishPending opts k confirm ord pid n finish others p) = pub_bus p"
proof -
  have "redis_get r n k = Some v"
    using lock_trace_held [OF assms(1,2)] heartbeat_before_expiry [OF assms(2)]
    by (simp add: redis_get_def)
  then show ?thesis using assms(3) by (simp add: publishPending_def acquireLock_def)
qed

theorem outbox_lock_exclusive_witness:
  "redis_get (Map.empty(''k'' \<mapsto> ((1, 0), 7000))) 2000 ''k'' = Some (1, 0)
   \<and> pub_outbox (publishPending default_outbox_options ''k'' (\<lambda>_. None) id 2 2000 3000 id
        \<lparr>running = False, pub_redis = Map.empty(''k'' \<mapsto> ((1, 0), 7000)),
         pub_outbox = [outbox_row (sample_event ''evt_1'') 8], pub_bus = sample_bus\<rparr>)
     = [outbox_row (sample_event ''evt_1'') 8]"
proof -
  let ?o = default_outbox_options
  have "lock_trace ?o ''k'' (1, 0) (Map.empty(''k'' \<mapsto> ((1, 0), 5000))) 0 0"
    by (rule lock_trace.acquired [of _ _ _ _ Map.empty])
      (simp add: acquireLock_def redis_get_def default_outbox_options_def)
  from lock_trace.beat [OF this, of 2000]
  have t: "lock_trace ?o ''k'' (1, 0) (Map.empty(''k'' \<mapsto> ((1, 0), 7000))) 2000 2000"
    by (simp add: extendLock_def redis_get_def default_outbox_options_def heartbeat_interval_def)
  show ?thesis
    using outbox_lock_exclusive [OF t, of "\<lparr>running = False, pub_redis = Map.empty(''k'' \<mapsto> ((1, 0), 7000)),
         pub_outbox = [outbox_row (sample_event ''evt_1'') 8], pub_bus = sample_bus\<rparr>" "\<lambda>_. None" id 2 3000 id]
    by (simp add: default_outbox_options_def)
qed

end
