(* ===== verification/Loyalty_Properties.thy ===== *)
theory Loyalty_Properties
  imports Loyalty_Handler Consumer Outbox_Delivery
begin

text \<open>
  The properties of the loyalty service. The handler is an \<open>atomic_consumer\<close>; the properties of
  single purchases rest on \<open>transaction_rows\<close>.
\<close>

section \<open>The handler as a consumer\<close>

lemma transaction_counters:
  assumes "purchase_transaction rnd od now event db = Inr (ids, db')"
  shows "ld_stats db' = upsert st_userId (after_counting event db) (ld_stats db)"
    and "processed i db' \<longleftrightarrow> i = eventId event \<or> processed i db"
proof -
  show "ld_stats db' = upsert st_userId (after_counting event db) (ld_stats db)"
    using assms by (auto simp: purchase_transaction_def after_counting_def Let_def unlockBadges_def split: if_splits)
  have "ld_processed db' = upsert pe_eventId \<lparr>pe_eventId = eventId event, pe_consumer = LoyaltyService\<rparr> (ld_processed db)"
    using assms by (auto simp: purchase_transaction_def Let_def unlockBadges_def split: if_splits)
  then show "processed i db' \<longleftrightarrow> i = eventId event \<or> processed i db"
    by (simp add: processed_def exists_row_def upsert_ex_key)
qed

lemma handler_transaction:
  assumes "handlePurchaseCompleted rnd od opts confirm now event (db, b) = (None, db', b')"
    and "\<not> processed (eventId event) db"
  obtains ids db1 t where "purchase_transaction rnd od now event db = Inr (ids, db1)"
    "db' = db1\<lparr>ld_outbox := t\<rparr>" "publishMany opts confirm now ids (ld_outbox db1, b) = (t, b')"
  using assms
  by (auto simp: handlePurchaseCompleted_def split: sum.splits prod.splits)

interpretation loyalty: atomic_consumer "handlePurchaseCompleted rnd od opts confirm now"
  "\<lambda>event s. processed (eventId event) (fst s)"
  for rnd od opts confirm now
proof
  let ?h = "handlePurchaseCompleted rnd od opts confirm now"
  have keeps: "processed i (fst s) \<Longrightarrow> processed i (fst (snd (?h event s)))" for i event s
    using transaction_counters(2) [of rnd od now event "fst s"]
    by (auto simp: handlePurchaseCompleted_def processed_def split: sum.splits prod.splits)
  show "?h event s = (None, s)" if "processed (eventId event) (fst s)" for event s
    using that by (cases s) (simp add: handlePurchaseCompleted_def)
  show "processed (eventId event) (fst s')" if "?h event s = (None, s')" for event s s'
    using that transaction_counters(2) [of rnd od now event "fst s"]
    by (auto simp: handlePurchaseCompleted_def processed_def split: sum.splits prod.splits if_splits)
  show "s' = s" if "?h event s = (Some err, s')" for event s err s'
    using that by (auto simp: handlePurchaseCompleted_def split: sum.splits prod.splits if_splits)
  show "processed (eventId event) (fst (snd (?h event' s)))" if "processed (eventId event) (fst s)" for event event' s
    using that by (rule keeps)
qed

section \<open>One purchase\<close>

lemma rows_added_achievements:
  assumes "u = pc_userId (payload event)"
  shows "achievements_of u (rows_added rnd now event cs bs db)
      = achievements_of u db @ unlock_rows rnd now u (ld_draws db) cs"
    and "achievement_ids u (rows_added rnd now event cs bs db) = achievement_ids u db \<union> ac_id ` set cs"
    and "v \<noteq> u \<Longrightarrow> achievements_of v (rows_added rnd now event cs bs db) = achievements_of v db"
proof -
  have all: "filter (\<lambda>r. ua_userId r = u) (unlock_rows rnd now u n cs) = unlock_rows rnd now u n cs" for n
    using unlock_rows_user by (fastforce simp: filter_id_conv)
  show *: "achievements_of u (rows_added rnd now event cs bs db)
      = achievements_of u db @ unlock_rows rnd now u (ld_draws db) cs"
    using assms all by (simp add: achievements_of_def rows_added_def Let_def)
  have "ua_achievementId ` set (unlock_rows rnd now u n cs) = ac_id ` set cs" for n
    unfolding list.set_map [symmetric] unlock_rows_achievements by simp
  then show "achievement_ids u (rows_added rnd now event cs bs db) = achievement_ids u db \<union> ac_id ` set cs"
    unfolding achievement_ids_def * by (simp add: image_Un)
  assume "v \<noteq> u"
  then have "filter (\<lambda>r. ua_userId r = v) (unlock_rows rnd now u n cs) = []" for n
    using unlock_rows_user by (fastforce simp: filter_empty_conv)
  then show "achievements_of v (rows_added rnd now event cs bs db) = achievements_of v db"
    using assms by (simp add: achievements_of_def rows_added_def Let_def)
qed

lemma rows_added_badges:
  assumes "u = pc_userId (payload event)"
  shows "badge_ids u (rows_added rnd now event cs bs db) = badge_ids u db \<union> bc_id ` set bs"
    and "v \<noteq> u \<Longrightarrow> badges_of v (rows_added rnd now event cs bs db) = badges_of v db"
proof -
  have "filter (\<lambda>r. ub_userId r = u) (badge_rows rnd now u n bs) = badge_rows rnd now u n bs" for n
    using badge_rows_user by (fastforce simp: filter_id_conv)
  moreover have "ub_badgeId ` set (badge_rows rnd now u n bs) = bc_id ` set bs" for n
    unfolding list.set_map [symmetric] badge_rows_badges by simp
  ultimately show "badge_ids u (rows_added rnd now event cs bs db) = badge_ids u db \<union> bc_id ` set bs"
    using assms by (simp add: badge_ids_def badges_of_def rows_added_def Let_def image_Un)
  assume "v \<noteq> u"
  then have "filter (\<lambda>r. ub_userId r = v) (badge_rows rnd now u n bs) = []" for n
    using badge_rows_user by (fastforce simp: filter_empty_conv)
  then show "badges_of v (rows_added rnd now event cs bs db) = badges_of v db"
    using assms by (simp add: badges_of_def rows_added_def Let_def)
qed

lemma transaction_achievements:
  assumes "sql_orders od" and "distinct (map ac_id (ld_achievements db))"
    and "purchase_transaction rnd od now event db = Inr (ids, db')"
    and "fresh_draws rnd (ld_draws db) (ld_draws db') db"
  shows "achievement_ids (pc_userId (payload event)) db'
      = earned (after_counting event db) (set (active_achievements db))
          (achievement_ids (pc_userId (payload event)) db)"
    and "v \<noteq> pc_userId (payload event) \<Longrightarrow> achievements_of v db' = achievements_of v db"
  by (rule transaction_rows [OF assms]; simp add: rows_added_achievements)+

text \<open>
  C1. A purchase leaves the user with exactly the achievements earned: the least set that contains the
  ones held before and every active achievement whose rule holds for the new counters over that set,
  so chains of achievements that require achievements are followed to the end. Other users keep
  theirs.
\<close>

theorem purchase_unlocks_earned:
  assumes "sql_orders od" and "distinct (map ac_id (ld_achievements db))"
    and "purchase_transaction rnd od now event db = Inr (ids, db')"
    and "fresh_draws rnd (ld_draws db) (ld_draws db') db" and "v \<noteq> pc_userId (payload event)"
  shows "achievement_ids (pc_userId (payload event)) db'
      = earned (after_counting event db) (set (active_achievements db))
          (achievement_ids (pc_userId (payload event)) db)
    \<and> achievements_of v db' = achievements_of v db"
  using transaction_achievements [OF assms(1-4)] assms(5) by simp

text \<open>
  The outcome does not depend on how the database arranges rows that agree on the sort columns, on
  the collation, or on the identifiers drawn: two runs of the same purchase unlock the same
  achievements.
\<close>

theorem purchase_order_independent:
  assumes "sql_orders od" and "sql_orders od'" and "distinct (map ac_id (ld_achievements db))"
    and "purchase_transaction rnd od now event db = Inr (ids, db1)"
    and "purchase_transaction rnd' od' now' event db = Inr (ids', db2)"
    and "fresh_draws rnd (ld_draws db) (ld_draws db1) db" and "fresh_draws rnd' (ld_draws db) (ld_draws db2) db"
  shows "achievement_ids u db1 = achievement_ids u db2"
proof -
  note one = transaction_achievements [OF assms(1,3,4,6)] and two = transaction_achievements [OF assms(2,3,5,7)]
  show ?thesis
  proof (cases "u = pc_userId (payload event)")
    case True
    then show ?thesis using one(1) two(1) by simp
  next
    case False
    then show ?thesis using one(2) two(2) by (simp add: achievement_ids_def)
  qed
qed

lemma transaction_badges:
  assumes "sql_orders od" and "distinct (map ac_id (ld_achievements db))"
    and "purchase_transaction rnd od now event db = Inr (ids, db')"
    and "fresh_draws rnd (ld_draws db) (ld_draws db') db"
    and "distinct (map bc_id (ld_badges db))" and "badge \<in> set (ld_badges db)"
  shows "bc_id badge \<in> badge_ids (pc_userId (payload event)) db' \<longleftrightarrow>
      bc_id badge \<in> badge_ids (pc_userId (payload event)) db \<or>
      (bc_active badge \<and> meetsBadgeRequirement badge
         (int (length (achievements_of (pc_userId (payload event)) db')))
         (achievement_ids (pc_userId (payload event)) db'))"
proof (rule transaction_rows [OF assms(1-4)])
  let ?u = "pc_userId (payload event)"
  fix cs bs
  let ?rows = "unlock_rows rnd now ?u (ld_draws db) cs"
  assume db': "db' = rows_added rnd now event cs bs db"
    and bs: "bs = due_badges od ?u (db\<lparr>ld_user_achievements := ld_user_achievements db @ ?rows\<rparr>)"
  have rows: "achievements_of ?u (db\<lparr>ld_user_achievements := ld_user_achievements db @ ?rows\<rparr>) = achievements_of ?u db'"
    unfolding db' by (simp add: achievements_of_def rows_added_def Let_def)
  have same: "c = badge" if "c \<in> set (ld_badges db)" "bc_id c = bc_id badge" for c
    using that assms(5,6) by (auto simp: distinct_map inj_on_def)
  have "set bs = {b \<in> set (ld_badges db). bc_active b \<and> bc_id b \<notin> badge_ids ?u db \<and>
      meetsBadgeRequirement b (int (length (achievements_of ?u db'))) (achievement_ids ?u db')}"
    unfolding bs due_badges_def rows
    by (auto simp: sql_orders_set(2) [OF assms(1)] active_badges_def badge_ids_def badges_of_def achievement_ids_def)
  then have "bc_id badge \<in> bc_id ` set bs \<longleftrightarrow> bc_active badge \<and> bc_id badge \<notin> badge_ids ?u db \<and>
      meetsBadgeRequirement badge (int (length (achievements_of ?u db'))) (achievement_ids ?u db')"
    using same assms(6) by (auto simp: image_iff)
  then show ?thesis unfolding db' rows_added_badges(1) [OF refl] by blast
qed

text \<open>
  C15. Badges follow the achievements: after a purchase an active badge is held exactly when it was held
  before or the achievements now held are enough in number and include all the required ones. Badges
  that were deactivated and other users' badges stay as they were.
\<close>

theorem purchase_unlocks_badges:
  assumes "sql_orders od" and "distinct (map ac_id (ld_achievements db))"
    and "purchase_transaction rnd od now event db = Inr (ids, db')"
    and "fresh_draws rnd (ld_draws db) (ld_draws db') db"
    and "distinct (map bc_id (ld_badges db))" and "badge \<in> set (ld_badges db)"
  shows "bc_id badge \<in> badge_ids (pc_userId (payload event)) db' \<longleftrightarrow>
      bc_id badge \<in> badge_ids (pc_userId (payload event)) db \<or>
      (bc_active badge \<and> meetsBadgeRequirement badge
         (int (length (achievements_of (pc_userId (payload event)) db')))
         (achievement_ids (pc_userId (payload event)) db'))"
  using assms by (rule transaction_badges)

text \<open>Sample data for the witnesses: a two-step catalog and one purchase.\<close>

definition sample_orders :: loyalty_orders where
  "sample_orders = \<lparr>by_group = sort_key ac_sortOrder, by_badge_sort = sort_key bc_sortOrder,
     by_unlock_time = sort_key ua_unlockedAt, by_badge_time = sort_key ub_unlockedAt\<rparr>"

definition sample_rnd :: random_source where
  "sample_rnd n = replicate n CHR ''a''"

definition sample_db :: loyalty_db where
  "sample_db = \<lparr>ld_groups = [],
     ld_achievements =
       [\<lparr>ac_id = ''ach_1'', ac_name = ''First'', ac_description = [], ac_groupKey = ''g'', ac_sortOrder = 1,
         ac_rule = rule_json (CountRule 1), ac_imageUrl = None, ac_active = True\<rparr>,
        \<lparr>ac_id = ''ach_2'', ac_name = ''Second'', ac_description = [], ac_groupKey = ''g'', ac_sortOrder = 2,
         ac_rule = rule_json (AchievementSetRule [''ach_1''] None), ac_imageUrl = None, ac_active = True\<rparr>],
     ld_badges =
       [\<lparr>bc_id = ''bdg_1'', bc_name = ''Bronze'', bc_description = [], bc_sortOrder = 1,
         bc_requiredAchievementCount = 2, bc_requiredAchievementIds = [''ach_2''], bc_rewardAmountKobo = 30000,
         bc_rewardCurrency = ''NGN'', bc_imageUrl = None, bc_active = True\<rparr>],
     ld_projections = [], ld_stats = [], ld_user_achievements = [], ld_user_badges = [], ld_processed = [],
     ld_outbox = [], ld_draws = 0\<rparr>"

definition sample_purchase :: "string \<Rightarrow> int \<Rightarrow> purchase_completed_event" where
  "sample_purchase i amount = createDomainEvent PurchaseCompleted
     \<lparr>pc_userId = ''usr_1'', pc_purchaseId = ''pur_1'', pc_amountKobo = amount,
      pc_user = \<lparr>snap_id = ''usr_1'', snap_email = ''a@b.c'', snap_name = ''Ada'',
                 snap_bankAccountNumber = Undefined, snap_bankCode = Undefined\<rparr>\<rparr> ''corr'' i 7"

lemma sort_key_orders: "orders (\<lambda>a b. f a \<le> f b) (sort_key f)"
  for f :: "'r \<Rightarrow> int"
  unfolding orders_def by (metis mset_sort sorted_sort_key sorted_map)

definition other_orders :: loyalty_orders where
  "other_orders = sample_orders\<lparr>by_group := \<lambda>t. sort_key ac_sortOrder (rev t)\<rparr>"

lemma group_order_ok:
  "sorted_wrt (\<lambda>a b. ac_groupKey a = ac_groupKey b \<longrightarrow> ac_sortOrder a \<le> ac_sortOrder b) (sort_key ac_sortOrder t)"
  using sort_key_orders [of ac_sortOrder] unfolding orders_def by (metis (mono_tags, lifting) sorted_wrt_mono_rel)

lemma sample_orders_ok: "sql_orders sample_orders" "sql_orders other_orders"
  using sort_key_orders [of bc_sortOrder] sort_key_orders [of ua_unlockedAt] sort_key_orders [of ub_unlockedAt]
  by (simp_all add: sql_orders_def sample_orders_def other_orders_def orders_def group_order_ok)

lemma sample_fresh: "fresh_draws sample_rnd 0 n sample_db"
proof -
  have "inj_on sample_rnd {0..<n}"
    by (rule inj_onI) (metis length_replicate sample_rnd_def)
  then show ?thesis by (simp add: fresh_draws_def sample_db_def)
qed

lemma sample_counts:
  "after_counting (sample_purchase i a) sample_db = \<lparr>st_userId = ''usr_1'', st_purchaseCount = 1, st_totalSpendKobo = a\<rparr>"
  by (simp add: after_counting_def count_purchase_def stats_of_def find_one_def sample_db_def sample_purchase_def)

lemma sample_runs: "\<exists>ids db'. purchase_transaction sample_rnd od 9 (sample_purchase ''evt_1'' 500000) sample_db
    = Inr (ids, db')"
  using sample_counts [of "''evt_1''" 500000]
  by (simp add: purchase_transaction_def after_counting_def Let_def is_int4_def split: prod.splits)

lemma sample_pk: "distinct (map ac_id (ld_achievements sample_db))" "distinct (map bc_id (ld_badges sample_db))"
  "ld_draws sample_db = 0"
  by (simp_all add: sample_db_def)

lemma sample_unprocessed: "\<not> processed i sample_db"
  by (simp add: processed_def exists_row_def sample_db_def)

lemma sample_user: "pc_userId (payload (sample_purchase i a)) = ''usr_1''"
  by (simp add: sample_purchase_def)

lemmas sample_hyps = sample_orders_ok sample_pk sample_fresh sample_user

theorem purchase_unlocks_earned_witness:
  "\<exists>ids db'. purchase_transaction sample_rnd sample_orders 9 (sample_purchase ''evt_1'' 500000) sample_db = Inr (ids, db')
     \<and> achievement_ids ''usr_1'' db'
       = earned (after_counting (sample_purchase ''evt_1'' 500000) sample_db) (set (active_achievements sample_db))
           (achievement_ids ''usr_1'' sample_db)
     \<and> achievements_of ''usr_2'' db' = achievements_of ''usr_2'' sample_db"
proof -
  obtain ids db' where tx: "purchase_transaction sample_rnd sample_orders 9 (sample_purchase ''evt_1'' 500000) sample_db
      = Inr (ids, db')" using sample_runs by blast
  from purchase_unlocks_earned [OF _ _ tx, of "''usr_2''"] tx show ?thesis by (simp add: sample_hyps)
qed

theorem purchase_order_independent_witness:
  "\<exists>ids ids' db1 db2.
     purchase_transaction sample_rnd sample_orders 9 (sample_purchase ''evt_1'' 500000) sample_db = Inr (ids, db1)
     \<and> purchase_transaction sample_rnd other_orders 9 (sample_purchase ''evt_1'' 500000) sample_db = Inr (ids', db2)
     \<and> achievement_ids ''usr_1'' db1 = achievement_ids ''usr_1'' db2"
proof -
  obtain ids db1 where tx: "purchase_transaction sample_rnd sample_orders 9 (sample_purchase ''evt_1'' 500000) sample_db
      = Inr (ids, db1)" using sample_runs by blast
  obtain ids' db2 where tx': "purchase_transaction sample_rnd other_orders 9 (sample_purchase ''evt_1'' 500000) sample_db
      = Inr (ids', db2)" using sample_runs by blast
  from purchase_order_independent [OF _ _ _ tx tx', of "''usr_1''"] tx tx' show ?thesis by (auto simp: sample_hyps)
qed

theorem purchase_unlocks_badges_witness:
  "\<exists>ids db'. purchase_transaction sample_rnd sample_orders 9 (sample_purchase ''evt_1'' 500000) sample_db = Inr (ids, db')
     \<and> (''bdg_1'' \<in> badge_ids ''usr_1'' db' \<longleftrightarrow>
          meetsBadgeRequirement (hd (ld_badges sample_db)) (int (length (achievements_of ''usr_1'' db'))) (achievement_ids ''usr_1'' db'))"
proof -
  obtain ids db' where tx: "purchase_transaction sample_rnd sample_orders 9 (sample_purchase ''evt_1'' 500000) sample_db
      = Inr (ids, db')" using sample_runs by blast
  have b: "hd (ld_badges sample_db) \<in> set (ld_badges sample_db)" "bc_id (hd (ld_badges sample_db)) = ''bdg_1''"
    "bc_active (hd (ld_badges sample_db))" "badge_ids ''usr_1'' sample_db = {}"
    by (simp_all add: sample_db_def badge_ids_def badges_of_def)
  from purchase_unlocks_badges [OF _ _ tx _ _ b(1)] tx show ?thesis by (simp add: sample_hyps b)
qed

section \<open>Announcements and uniqueness\<close>

definition announced :: "outbox_record \<Rightarrow> (string + string) option" where
  "announced r = (case ob_payload r of
       AchievementUnlockedEvent e \<Rightarrow> Some (Inl (au_achievement_name (payload e)))
     | BadgeUnlockedEvent e \<Rightarrow> Some (Inr (bu_badge_name (payload e)))
     | _ \<Rightarrow> None)"

lemma outbox_row_new: "ob_status (outbox_row e now) = OutboxPending" "ob_attempts (outbox_row e now) = 0"
  by (simp_all add: outbox_row_def)

lemma announced_achievements:
  "map (\<lambda>e. announced (outbox_row e now)) (unlock_events rnd now event n cs) = map (\<lambda>c. Some (Inl (ac_name c))) cs"
  by (induction cs arbitrary: n) (auto simp: announced_def outbox_row_def achievement_event_def)

lemma announced_badges:
  "map (\<lambda>e. announced (outbox_row e now)) (badge_events rnd now event n bs) = map (\<lambda>b. Some (Inr (bc_name b))) bs"
  by (induction bs arbitrary: n) (auto simp: announced_def outbox_row_def badge_event_def)

text \<open>
  Every unlock is announced exactly once: the rows a purchase adds for achievements and badges and
  the events it stores in the outbox correspond one to one, achievements first; the events are pending
  under distinct identifiers and are the ones handed to the publisher.
\<close>

theorem purchase_announces_unlocks:
  assumes "sql_orders od" and "distinct (map ac_id (ld_achievements db))"
    and "purchase_transaction rnd od now event db = Inr (ids, db')"
    and "fresh_draws rnd (ld_draws db) (ld_draws db') db"
  shows "\<exists>(cs :: achievement_config list) (bs :: badge_config list) rows. ld_outbox db' = ld_outbox db @ rows
    \<and> map ua_achievementId (ld_user_achievements db') = map ua_achievementId (ld_user_achievements db) @ map ac_id cs
    \<and> map ub_badgeId (ld_user_badges db') = map ub_badgeId (ld_user_badges db) @ map bc_id bs
    \<and> map announced rows = map (\<lambda>c. Some (Inl (ac_name c))) cs @ map (\<lambda>b. Some (Inr (bc_name b))) bs
    \<and> ids = map ob_id rows \<and> distinct ids
    \<and> list_all (\<lambda>r. ob_status r = OutboxPending \<and> ob_attempts r = 0) rows"
proof (rule transaction_rows [OF assms])
  let ?u = "pc_userId (payload event)"
  fix cs bs
  let ?es = "unlock_events rnd now event (ld_draws db) cs @ badge_events rnd now event (ld_draws db + 2 * length cs) bs"
  assume db': "db' = rows_added rnd now event cs bs db" and ids: "ids = map bumpa_event_id ?es"
  have "ids = drawn_ids EventId rnd (Suc (ld_draws db)) (length cs + length bs)"
    using drawn_ids_append [of EventId rnd "Suc (ld_draws db)" "length cs" "length bs"] by (simp add: ids new_ids)
  moreover have "inj_on rnd {ld_draws db..<ld_draws db + 2 * length cs + 2 * length bs}"
    using assms(4) by (simp add: db' fresh_draws_def rows_added_def Let_def)
  ultimately have "distinct ids" by (auto intro: drawn_ids_distinct)
  with ids db' show ?thesis
    by (intro exI [of _ cs] exI [of _ bs] exI [of _ "map (\<lambda>e. outbox_row e now) ?es"])
      (auto simp: rows_added_def Let_def announced_achievements announced_badges comp_def list_all_iff
        outbox_row_new)
qed

theorem purchase_announces_unlocks_witness:
  "\<exists>ids db' (cs :: achievement_config list) (bs :: badge_config list) rows. purchase_transaction sample_rnd sample_orders 9 (sample_purchase ''evt_1'' 500000) sample_db = Inr (ids, db')
    \<and> ld_outbox db' = rows \<and> map ua_achievementId (ld_user_achievements db') = map ac_id cs
    \<and> map ub_badgeId (ld_user_badges db') = map bc_id bs
    \<and> map announced rows = map (\<lambda>c. Some (Inl (ac_name c))) cs @ map (\<lambda>b. Some (Inr (bc_name b))) bs
    \<and> ids = map ob_id rows \<and> distinct ids"
proof -
  obtain ids db' where tx: "purchase_transaction sample_rnd sample_orders 9 (sample_purchase ''evt_1'' 500000) sample_db
      = Inr (ids, db')" using sample_runs by blast
  have e: "ld_outbox sample_db = []" "ld_user_achievements sample_db = []" "ld_user_badges sample_db = []"
    by (simp_all add: sample_db_def)
  from purchase_announces_unlocks [OF _ _ tx] tx show ?thesis by (auto simp: sample_hyps e)
qed

definition unlocks_unique :: "loyalty_db \<Rightarrow> bool" where
  "unlocks_unique db \<longleftrightarrow>
     distinct (map (\<lambda>r. (ua_userId r, ua_achievementId r)) (ld_user_achievements db)) \<and>
     distinct (map (\<lambda>r. (ub_userId r, ub_badgeId r)) (ld_user_badges db))"

lemma distinct_new_pairs:
  assumes "distinct (map (\<lambda>r. (us r, key r)) t)" and "\<And>r. r \<in> set new \<Longrightarrow> us r = u"
    and "distinct (map key new)" and "key ` set new \<inter> key ` {r \<in> set t. us r = u} = {}"
  shows "distinct (map (\<lambda>r. (us r, key r)) (t @ new))"
  using assms by (auto simp: distinct_map inj_on_def)

text \<open>
  No user holds an achievement or a badge twice: the unique constraints on user and achievement and
  on user and badge can never be violated by a purchase, on any branch.
\<close>

theorem purchase_keeps_unlocks_unique:
  assumes "sql_orders od" and "distinct (map ac_id (ld_achievements db))"
    and "purchase_transaction rnd od now event db = Inr (ids, db')"
    and "fresh_draws rnd (ld_draws db) (ld_draws db') db"
    and "distinct (map bc_id (ld_badges db))" and "unlocks_unique db"
  shows "unlocks_unique db'"
proof (rule transaction_rows [OF assms(1-4)])
  let ?u = "pc_userId (payload event)"
  fix cs bs
  let ?arows = "unlock_rows rnd now ?u (ld_draws db) cs"
  let ?brows = "badge_rows rnd now ?u (ld_draws db + 2 * length cs) bs"
  assume db': "db' = rows_added rnd now event cs bs db" and cs: "distinct (map ac_id cs)"
    and new: "ac_id ` set cs \<inter> achievement_ids ?u db = {}"
    and bs: "bs = due_badges od ?u (db\<lparr>ld_user_achievements := ld_user_achievements db @ ?arows\<rparr>)"
  have "distinct (map bc_id (by_badge_sort od (active_badges db)))"
    by (rule sql_orders_distinct(2) [OF assms(1)])
      (use assms(5) in \<open>simp add: active_badges_def distinct_map_filter\<close>)
  then have dbs: "distinct (map bc_id bs)" "bc_id ` set bs \<inter> badge_ids ?u db = {}"
    unfolding bs due_badges_def by (auto simp: distinct_map_filter active_badges_def badge_ids_def badges_of_def)
  have "ua_achievementId ` set ?arows = ac_id ` set cs" "ub_badgeId ` set ?brows = bc_id ` set bs"
    by (metis list.set_map unlock_rows_achievements) (metis list.set_map badge_rows_badges)
  then have sep: "ua_achievementId ` set ?arows \<inter> ua_achievementId ` {r \<in> set (ld_user_achievements db). ua_userId r = ?u} = {}"
    "ub_badgeId ` set ?brows \<inter> ub_badgeId ` {r \<in> set (ld_user_badges db). ub_userId r = ?u} = {}"
    using new dbs(2) by (simp_all add: achievement_ids_def achievements_of_def badge_ids_def badges_of_def)
  have "distinct (map (\<lambda>r. (ua_userId r, ua_achievementId r)) (ld_user_achievements db @ ?arows))"
    by (rule distinct_new_pairs [where u = ?u])
      (use assms(6) cs sep(1) unlock_rows_user in \<open>auto simp: unlocks_unique_def\<close>)
  moreover have "distinct (map (\<lambda>r. (ub_userId r, ub_badgeId r)) (ld_user_badges db @ ?brows))"
    by (rule distinct_new_pairs [where u = ?u])
      (use assms(6) dbs(1) sep(2) badge_rows_user in \<open>auto simp: unlocks_unique_def\<close>)
  ultimately show ?thesis by (simp add: db' unlocks_unique_def rows_added_def Let_def)
qed

theorem purchase_keeps_unlocks_unique_witness:
  "\<exists>ids db'. purchase_transaction sample_rnd sample_orders 9 (sample_purchase ''evt_1'' 500000) sample_db = Inr (ids, db')
     \<and> unlocks_unique db'"
proof -
  obtain ids db' where tx: "purchase_transaction sample_rnd sample_orders 9 (sample_purchase ''evt_1'' 500000) sample_db
      = Inr (ids, db')" using sample_runs by blast
  have "unlocks_unique sample_db" by (simp add: unlocks_unique_def sample_db_def)
  with purchase_keeps_unlocks_unique [OF _ _ tx] tx show ?thesis by (auto simp: sample_hyps)
qed

section \<open>Sequences of deliveries\<close>

lemma stats_of_upsert:
  "stats_of u (upsert st_userId r t) = (if u = st_userId r then r else stats_of u t)"
  by (simp add: stats_of_def find_one_upsert)

lemma after_counting_user: "st_userId (after_counting event db) = pc_userId (payload event)"
proof -
  have "st_userId (stats_of u t) = u" for u t
    by (cases "find_one (\<lambda>r. st_userId r = u) t") (auto simp: stats_of_def dest: find_one_Some)
  then show ?thesis by (simp add: after_counting_def count_purchase_def)
qed

lemma handler_counters:
  assumes "handlePurchaseCompleted rnd od opts confirm now event (db, b) = (None, db', b')"
    and "\<not> processed (eventId event) db"
  shows "processed i db' \<longleftrightarrow> i = eventId event \<or> processed i db"
    and "st_purchaseCount (stats_of u (ld_stats db'))
      = st_purchaseCount (stats_of u (ld_stats db)) + (if u = pc_userId (payload event) then 1 else 0)"
    and "st_totalSpendKobo (stats_of u (ld_stats db'))
      = st_totalSpendKobo (stats_of u (ld_stats db)) + (if u = pc_userId (payload event) then pc_amountKobo (payload event) else 0)"
proof -
  obtain ids db1 t where tx: "purchase_transaction rnd od now event db = Inr (ids, db1)" "db' = db1\<lparr>ld_outbox := t\<rparr>"
    using handler_transaction [OF assms] by blast
  note c = transaction_counters [OF tx(1)]
  show "processed i db' \<longleftrightarrow> i = eventId event \<or> processed i db"
    using c(2) tx(2) by (simp add: processed_def)
  have s: "ld_stats db' = upsert st_userId (after_counting event db) (ld_stats db)"
    using c(1) tx(2) by simp
  show "st_purchaseCount (stats_of u (ld_stats db'))
      = st_purchaseCount (stats_of u (ld_stats db)) + (if u = pc_userId (payload event) then 1 else 0)"
    "st_totalSpendKobo (stats_of u (ld_stats db'))
      = st_totalSpendKobo (stats_of u (ld_stats db)) + (if u = pc_userId (payload event) then pc_amountKobo (payload event) else 0)"
    unfolding s stats_of_upsert after_counting_user by (simp_all add: after_counting_def count_purchase_def)
qed

text \<open>A sequence of deliveries that all succeed.\<close>

fun handled ::
  "('e \<Rightarrow> 's \<Rightarrow> string option \<times> 's) \<Rightarrow> 'e list \<Rightarrow> 's \<Rightarrow> 's option" where
  "handled h [] s = Some s"
| "handled h (e # es) s = (case h e s of (None, s') \<Rightarrow> handled h es s' | (Some _, _) \<Rightarrow> None)"

definition new_purchases :: "string \<Rightarrow> loyalty_db \<Rightarrow> purchase_completed_event set \<Rightarrow> purchase_completed_event set" where
  "new_purchases u db E = {e \<in> E. pc_userId (payload e) = u \<and> \<not> processed (eventId e) db}"

lemma new_purchases_step:
  assumes "\<And>i. processed i db' \<longleftrightarrow> i = eventId e \<or> processed i db" and "\<not> processed (eventId e) db"
    and "inj_on eventId (insert e E)"
  shows "new_purchases u db (insert e E)
    = (if pc_userId (payload e) = u then insert e (new_purchases u db' E) else new_purchases u db' E)"
    and "e \<notin> new_purchases u db' E"
proof -
  have same: "x = e" if "x \<in> E" "eventId x = eventId e" for x
    using that assms(3) by (auto simp: inj_on_def)
  show "e \<notin> new_purchases u db' E" using assms(1) by (simp add: new_purchases_def)
  show "new_purchases u db (insert e E)
    = (if pc_userId (payload e) = u then insert e (new_purchases u db' E) else new_purchases u db' E)"
    using assms(1,2) same by (auto simp: new_purchases_def)
qed

text \<open>
  Deliveries may be repeated and arrive in any order; the counters count each purchase once. After
  any sequence of successful deliveries in which an identifier always carries the same event, a
  user's purchase count and total spend have grown by exactly the number and the sum of the user's
  distinct purchases that had not been processed before.
\<close>

theorem purchases_counted_once:
  assumes "handled (handlePurchaseCompleted rnd od opts confirm now) es (db, b) = Some (db', b')"
    and "inj_on eventId (set es)"
  shows "st_purchaseCount (stats_of u (ld_stats db'))
      = st_purchaseCount (stats_of u (ld_stats db)) + int (card (new_purchases u db (set es)))
    \<and> st_totalSpendKobo (stats_of u (ld_stats db'))
      = st_totalSpendKobo (stats_of u (ld_stats db)) + (\<Sum>e \<in> new_purchases u db (set es). pc_amountKobo (payload e))"
  using assms
proof (induction es arbitrary: db b)
  case Nil
  then show ?case by (simp add: new_purchases_def)
next
  case (Cons e es)
  obtain db1 b1 where h: "handlePurchaseCompleted rnd od opts confirm now e (db, b) = (None, db1, b1)"
    and rest: "handled (handlePurchaseCompleted rnd od opts confirm now) es (db1, b1) = Some (db', b')"
    using Cons.prems(1) by (auto split: prod.splits option.splits)
  have inj: "inj_on eventId (set es)" using Cons.prems(2) by (simp add: inj_on_insert)
  note IH = Cons.IH [OF rest inj]
  show ?case
  proof (cases "processed (eventId e) db")
    case True
    then have "db1 = db" using h loyalty.done_skips [of e "(db, b)"] by simp
    moreover have "new_purchases u db (set (e # es)) = new_purchases u db (set es)"
      using True by (auto simp: new_purchases_def)
    ultimately show ?thesis using IH by simp
  next
    case False
    note c = handler_counters [OF h False]
    have fin: "finite (new_purchases u db1 (set es))" by (simp add: new_purchases_def)
    note s = new_purchases_step [of db1 e db "set es" u, OF c(1) False]
    show ?thesis
      using IH c(2,3) [of u] s Cons.prems(2) fin by (auto simp: card_insert_if)
  qed
qed

lemma handler_fails_iff:
  "handler_fails (handlePurchaseCompleted rnd od opts confirm now) event (db, b) \<longleftrightarrow>
     \<not> processed (eventId event) db \<and>
     \<not> (is_int4 (st_purchaseCount (after_counting event db)) \<and> is_int4 (st_totalSpendKobo (after_counting event db)))"
  by (auto simp: handler_fails_def handlePurchaseCompleted_def purchase_transaction_def after_counting_def
      Let_def split: prod.splits)

text \<open>Two sample purchases are handled.\<close>

lemma sample_handled:
  "\<exists>db' b'. handled (handlePurchaseCompleted sample_rnd sample_orders default_outbox_options (\<lambda>_. None) 9)
     [sample_purchase ''evt_1'' 500000, sample_purchase ''evt_1'' 500000] (sample_db, b) = Some (db', b')"
proof -
  let ?h = "handlePurchaseCompleted sample_rnd sample_orders default_outbox_options (\<lambda>_. None) 9"
  let ?e = "sample_purchase ''evt_1'' 500000"
  have "\<not> handler_fails ?h ?e (sample_db, b)"
    unfolding handler_fails_iff sample_counts by (simp add: is_int4_def)
  then obtain s where s: "?h ?e (sample_db, b) = (None, s)"
    unfolding handler_fails_def by (metis prod.collapse)
  then have "?h ?e s = (None, s)" using loyalty.success_done loyalty.done_skips by metis
  with s show ?thesis by simp
qed

theorem purchases_counted_once_witness:
  "\<exists>db' b'. handled (handlePurchaseCompleted sample_rnd sample_orders default_outbox_options (\<lambda>_. None) 9)
       [sample_purchase ''evt_1'' 500000, sample_purchase ''evt_1'' 500000] (sample_db, sample_bus) = Some (db', b')
     \<and> st_purchaseCount (stats_of ''usr_1'' (ld_stats db')) = 1
     \<and> st_totalSpendKobo (stats_of ''usr_1'' (ld_stats db')) = 500000"
proof -
  obtain db' b' where run: "handled (handlePurchaseCompleted sample_rnd sample_orders default_outbox_options (\<lambda>_. None) 9)
       [sample_purchase ''evt_1'' 500000, sample_purchase ''evt_1'' 500000] (sample_db, sample_bus) = Some (db', b')"
    using sample_handled by blast
  have "new_purchases ''usr_1'' sample_db {sample_purchase ''evt_1'' 500000} = {sample_purchase ''evt_1'' 500000}"
    by (auto simp: new_purchases_def processed_def exists_row_def sample_db_def sample_purchase_def)
  moreover have "stats_of ''usr_1'' (ld_stats sample_db) = \<lparr>st_userId = ''usr_1'', st_purchaseCount = 0, st_totalSpendKobo = 0\<rparr>"
    by (simp add: stats_of_def find_one_def sample_db_def)
  ultimately show ?thesis
    using purchases_counted_once [OF run, of "''usr_1''"] run by (simp add: sample_purchase_def)
qed

text \<open>
  C25. The whole way of a \<open>PurchaseCompleted\<close> message through broker and service: either the handler
  succeeds on the first run and the message is consumed, or the user's counters would leave the range
  of their \<open>integer\<close> columns, and then every one of the six runs fails, the message is dead-lettered and
  the loyalty database is exactly as before.
\<close>

theorem purchase_message_outcome:
  assumes "parse (content m) = Some event" and "retry_header m = None"
  shows "delivery parse (handlePurchaseCompleted rnd od opts confirm now) queue m (db, b) =
    (if \<not> processed (eventId event) db \<and>
        \<not> (is_int4 (st_purchaseCount (after_counting event db)) \<and> is_int4 (st_totalSpendKobo (after_counting event db)))
     then (DeadLettered, [1000, 2000, 4000, 8000, 16000], 6, (db, b))
     else (Consumed, [], 1, snd (handlePurchaseCompleted rnd od opts confirm now event (db, b))))"
  using loyalty.delivered_once_or_untouched [where parse = parse, OF assms] by (simp add: handler_fails_iff)

theorem purchase_message_outcome_witness:
  "delivery (\<lambda>_. Some (sample_purchase ''evt_1'' 3000000000))
      (handlePurchaseCompleted sample_rnd sample_orders default_outbox_options (\<lambda>_. None) 9) ''q''
      (sample_message ''x'') (sample_db, sample_bus)
     = (DeadLettered, [1000, 2000, 4000, 8000, 16000], 6, (sample_db, sample_bus))"
  using purchase_message_outcome [of "\<lambda>_. Some (sample_purchase ''evt_1'' 3000000000)" "sample_message ''x''"
      "sample_purchase ''evt_1'' 3000000000" sample_rnd sample_orders default_outbox_options "\<lambda>_. None" 9 "''q''" sample_db sample_bus]
  unfolding sample_counts by (simp add: sample_message_def is_int4_def sample_unprocessed)

text \<open>
  A second delivery of a purchase, at any later point, changes nothing: dropping it from the
  sequence of deliveries leaves the same final state, broker included.
\<close>

theorem purchase_redelivery_ignored:
  assumes "fst (handlePurchaseCompleted rnd od opts confirm now event
             (handle_all (handlePurchaseCompleted rnd od opts confirm now) xs s)) = None"
  shows "handle_all (handlePurchaseCompleted rnd od opts confirm now) (xs @ event # ys @ event # zs) s
       = handle_all (handlePurchaseCompleted rnd od opts confirm now) (xs @ event # ys @ zs) s"
  using assms by (rule loyalty.duplicate_dropped)

theorem purchase_redelivery_ignored_witness:
  "handle_all (handlePurchaseCompleted sample_rnd sample_orders default_outbox_options (\<lambda>_. None) 9)
      [sample_purchase ''evt_1'' 500000, sample_purchase ''evt_1'' 500000] (sample_db, sample_bus)
   = handle_all (handlePurchaseCompleted sample_rnd sample_orders default_outbox_options (\<lambda>_. None) 9)
      [sample_purchase ''evt_1'' 500000] (sample_db, sample_bus)"
proof -
  let ?h = "handlePurchaseCompleted sample_rnd sample_orders default_outbox_options (\<lambda>_. None) 9"
  have "\<not> handler_fails ?h (sample_purchase ''evt_1'' 500000) (sample_db, sample_bus)"
    unfolding handler_fails_iff sample_counts by (simp add: is_int4_def)
  then show ?thesis
    using purchase_redelivery_ignored [of sample_rnd sample_orders default_outbox_options "\<lambda>_. None" 9
        "sample_purchase ''evt_1'' 500000" "[]" "(sample_db, sample_bus)" "[]" "[]"]
    by (simp add: handler_fails_def)
qed

text \<open>
  The guard against repeated processing is read before the transaction and not inside it: when two
  deliveries of one event have both passed the check before either transaction commits, both
  transactions succeed and the purchase is counted twice.
\<close>

theorem racing_deliveries_count_twice:
  assumes "\<not> processed (eventId event) db"
    and "purchase_transaction rnd od now event db = Inr (ids, db1)"
    and "purchase_transaction rnd' od' now' event db1 = Inr (ids', db2)"
  shows "st_purchaseCount (stats_of (pc_userId (payload event)) (ld_stats db2))
      = st_purchaseCount (stats_of (pc_userId (payload event)) (ld_stats db)) + 2"
proof -
  let ?u = "pc_userId (payload event)"
  have count: "st_purchaseCount (stats_of ?u (ld_stats d')) = st_purchaseCount (stats_of ?u (ld_stats d)) + 1"
    if "purchase_transaction r o' n event d = Inr (i, d')" for r o' n i d d'
    using transaction_counters(1) [OF that]
    by (simp add: stats_of_upsert after_counting_user) (simp add: after_counting_def count_purchase_def)
  show ?thesis using count [OF assms(2)] count [OF assms(3)] by simp
qed

theorem racing_deliveries_count_twice_witness:
  "\<exists>ids ids' db1 db2.
     purchase_transaction sample_rnd sample_orders 9 (sample_purchase ''evt_1'' 500000) sample_db = Inr (ids, db1)
     \<and> purchase_transaction sample_rnd sample_orders 9 (sample_purchase ''evt_1'' 500000) db1 = Inr (ids', db2)
     \<and> st_purchaseCount (stats_of ''usr_1'' (ld_stats db2)) = 2"
proof -
  let ?e = "sample_purchase ''evt_1'' 500000"
  obtain ids db1 where tx: "purchase_transaction sample_rnd sample_orders 9 ?e sample_db = Inr (ids, db1)"
    using sample_runs by blast
  have s1: "stats_of ''usr_1'' (ld_stats db1) = \<lparr>st_userId = ''usr_1'', st_purchaseCount = 1, st_totalSpendKobo = 500000\<rparr>"
    using transaction_counters(1) [OF tx] by (simp add: stats_of_upsert sample_counts)
  then have "\<exists>ids' db2. purchase_transaction sample_rnd sample_orders 9 ?e db1 = Inr (ids', db2)"
    by (simp add: purchase_transaction_def sample_user count_purchase_def Let_def is_int4_def split: prod.splits)
      (simp add: sample_purchase_def is_int4_def)
  then obtain ids' db2 where tx': "purchase_transaction sample_rnd sample_orders 9 ?e db1 = Inr (ids', db2)" by blast
  have "\<not> processed (eventId ?e) sample_db" "st_purchaseCount (stats_of ''usr_1'' (ld_stats sample_db)) = 0"
    by (simp_all add: processed_def exists_row_def stats_of_def find_one_def sample_db_def)
  then show ?thesis using racing_deliveries_count_twice [OF _ tx tx'] tx tx' by (auto simp: sample_user)
qed

section \<open>The state shown to the user\<close>

lemma requirement_gap:
  "max (max (bc_requiredAchievementCount b - n) (int (length (filter (\<lambda>a. a \<notin> ids) (bc_requiredAchievementIds b))))) 0 = 0
     \<longleftrightarrow> meetsBadgeRequirement b n ids"
proof -
  have "max (max a (int k)) 0 = 0 \<longleftrightarrow> a \<le> 0 \<and> k = 0" for a k by auto
  then show ?thesis by (simp add: meetsBadgeRequirement_def filter_empty_conv list_all_iff)
qed

lemma next_badge_remaining:
  assumes "sql_orders od"
  shows "remainingToUnlockNextBadge (getBadgeState od u n ids db) \<ge> 0"
    and "remainingToUnlockNextBadge (getBadgeState od u n ids db) = 0 \<longleftrightarrow>
      (case List.find (\<lambda>b. bc_id b \<notin> badge_ids u db) (by_badge_sort od (active_badges db)) of
         None \<Rightarrow> True | Some b \<Rightarrow> meetsBadgeRequirement b n ids)"
proof -
  have ids: "ub_badgeId ` set (by_badge_time od (badges_of u db)) = badge_ids u db"
    by (simp add: sql_orders_set(4) [OF assms] badge_ids_def)
  show "remainingToUnlockNextBadge (getBadgeState od u n ids db) \<ge> 0"
    by (simp add: getBadgeState_def Let_def le_max_iff_disj split: option.splits)
  show "remainingToUnlockNextBadge (getBadgeState od u n ids db) = 0 \<longleftrightarrow>
      (case List.find (\<lambda>b. bc_id b \<notin> badge_ids u db) (by_badge_sort od (active_badges db)) of
         None \<Rightarrow> True | Some b \<Rightarrow> meetsBadgeRequirement b n ids)"
    unfolding getBadgeState_def Let_def ids badge_state.simps
    by (cases "List.find (\<lambda>b. bc_id b \<notin> badge_ids u db) (by_badge_sort od (active_badges db))")
      (simp_all only: option.case requirement_gap simp_thms)
qed

lemma transaction_configs:
  assumes "purchase_transaction rnd od now event db = Inr (ids, db')"
  shows "ld_badges db' = ld_badges db" and "ld_achievements db' = ld_achievements db"
  using assms by (auto simp: purchase_transaction_def Let_def unlockBadges_def split: if_splits)

text \<open>
  What the user sees after a purchase is up to date: the number of achievements still missing for the
  next badge is never negative, and it is zero only when no active badge is left, since a badge whose
  requirement was met has been unlocked by the purchase.
\<close>

theorem state_after_purchase:
  assumes "sql_orders od" and "distinct (map ac_id (ld_achievements db))"
    and "purchase_transaction rnd od now event db = Inr (ids, db')"
    and "fresh_draws rnd (ld_draws db) (ld_draws db') db" and "distinct (map bc_id (ld_badges db))"
  shows "0 \<le> remaining_to_unlock_next_badge (getAchievementState od (pc_userId (payload event)) db')
    \<and> (remaining_to_unlock_next_badge (getAchievementState od (pc_userId (payload event)) db') = 0 \<longleftrightarrow>
         (\<forall>badge \<in> set (active_badges db'). bc_id badge \<in> badge_ids (pc_userId (payload event)) db'))"
proof -
  let ?u = "pc_userId (payload event)" and ?n = "int (length (achievements_of (pc_userId (payload event)) db'))"
  let ?find = "List.find (\<lambda>b. bc_id b \<notin> badge_ids ?u db') (by_badge_sort od (active_badges db'))"
  have r: "remaining_to_unlock_next_badge (getAchievementState od ?u db')
      = remainingToUnlockNextBadge (getBadgeState od ?u ?n (achievement_ids ?u db') db')"
    by (simp add: getAchievementState_def Let_def achievement_ids_def sql_orders_set(3) [OF assms(1)]
        sql_orders_length(3) [OF assms(1)])
  have "\<not> meetsBadgeRequirement b ?n (achievement_ids ?u db')" if "?find = Some b" for b
  proof -
    have b: "b \<in> set (active_badges db')" "bc_id b \<notin> badge_ids ?u db'"
      using that find_SomeD sql_orders_set(2) [OF assms(1)] by (metis, metis)
    then have "b \<in> set (ld_badges db)" "bc_active b"
      using transaction_configs(1) [OF assms(3)] by (simp_all add: active_badges_def)
    then show ?thesis using transaction_badges [OF assms] b(2) by blast
  qed
  moreover have "?find = None \<longleftrightarrow> (\<forall>badge \<in> set (active_badges db'). bc_id badge \<in> badge_ids ?u db')"
    by (auto simp: find_None_iff sql_orders_set(2) [OF assms(1)])
  ultimately show ?thesis
    unfolding r using next_badge_remaining [OF assms(1)] by (auto split: option.splits)
qed

theorem state_after_purchase_witness:
  "\<exists>ids db'. purchase_transaction sample_rnd sample_orders 9 (sample_purchase ''evt_1'' 500000) sample_db = Inr (ids, db')
     \<and> 0 \<le> remaining_to_unlock_next_badge (getAchievementState sample_orders ''usr_1'' db')"
proof -
  obtain ids db' where tx: "purchase_transaction sample_rnd sample_orders 9 (sample_purchase ''evt_1'' 500000) sample_db
      = Inr (ids, db')" using sample_runs by blast
  from state_after_purchase [OF _ _ tx] tx show ?thesis by (auto simp: sample_hyps)
qed

definition locked :: "string \<Rightarrow> loyalty_db \<Rightarrow> achievement_config \<Rightarrow> bool" where
  "locked u db c \<longleftrightarrow> ac_active c \<and> ac_id c \<notin> achievement_ids u db"

lemma find_sorted_min:
  assumes "sorted_wrt le xs" and "List.find P xs = Some x" and "y \<in> set xs" and "P y"
  shows "x = y \<or> le x y"
  using assms by (induction xs) (auto split: if_splits)

lemma length_map_filter: "length (List.map_filter f xs) = length (filter (\<lambda>x. f x \<noteq> None) xs)"
  by (induction xs) (auto simp: map_filter_simps split: option.splits)

text \<open>
  The next available achievements: exactly one per group that still has a locked active
  achievement, and each is a locked one with the smallest sort order in its group.
\<close>

theorem next_available_per_group:
  assumes "sql_orders od"
  shows "length (next_available_achievements (getAchievementState od u db))
      = card (ac_groupKey ` {c \<in> set (ld_achievements db). locked u db c})
    \<and> (\<forall>name \<in> set (next_available_achievements (getAchievementState od u db)).
         \<exists>c \<in> set (ld_achievements db). ac_name c = name \<and> locked u db c \<and>
           (\<forall>d \<in> set (ld_achievements db). locked u db d \<and> ac_groupKey d = ac_groupKey c
              \<longrightarrow> ac_sortOrder c \<le> ac_sortOrder d))"
proof -
  let ?cs = "by_group od (active_achievements db)" and ?P = "\<lambda>c. ac_id c \<notin> achievement_ids u db"
  let ?groups = "rev (remdups (rev (map ac_groupKey ?cs)))"
  let ?of = "\<lambda>g. List.find ?P (filter (\<lambda>c. ac_groupKey c = g) ?cs)"
  have set_cs: "set ?cs = {c \<in> set (ld_achievements db). ac_active c}"
    by (auto simp: sql_orders_set(1) [OF assms] active_achievements_def)
  have na: "next_available_achievements (getAchievementState od u db) = map ac_name (List.map_filter ?of ?groups)"
    by (simp add: getAchievementState_def Let_def group_values_def sql_orders_set(3) [OF assms]
        achievement_ids_def List.map_filter_def filter_map comp_def)
  have "?of g \<noteq> None \<longleftrightarrow> g \<in> ac_groupKey ` {c \<in> set (ld_achievements db). locked u db c}" for g
    using set_cs by (auto simp: find_None_iff locked_def)
  then have "set (filter (\<lambda>g. ?of g \<noteq> None) ?groups) = ac_groupKey ` {c \<in> set (ld_achievements db). locked u db c}"
    using set_cs by (auto simp: locked_def)
  then have len: "length (List.map_filter ?of ?groups) = card (ac_groupKey ` {c \<in> set (ld_achievements db). locked u db c})"
    unfolding length_map_filter by (subst distinct_card [symmetric]) auto
  have sorted: "sorted_wrt (\<lambda>a b. ac_groupKey a = ac_groupKey b \<longrightarrow> ac_sortOrder a \<le> ac_sortOrder b) (filter Q ?cs)" for Q
    using sql_ordersD(1) [OF assms] by (simp add: orders_def sorted_wrt_filter)
  have least: "c \<in> set (ld_achievements db) \<and> locked u db c \<and>
      (\<forall>d \<in> set (ld_achievements db). locked u db d \<and> ac_groupKey d = ac_groupKey c \<longrightarrow> ac_sortOrder c \<le> ac_sortOrder d)"
    if "?of g = Some c" for g c
    using find_SomeD [OF that] find_sorted_min [OF sorted that] set_cs by (force simp: locked_def)
  show ?thesis unfolding na using len least by (fastforce simp: List.map_filter_def)
qed

theorem next_available_per_group_witness:
  "length (next_available_achievements (getAchievementState sample_orders ''usr_1'' sample_db)) = 1"
proof -
  have "{c \<in> set (ld_achievements sample_db). locked ''usr_1'' sample_db c} = set (ld_achievements sample_db)"
    by (auto simp: locked_def achievement_ids_def achievements_of_def sample_db_def)
  moreover have "ac_groupKey ` set (ld_achievements sample_db) = {''g''}" by (simp add: sample_db_def)
  ultimately show ?thesis
    using next_available_per_group [OF sample_orders_ok(1), of "''usr_1''" sample_db] by simp
qed

end
