(* ===== verification/Payments.thy ===== *)
theory Payments
  imports Events
begin

text \<open>
  \<open>apps/cashback-service/src/payments\<close>: failure classification (\<open>payment-provider.ts\<close>), the mock and the
  Paystack provider, the provider factory and the bank list. The network is an argument: \<open>responses n\<close> is
  what the \<open>n\<close>-th \<open>fetch\<close> yields, \<open>parse\<close> is \<open>JSON.parse\<close>, and the world records the requests posted.

  The locale \<open>payment_provider\<close> is the contract the cashback worker relies on; both providers satisfy it.
\<close>

section \<open>Failures\<close>

text \<open>
  A \<open>CashbackPaymentError\<close>. Code and retryability are \<open>undefined\<close> in one case: the provider's error code
  names a property every object inherits (see \<open>map_error_code\<close>).
\<close>

record payment_failure =
  cf_message :: string
  cf_code :: "cashback_failure_code option"
  cf_retryable :: "bool option"

datatype thrown = PaymentError payment_failure | PlainError string

definition payment_error :: "string \<Rightarrow> cashback_failure_code \<Rightarrow> bool \<Rightarrow> payment_failure" where
  "payment_error m c r = \<lparr>cf_message = m, cf_code = Some c, cf_retryable = Some r\<rparr>"

definition missing_bank_details :: "string \<Rightarrow> payment_failure" where
  "missing_bank_details m = payment_error m MissingBankDetails False"

definition default_missing_message :: string where
  "default_missing_message = ''User payout account is required before cashback can be processed''"

definition mentions :: "string list \<Rightarrow> string \<Rightarrow> bool" where
  "mentions ps s \<longleftrightarrow> list_ex (contains s) ps"

definition line_end :: "char \<Rightarrow> bool" where
  "line_end c \<longleftrightarrow> code c \<in> {10, 13}"

text \<open>The pattern \<open>duplicate.*reference\<close>; the dot does not match a line end.\<close>

fun duplicate_reference :: "string \<Rightarrow> bool" where
  "duplicate_reference [] = False"
| "duplicate_reference (c # s) =
     ((starts_with (c # s) ''duplicate'' \<and>
       contains (takeWhile (\<lambda>x. \<not> line_end x) (drop 9 (c # s))) ''reference'') \<or> duplicate_reference s)"

text \<open>The pattern \<open>5\d\d\<close>.\<close>

fun server_error_code :: "string \<Rightarrow> bool" where
  "server_error_code (a # b # c # s) =
     ((a = CHR ''5'' \<and> is_digit b \<and> is_digit c) \<or> server_error_code (b # c # s))"
| "server_error_code _ = False"

definition classifyCashbackFailure :: "thrown \<Rightarrow> payment_failure" where
  "classifyCashbackFailure err =
     (case err of
        PaymentError f \<Rightarrow> f
      | PlainError message \<Rightarrow>
          (let lower = toLowerCase message in
           if mentions [''insufficient balance'', ''insufficient funds'', ''balance is not enough'',
                        ''not enough balance'', ''not enough funds''] lower
           then payment_error message InsufficientBalance True
           else if mentions [''cannot resolve account'', ''invalid account'', ''invalid bank'', ''could not resolve''] lower
           then payment_error message InvalidAccount False
           else if duplicate_reference lower then payment_error message DuplicateReference True
           else if mentions [''timed out'', ''timeout'', ''econnrefused'', ''enotfound'', ''fetch failed'', ''network'',
                             ''too many requests'', ''rate limit''] lower \<or> server_error_code lower
           then payment_error message ProviderUnavailable True
           else payment_error message ProviderRejected False))"

section \<open>Requests and results\<close>

record payment_request =
  cr_userId :: string
  cr_userName :: string
  cr_badgeName :: string
  cr_amountKobo :: int
  cr_bankAccountNumber :: "string option"
  cr_bankCode :: "string option"
  cr_providerRecipientCode :: "string option"
  cr_reference :: string

record payment_result =
  rs_provider :: payment_provider_name
  rs_reference :: string
  rs_status :: payment_status
  rs_providerRecipientCode :: "string option"

record network =
  net_posts :: "(string \<times> json_object) list"

definition mock_sendCashback :: "payment_request \<Rightarrow> network \<Rightarrow> (thrown + payment_result) \<times> network" where
  "mock_sendCashback request net =
     (Inr \<lparr>rs_provider = Mock, rs_reference = cr_reference request, rs_status = Successful,
           rs_providerRecipientCode = None\<rparr>, net)"

section \<open>Paystack\<close>

datatype fetch_response = NetworkFailure string | Response nat string

definition response_ok :: "nat \<Rightarrow> bool" where
  "response_ok status \<longleftrightarrow> 200 \<le> status \<and> status \<le> 299"

definition readString :: "json_object \<Rightarrow> string \<Rightarrow> string option" where
  "readString source key = (case obj_get source key of Some (JStr s) \<Rightarrow> Some s | _ \<Rightarrow> None)"

definition readBoolean :: "json_object \<Rightarrow> string \<Rightarrow> bool option" where
  "readBoolean source key = (case obj_get source key of Some (JBool b) \<Rightarrow> Some b | _ \<Rightarrow> None)"

definition readRequiredString :: "string \<Rightarrow> json_object \<Rightarrow> string \<Rightarrow> thrown + string" where
  "readRequiredString what source key =
     (case readString source key of
        Some s \<Rightarrow> if s = [] then Inl (PlainError (what @ '' is missing '' @ key)) else Inr s
      | None \<Rightarrow> Inl (PlainError (what @ '' is missing '' @ key)))"

definition readRequiredObject :: "string \<Rightarrow> json_object \<Rightarrow> string \<Rightarrow> thrown + json_object" where
  "readRequiredObject what source key =
     (case obj_get source key of
        Some (JObj kvs) \<Rightarrow> Inr kvs
      | _ \<Rightarrow> Inl (PlainError (what @ '' is missing '' @ key)))"

definition parseJsonObject :: "(string \<Rightarrow> string + json) \<Rightarrow> string \<Rightarrow> thrown + json_object" where
  "parseJsonObject parse txt =
     (case parse txt of
        Inl err \<Rightarrow> Inl (PlainError err)
      | Inr (JObj kvs) \<Rightarrow> Inr kvs
      | Inr _ \<Rightarrow> Inl (PlainError ''Paystack returned an invalid JSON response''))"

text \<open>
  The lookup \<open>PAYSTACK_ERROR_CODE_MAP[errorCode]\<close>. An object literal also answers to the two all-lower-case
  names it inherits, with values that have neither \<open>code\<close> nor \<open>retryable\<close>.
\<close>

definition map_error_code :: "string \<Rightarrow> (cashback_failure_code option \<times> bool option) option" where
  "map_error_code c =
     (if c = ''insufficient_balance'' then Some (Some InsufficientBalance, Some True)
      else if c \<in> {''invalid_bank_code'', ''invalid_account_number'', ''invalid_transfer_recipient''}
      then Some (Some InvalidAccount, Some False)
      else if c = ''duplicate_transfer_reference'' then Some (Some DuplicateReference, Some True)
      else if c = ''invalid_key'' then Some (Some ProviderMisconfigured, Some False)
      else if c \<in> {''missing_params'', ''invalid_params'', ''invalid_amount''} then Some (Some ProviderRejected, Some False)
      else if c \<in> {''constructor'', ''__proto__''} then Some (None, None)
      else None)"

definition rejected_response :: "nat \<Rightarrow> json_object \<Rightarrow> thrown" where
  "rejected_response status body =
     (let message = (case readString body ''message'' of Some m \<Rightarrow> m | None \<Rightarrow> ''Paystack request failed'');
          errorCode = map_option toLowerCase (readString body ''code'') in
      if status = 429 \<or> 500 \<le> status then PaymentError (payment_error message ProviderUnavailable True)
      else (case (if truthy errorCode then map_error_code (the errorCode) else None) of
              Some (c, r) \<Rightarrow> PaymentError \<lparr>cf_message = message, cf_code = c, cf_retryable = r\<rparr>
            | None \<Rightarrow> PaymentError (classifyCashbackFailure (PlainError message))))"

definition postToPaystack ::
  "(nat \<Rightarrow> fetch_response) \<Rightarrow> (string \<Rightarrow> string + json) \<Rightarrow> string \<Rightarrow> json_object \<Rightarrow> network
     \<Rightarrow> (thrown + json_object) \<times> network" where
  "postToPaystack responses parse path body net =
     (let net' = net\<lparr>net_posts := net_posts net @ [(path, body)]\<rparr> in
      case responses (length (net_posts net)) of
        NetworkFailure m \<Rightarrow>
          (Inl (PaymentError (payment_error (''Could not reach Paystack: '' @ m) ProviderUnavailable True)), net')
      | Response status txt \<Rightarrow>
          (case parseJsonObject parse txt of
             Inl err \<Rightarrow> (Inl err, net')
           | Inr answer \<Rightarrow>
               if \<not> response_ok status \<or> readBoolean answer ''status'' \<noteq> Some True
               then (Inl (rejected_response status answer), net')
               else (readRequiredObject ''Paystack response'' answer ''data'', net')))"

definition transfer_body :: "payment_request \<Rightarrow> string \<Rightarrow> json_object" where
  "transfer_body request recipientCode =
     [(''source'', JStr ''balance''), (''amount'', JNum (Fin (of_int (cr_amountKobo request)))),
      (''reference'', JStr (cr_reference request)), (''recipient'', JStr recipientCode),
      (''reason'', JStr (''Bumpa cashback for '' @ cr_badgeName request))]"

definition recipient_body :: "payment_request \<Rightarrow> json_object" where
  "recipient_body request =
     [(''type'', JStr ''nuban''), (''name'', JStr (cr_userName request)),
      (''account_number'', JStr (the (cr_bankAccountNumber request))),
      (''bank_code'', JStr (the (cr_bankCode request))), (''currency'', JStr ''NGN''),
      (''description'', JStr (''Bumpa cashback recipient for '' @ cr_userId request))]"

definition createTransferRecipient ::
  "(nat \<Rightarrow> fetch_response) \<Rightarrow> (string \<Rightarrow> string + json) \<Rightarrow> payment_request \<Rightarrow> network \<Rightarrow> (thrown + string) \<times> network" where
  "createTransferRecipient responses parse request net =
     (if \<not> truthy (cr_bankAccountNumber request)
      then (Inl (PlainError ''Paystack cashback requires bank account number''), net)
      else if \<not> truthy (cr_bankCode request) then (Inl (PlainError ''Paystack cashback requires bank code''), net)
      else (case postToPaystack responses parse ''/transferrecipient'' (recipient_body request) net of
              (Inl err, net') \<Rightarrow> (Inl err, net')
            | (Inr data, net') \<Rightarrow> (readRequiredString ''Paystack response'' data ''recipient_code'', net')))"

definition initiateTransfer ::
  "(nat \<Rightarrow> fetch_response) \<Rightarrow> (string \<Rightarrow> string + json) \<Rightarrow> payment_request \<Rightarrow> string \<Rightarrow> network \<Rightarrow> (thrown + string) \<times> network" where
  "initiateTransfer responses parse request recipientCode net =
     (case postToPaystack responses parse ''/transfer'' (transfer_body request recipientCode) net of
        (Inl err, net') \<Rightarrow> (Inl err, net')
      | (Inr data, net') \<Rightarrow>
          (Inr (case readString data ''reference'' of Some r \<Rightarrow> r | None \<Rightarrow> cr_reference request), net'))"

definition paystack_sendCashback ::
  "string option \<Rightarrow> (nat \<Rightarrow> fetch_response) \<Rightarrow> (string \<Rightarrow> string + json) \<Rightarrow> payment_request \<Rightarrow> network
     \<Rightarrow> (thrown + payment_result) \<times> network" where
  "paystack_sendCashback secretKey responses parse request net =
     (if \<not> truthy secretKey
      then (Inr \<lparr>rs_provider = Paystack, rs_reference = cr_reference request, rs_status = Successful,
                 rs_providerRecipientCode = None\<rparr>, net)
      else if \<not> truthy (cr_bankAccountNumber request) \<or> \<not> truthy (cr_bankCode request)
      then (Inl (PaymentError (missing_bank_details
              ''Bank account number and bank code are required for Paystack cashback'')), net)
      else (case (case cr_providerRecipientCode request of
                    Some c \<Rightarrow> (Inr c, net)
                  | None \<Rightarrow> createTransferRecipient responses parse request net) of
              (Inl err, net1) \<Rightarrow> (Inl err, net1)
            | (Inr recipientCode, net1) \<Rightarrow>
                (case initiateTransfer responses parse request recipientCode net1 of
                   (Inl err, net2) \<Rightarrow> (Inl err, net2)
                 | (Inr reference, net2) \<Rightarrow>
                     (Inr \<lparr>rs_provider = Paystack, rs_reference = reference, rs_status = Pending,
                           rs_providerRecipientCode = Some recipientCode\<rparr>, net2))))"

section \<open>The factory\<close>

definition getProvider :: "string option \<Rightarrow> payment_provider_name" where
  "getProvider configured =
     (if truthy configured \<and> the configured = provider_name_value Paystack then Paystack else Mock)"

definition sendCashback ::
  "string option \<Rightarrow> string option \<Rightarrow> (nat \<Rightarrow> fetch_response) \<Rightarrow> (string \<Rightarrow> string + json) \<Rightarrow> payment_request \<Rightarrow> network
     \<Rightarrow> (thrown + payment_result) \<times> network" where
  "sendCashback configured secretKey responses parse =
     (case getProvider configured of
        Mock \<Rightarrow> mock_sendCashback
      | Paystack \<Rightarrow> paystack_sendCashback secretKey responses parse)"

section \<open>The bank list\<close>

record bank_listing =
  bank_name :: string
  bank_code :: string

definition NIGERIAN_BANKS_FALLBACK :: "bank_listing list" where
  "NIGERIAN_BANKS_FALLBACK =
     [\<lparr>bank_name = ''Access Bank'', bank_code = ''044''\<rparr>,
      \<lparr>bank_name = ''Citibank Nigeria'', bank_code = ''023''\<rparr>,
      \<lparr>bank_name = ''Ecobank Nigeria'', bank_code = ''050''\<rparr>,
      \<lparr>bank_name = ''Fidelity Bank'', bank_code = ''070''\<rparr>,
      \<lparr>bank_name = ''First Bank of Nigeria'', bank_code = ''011''\<rparr>,
      \<lparr>bank_name = ''First City Monument Bank'', bank_code = ''214''\<rparr>,
      \<lparr>bank_name = ''Globus Bank'', bank_code = ''00103''\<rparr>,
      \<lparr>bank_name = ''Guaranty Trust Bank'', bank_code = ''058''\<rparr>,
      \<lparr>bank_name = ''Heritage Bank'', bank_code = ''030''\<rparr>,
      \<lparr>bank_name = ''Keystone Bank'', bank_code = ''082''\<rparr>,
      \<lparr>bank_name = ''Kuda Bank'', bank_code = ''50211''\<rparr>,
      \<lparr>bank_name = ''Moniepoint MFB'', bank_code = ''50515''\<rparr>,
      \<lparr>bank_name = ''Opay'', bank_code = ''999992''\<rparr>,
      \<lparr>bank_name = ''Palmpay'', bank_code = ''999991''\<rparr>,
      \<lparr>bank_name = ''Polaris Bank'', bank_code = ''076''\<rparr>,
      \<lparr>bank_name = ''Providus Bank'', bank_code = ''101''\<rparr>,
      \<lparr>bank_name = ''Stanbic IBTC Bank'', bank_code = ''221''\<rparr>,
      \<lparr>bank_name = ''Standard Chartered Bank'', bank_code = ''068''\<rparr>,
      \<lparr>bank_name = ''Sterling Bank'', bank_code = ''232''\<rparr>,
      \<lparr>bank_name = ''Suntrust Bank'', bank_code = ''100''\<rparr>,
      \<lparr>bank_name = ''Union Bank of Nigeria'', bank_code = ''032''\<rparr>,
      \<lparr>bank_name = ''United Bank For Africa'', bank_code = ''033''\<rparr>,
      \<lparr>bank_name = ''Unity Bank'', bank_code = ''215''\<rparr>,
      \<lparr>bank_name = ''Wema Bank'', bank_code = ''035''\<rparr>,
      \<lparr>bank_name = ''Zenith Bank'', bank_code = ''057''\<rparr>]"

definition CACHE_TTL_MS :: int where "CACHE_TTL_MS = 43200000"

type_synonym bank_cache = "(bank_listing list \<times> int) option"

definition bank_entry :: "json \<Rightarrow> bank_listing option" where
  "bank_entry j =
     (case j of
        JObj kvs \<Rightarrow>
          (let n = (case readString kvs ''name'' of Some s \<Rightarrow> s | None \<Rightarrow> []);
               c = (case readString kvs ''code'' of Some s \<Rightarrow> s | None \<Rightarrow> [])
           in if n \<noteq> [] \<and> c \<noteq> [] then Some \<lparr>bank_name = n, bank_code = c\<rparr> else None)
      | _ \<Rightarrow> None)"

definition fetchFromPaystack ::
  "fetch_response \<Rightarrow> (string \<Rightarrow> string + json) \<Rightarrow> bank_cache \<Rightarrow> thrown + bank_listing list" where
  "fetchFromPaystack response parse cached =
     (case response of
        NetworkFailure m \<Rightarrow> Inr (case cached of Some (banks, _) \<Rightarrow> banks | None \<Rightarrow> NIGERIAN_BANKS_FALLBACK)
      | Response status txt \<Rightarrow>
          (case parse txt of
             Inl _ \<Rightarrow> Inl (PaymentError (payment_error ''Paystack returned an invalid bank list response'' ProviderUnavailable True))
           | Inr body \<Rightarrow>
               if \<not> response_ok status \<or> json_get body ''status'' \<noteq> Some (JBool True)
               then (let message = (case json_get body ''message'' of Some (JStr m) \<Rightarrow> m | _ \<Rightarrow> ''Paystack bank list request failed'')
                     in if status = 429 \<or> 500 \<le> status
                        then Inl (PaymentError (payment_error message ProviderUnavailable True))
                        else Inl (PaymentError (classifyCashbackFailure (PlainError message))))
               else (case json_get body ''data'' of
                       Some (JArr entries) \<Rightarrow> Inr (List.map_filter bank_entry entries)
                     | _ \<Rightarrow> Inl (PaymentError (payment_error ''Paystack bank list response is missing data'' ProviderUnavailable True)))))"

definition getBanks ::
  "string option \<Rightarrow> fetch_response \<Rightarrow> (string \<Rightarrow> string + json) \<Rightarrow> int \<Rightarrow> bank_cache \<Rightarrow> (thrown + bank_listing list) \<times> bank_cache" where
  "getBanks secretKey response parse now cached =
     (if \<not> truthy secretKey then (Inr NIGERIAN_BANKS_FALLBACK, cached)
      else (case cached of
              Some (banks, fetchedAt) \<Rightarrow>
                if now - fetchedAt < CACHE_TTL_MS then (Inr banks, cached)
                else (case fetchFromPaystack response parse cached of
                        Inl err \<Rightarrow> (Inl err, cached)
                      | Inr fresh \<Rightarrow> (Inr fresh, Some (fresh, now)))
            | None \<Rightarrow>
                (case fetchFromPaystack response parse cached of
                   Inl err \<Rightarrow> (Inl err, cached)
                 | Inr fresh \<Rightarrow> (Inr fresh, Some (fresh, now)))))"

definition listBanks ::
  "string option \<Rightarrow> fetch_response \<Rightarrow> (string \<Rightarrow> string + json) \<Rightarrow> int \<Rightarrow> string option \<Rightarrow> bank_cache
     \<Rightarrow> (thrown + bank_listing list) \<times> bank_cache" where
  "listBanks secretKey response parse now search cached =
     (case getBanks secretKey response parse now cached of
        (Inl err, c) \<Rightarrow> (Inl err, c)
      | (Inr banks, c) \<Rightarrow>
          if \<not> truthy search then (Inr banks, c)
          else (let needle = toLowerCase (trim (the search))
                in (Inr (filter (\<lambda>b. contains (toLowerCase (bank_name b)) needle \<or> contains (bank_code b) needle) banks), c)))"

section \<open>The contract of a provider\<close>

definition is_transfer :: "string \<times> json_object \<Rightarrow> bool" where
  "is_transfer p \<longleftrightarrow> fst p = ''/transfer''"

definition transfers :: "network \<Rightarrow> json_object list" where
  "transfers net = map snd (filter is_transfer (net_posts net))"

fun send_all ::
  "(payment_request \<Rightarrow> network \<Rightarrow> (thrown + payment_result) \<times> network) \<Rightarrow> payment_request list \<Rightarrow> network \<Rightarrow> network" where
  "send_all send [] net = net"
| "send_all send (r # rs) net = send_all send rs (snd (send r net))"

text \<open>
  A provider orders at most one transfer per call, for the amount and reference of the request; it
  reports no failure as a result; and a pending result means that the transfer was ordered.
\<close>

locale payment_provider =
  fixes send :: "payment_request \<Rightarrow> network \<Rightarrow> (thrown + payment_result) \<times> network"
  assumes orders_one: "\<exists>ts. transfers (snd (send r net)) = transfers net @ ts \<and> length ts \<le> 1 \<and> (\<forall>t \<in> set ts. \<exists>c. t = transfer_body r c)"
    and result_not_failed: "fst (send r net) = Inr res \<Longrightarrow> rs_status res \<noteq> Failed"
    and pending_ordered: "fst (send r net) = Inr res \<Longrightarrow> rs_status res = Pending \<Longrightarrow>
      length (transfers (snd (send r net))) = Suc (length (transfers net))"
begin

lemma send_all_transfers:
  "\<exists>ts. transfers (send_all send rs net) = transfers net @ ts \<and> length ts \<le> length rs
     \<and> (\<forall>t \<in> set ts. \<exists>r \<in> set rs. \<exists>c. t = transfer_body r c)"
proof (induction rs arbitrary: net)
  case Nil
  then show ?case by simp
next
  case (Cons r rs)
  obtain ts where ts: "transfers (snd (send r net)) = transfers net @ ts" "length ts \<le> 1"
    "\<forall>t \<in> set ts. \<exists>c. t = transfer_body r c"
    using orders_one by blast
  obtain us where us: "transfers (send_all send rs (snd (send r net))) = transfers (snd (send r net)) @ us"
    "length us \<le> length rs" "\<forall>t \<in> set us. \<exists>r \<in> set rs. \<exists>c. t = transfer_body r c"
    using Cons.IH by blast
  from ts us show ?case by (intro exI [of _ "ts @ us"]) auto
qed

end

lemma post_transfers:
  "transfers (snd (postToPaystack responses parse path body net))
     = transfers net @ (if path = ''/transfer'' then [body] else [])"
  by (auto simp: postToPaystack_def transfers_def is_transfer_def Let_def split: fetch_response.splits sum.splits)

lemma recipient_transfers: "transfers (snd (createTransferRecipient responses parse r net)) = transfers net"
proof -
  obtain a net' where p: "postToPaystack responses parse ''/transferrecipient'' (recipient_body r) net = (a, net')" by fastforce
  then have "transfers net' = transfers net" using post_transfers [of responses parse "''/transferrecipient''" "recipient_body r" net] by simp
  with p show ?thesis by (auto simp: createTransferRecipient_def split: sum.splits)
qed

lemma initiate_transfers:
  "transfers (snd (initiateTransfer responses parse r c net)) = transfers net @ [transfer_body r c]"
proof -
  obtain a net' where p: "postToPaystack responses parse ''/transfer'' (transfer_body r c) net = (a, net')" by fastforce
  then have "transfers net' = transfers net @ [transfer_body r c]"
    using post_transfers [of responses parse "''/transfer''" "transfer_body r c" net] by simp
  with p show ?thesis by (auto simp: initiateTransfer_def split: sum.splits)
qed

lemma paystack_cases:
  obtains (none) "transfers (snd (paystack_sendCashback secret responses parse r net)) = transfers net"
      "\<forall>res. fst (paystack_sendCashback secret responses parse r net) = Inr res \<longrightarrow> rs_status res = Successful"
  | (ordered) c where "transfers (snd (paystack_sendCashback secret responses parse r net)) = transfers net @ [transfer_body r c]"
      "\<forall>res. fst (paystack_sendCashback secret responses parse r net) = Inr res \<longrightarrow> rs_status res = Pending"
proof (cases "truthy secret \<and> truthy (cr_bankAccountNumber r) \<and> truthy (cr_bankCode r)")
  case False
  with none show thesis by (auto simp: paystack_sendCashback_def)
next
  case True
  let ?rec = "case cr_providerRecipientCode r of Some c \<Rightarrow> (Inr c, net) | None \<Rightarrow> createTransferRecipient responses parse r net"
  obtain a net1 where rec: "?rec = (a, net1)" by fastforce
  have net1: "transfers net1 = transfers net"
    using rec recipient_transfers [of responses parse r net] by (auto split: option.splits)
  show thesis
  proof (cases a)
    case (Inl err)
    with True rec net1 none show thesis by (simp add: paystack_sendCashback_def)
  next
    case (Inr c)
    obtain x net2 where it: "initiateTransfer responses parse r c net1 = (x, net2)" by fastforce
    then have "transfers net2 = transfers net @ [transfer_body r c]"
      using initiate_transfers [of responses parse r c net1] net1 by simp
    with True rec Inr it ordered [of c] show thesis
      by (cases x) (auto simp: paystack_sendCashback_def)
  qed
qed

interpretation mock: payment_provider mock_sendCashback
  by unfold_locales (auto simp: mock_sendCashback_def)

interpretation paystack: payment_provider "paystack_sendCashback secretKey responses parse"
  for secretKey responses parse
proof
  let ?send = "paystack_sendCashback secretKey responses parse"
  show "\<exists>ts. transfers (snd (?send r net)) = transfers net @ ts \<and> length ts \<le> 1 \<and> (\<forall>t \<in> set ts. \<exists>c. t = transfer_body r c)" for r net
    by (rule paystack_cases [of secretKey responses parse r net]) auto
  show "rs_status res \<noteq> Failed" if "fst (?send r net) = Inr res" for r net res
    by (rule paystack_cases [of secretKey responses parse r net]) (use that in auto)
  show "length (transfers (snd (?send r net))) = Suc (length (transfers net))"
    if "fst (?send r net) = Inr res" "rs_status res = Pending" for r net res
    by (rule paystack_cases [of secretKey responses parse r net]) (use that in auto)
qed

interpretation configured: payment_provider "sendCashback configured secretKey responses parse"
  for configured secretKey responses parse
proof (cases "getProvider configured")
  case Mock
  then show "payment_provider (sendCashback configured secretKey responses parse)"
    using mock.payment_provider_axioms by (simp add: sendCashback_def)
next
  case Paystack
  then show "payment_provider (sendCashback configured secretKey responses parse)"
    using paystack.payment_provider_axioms by (simp add: sendCashback_def)
qed

section \<open>Properties\<close>


text \<open>An accepted transfer, for the witness.\<close>

definition sample_request :: payment_request where
  "sample_request = \<lparr>cr_userId = ''usr_1'', cr_userName = ''Ada'', cr_badgeName = ''Bronze'', cr_amountKobo = 30000,
     cr_bankAccountNumber = Some ''0123456789'', cr_bankCode = Some ''058'', cr_providerRecipientCode = Some ''RCP_1'',
     cr_reference = ''paystack_cbk_1''\<rparr>"


text \<open>
  Failure classification is total and keeps the message, and it says "retryable" exactly for the
  codes that can heal by waiting: insufficient balance, duplicate reference, provider unavailable. An
  error that is already classified passes unchanged, so classifying twice is classifying once.
\<close>

theorem classification_consistent:
  "cf_message (classifyCashbackFailure (PlainError m)) = m
   \<and> cf_retryable (classifyCashbackFailure (PlainError m))
       = Some (cf_code (classifyCashbackFailure (PlainError m))
                 \<in> {Some InsufficientBalance, Some DuplicateReference, Some ProviderUnavailable})
   \<and> cf_code (classifyCashbackFailure (PlainError m)) \<notin> {None, Some MissingBankDetails, Some ProviderMisconfigured}
   \<and> classifyCashbackFailure (PaymentError (classifyCashbackFailure err)) = classifyCashbackFailure err"
  by (simp add: classifyCashbackFailure_def payment_error_def Let_def)

text \<open>
  The bank list cache keeps what it served during an outage: when Paystack is unreachable and
  nothing is cached, the static list is stored as if it had been fetched, and for the next twelve hours
  every request is answered from it even though Paystack answers again.
\<close>

theorem outage_freezes_bank_list:
  assumes "truthy secretKey" and "now \<le> later" and "later < now + CACHE_TTL_MS"
  shows "getBanks secretKey response parse later (snd (getBanks secretKey (NetworkFailure m) parse now None))
    = (Inr NIGERIAN_BANKS_FALLBACK, Some (NIGERIAN_BANKS_FALLBACK, now))"
  using assms by (simp add: getBanks_def fetchFromPaystack_def)

theorem outage_freezes_bank_list_witness:
  "getBanks (Some ''sk'') (Response 200 ''ok'') (\<lambda>_. Inr (JObj [(''status'', JBool True), (''data'', JArr [])])) 1000
     (snd (getBanks (Some ''sk'') (NetworkFailure ''down'') (\<lambda>_. Inl []) 0 None))
   = (Inr NIGERIAN_BANKS_FALLBACK, Some (NIGERIAN_BANKS_FALLBACK, 0))"
proof -
  have "snd (getBanks (Some ''sk'') (NetworkFailure ''down'') (\<lambda>_. Inl []) 0 None)
      = snd (getBanks (Some ''sk'') (NetworkFailure ''down'') (\<lambda>_. Inr (JObj [(''status'', JBool True), (''data'', JArr [])])) 0 None)"
    by (simp add: getBanks_def fetchFromPaystack_def truthy_def)
  then show ?thesis
    using outage_freezes_bank_list [of "Some ''sk''" 0 1000 "Response 200 ''ok''"
        "\<lambda>_. Inr (JObj [(''status'', JBool True), (''data'', JArr [])])" "''down''"]
    by (simp add: truthy_def CACHE_TTL_MS_def)
qed

end
