(* ===== verification/Cashback.thy ===== *)
theory Cashback
  imports Tables Outbox Payments Pagination
begin

text \<open>
  \<open>apps/cashback-service/src/cashback/cashback.service.ts\<close>: the handler of \<open>BadgeUnlocked\<close>, the payment
  job, manual and automatic retries, and the transaction list.

  A payment is three steps, because the provider is called outside any database transaction and other
  operations run meanwhile: \<open>claim_payment\<close> (read the row, claim it), \<open>send_payment\<close> (payout account,
  provider call) and \<open>complete_payment\<close> (save the row as it was read, with the outcome). \<open>processPayment\<close>
  runs them in order, with \<open>between\<close> for what happens before the outcome is saved.

  \<open>save\<close> writes the whole entity over the row; a property that is \<open>undefined\<close> leaves its column.
\<close>

section \<open>State\<close>

datatype tx_status = TxPending | TxProcessing | TxSuccessful | TxFailed

fun tx_status_of :: "payment_status \<Rightarrow> tx_status" where
  "tx_status_of Pending = TxPending"
| "tx_status_of Successful = TxSuccessful"
| "tx_status_of Failed = TxFailed"

record cashback_transaction =
  tx_id :: string
  tx_userId :: string
  tx_badgeName :: string
  tx_amountKobo :: int
  tx_status :: tx_status
  tx_provider :: payment_provider_name
  tx_providerReference :: "string option"
  tx_providerRecipientCode :: "string option"
  tx_correlationId :: "string option"
  tx_failureReason :: "string option"
  tx_failureCode :: "cashback_failure_code option"
  tx_retryable :: "bool option"
  tx_retryCount :: nat
  tx_nextRetryAt :: "int option"
  tx_createdAt :: int

record payout_account =
  pa_id :: string
  pa_userId :: string
  pa_userName :: string
  pa_bankAccountNumber :: string
  pa_bankCode :: string
  pa_provider :: payment_provider_name
  pa_providerRecipientCode :: "string option"

record cashback_job =
  job_transactionId :: string
  job_event :: badge_unlocked_event
  job_attemptsMade :: nat

record cashback_state =
  cs_transactions :: "cashback_transaction list"
  cs_accounts :: "payout_account list"
  cs_processed :: "string list"
  cs_outbox :: outbox
  cs_jobs :: "cashback_job list"
  cs_draws :: nat
  cs_bus :: bus
  cs_net :: network
  cs_scanRunning :: bool

text \<open>The environment of the service: configuration, random source, broker answers and network.\<close>

record cashback_env =
  ce_provider :: "string option"
  ce_secretKey :: "string option"
  ce_amountKobo :: int
  ce_baseDelayMs :: int
  ce_maxAutoRetries :: nat
  ce_rnd :: random_source
  ce_outbox :: outbox_options
  ce_confirm :: "nat \<Rightarrow> string option"
  ce_responses :: "nat \<Rightarrow> fetch_response"
  ce_parse :: "string \<Rightarrow> string + json"

definition JOB_ATTEMPTS :: nat where "JOB_ATTEMPTS = 3"

definition add_job :: "string \<Rightarrow> badge_unlocked_event \<Rightarrow> cashback_state \<Rightarrow> cashback_state" where
  "add_job tid event s =
     s\<lparr>cs_jobs := cs_jobs s @ [\<lparr>job_transactionId = tid, job_event = event, job_attemptsMade = 0\<rparr>]\<rparr>"

definition draw_id :: "cashback_env \<Rightarrow> entity_id_prefix \<Rightarrow> cashback_state \<Rightarrow> string \<times> cashback_state" where
  "draw_id env prefix s =
     (createReadableId prefix (ce_rnd env (cs_draws s)), s\<lparr>cs_draws := Suc (cs_draws s)\<rparr>)"

definition tx_by_id :: "string \<Rightarrow> cashback_state \<Rightarrow> cashback_transaction option" where
  "tx_by_id tid s = find_one (\<lambda>r. tx_id r = tid) (cs_transactions s)"

section \<open>The event handler\<close>

definition handleBadgeUnlocked ::
  "cashback_env \<Rightarrow> int \<Rightarrow> badge_unlocked_event \<Rightarrow> cashback_state \<Rightarrow> string option \<times> cashback_state" where
  "handleBadgeUnlocked env now event s =
     (if eventId event \<in> set (cs_processed s) then (None, s)
      else (let p = payload event;
                amountKobo = (case bu_rewardAmountKobo p of Some a \<Rightarrow> a | None \<Rightarrow> ce_amountKobo env);
                (transactionId, s1) = draw_id env CashbackId s in
            case find_one (\<lambda>r. tx_userId r = snap_id (bu_user p) \<and> tx_badgeName r = bu_badge_name p) (cs_transactions s1) of
              Some existing \<Rightarrow>
                (None, add_job (tx_id existing) event (s1\<lparr>cs_processed := cs_processed s1 @ [eventId event]\<rparr>))
            | None \<Rightarrow>
                if \<not> is_int4 amountKobo then (Some ''value is out of range for type integer'', s1)
                else (None, add_job transactionId event
                       (s1\<lparr>cs_transactions := upsert tx_id
                              \<lparr>tx_id = transactionId, tx_userId = snap_id (bu_user p), tx_badgeName = bu_badge_name p,
                               tx_amountKobo = amountKobo, tx_status = TxPending, tx_provider = getProvider (ce_provider env),
                               tx_providerReference = None, tx_providerRecipientCode = None,
                               tx_correlationId = Some (correlationId event), tx_failureReason = None,
                               tx_failureCode = None, tx_retryable = None, tx_retryCount = 0, tx_nextRetryAt = None,
                               tx_createdAt = now\<rparr> (cs_transactions s1),
                            cs_processed := cs_processed s1 @ [eventId event]\<rparr>))))"

section \<open>The payment job\<close>

definition set_transactions :: "cashback_transaction list \<Rightarrow> cashback_state \<Rightarrow> cashback_state" where
  "set_transactions t s = s\<lparr>cs_transactions := t\<rparr>"

text \<open>\<open>update({ id, status: PENDING }, { status: PROCESSING, providerReference })\<close> and its outcome.\<close>

definition claim_row ::
  "string \<Rightarrow> string \<Rightarrow> cashback_transaction list \<Rightarrow> bool \<times> cashback_transaction list" where
  "claim_row reference tid t =
     (let P = (\<lambda>r. tx_id r = tid \<and> tx_status r = TxPending) in
      (0 < affected P t,
       update_where P (\<lambda>r. r\<lparr>tx_status := TxProcessing, tx_providerReference := Some reference\<rparr>) t))"

datatype claim_result = NotFound | Skipped | Claimed cashback_transaction

definition payment_reference :: "cashback_env \<Rightarrow> string \<Rightarrow> string" where
  "payment_reference env i = provider_name_value (getProvider (ce_provider env)) @ ''_'' @ i"

definition claim_payment :: "cashback_env \<Rightarrow> string \<Rightarrow> cashback_state \<Rightarrow> claim_result \<times> cashback_state" where
  "claim_payment env tid s =
     (case tx_by_id tid s of
        None \<Rightarrow> (NotFound, s)
      | Some transaction \<Rightarrow>
          if tx_status transaction \<noteq> TxPending then (Skipped, s)
          else (let (i, s1) = draw_id env CashbackId s;
                    reference = payment_reference env i;
                    (claimed, t) = claim_row reference tid (cs_transactions s1) in
                if \<not> claimed then (Skipped, set_transactions t s1)
                else (Claimed (transaction\<lparr>tx_status := TxProcessing, tx_providerReference := Some reference\<rparr>),
                      set_transactions t s1)))"

definition upsertPayoutAccount ::
  "cashback_env \<Rightarrow> badge_unlocked_event \<Rightarrow> cashback_state \<Rightarrow> (thrown + payout_account) \<times> cashback_state" where
  "upsertPayoutAccount env event s =
     (let u = bu_user (payload event);
          ban = nullish (snap_bankAccountNumber u); bc = nullish (snap_bankCode u) in
      if \<not> truthy ban \<or> \<not> truthy bc then (Inl (PaymentError (missing_bank_details default_missing_message)), s)
      else (case find_one (\<lambda>a. pa_userId a = snap_id u) (cs_accounts s) of
              Some existing \<Rightarrow>
                (let a = existing\<lparr>pa_userName := snap_name u, pa_bankAccountNumber := the ban, pa_bankCode := the bc,
                                  pa_provider := getProvider (ce_provider env)\<rparr>
                 in (Inr a, s\<lparr>cs_accounts := upsert pa_id a (cs_accounts s)\<rparr>))
            | None \<Rightarrow>
                (let (i, s1) = draw_id env PayoutAccountId s;
                     a = \<lparr>pa_id = i, pa_userId = snap_id u, pa_userName = snap_name u, pa_bankAccountNumber = the ban,
                          pa_bankCode = the bc, pa_provider = getProvider (ce_provider env), pa_providerRecipientCode = None\<rparr>
                 in (Inr a, s1\<lparr>cs_accounts := upsert pa_id a (cs_accounts s1)\<rparr>))))"

definition payment_request_for ::
  "badge_unlocked_event \<Rightarrow> cashback_transaction \<Rightarrow> payout_account \<Rightarrow> payment_request" where
  "payment_request_for event transaction account =
     \<lparr>cr_userId = snap_id (bu_user (payload event)), cr_userName = snap_name (bu_user (payload event)),
      cr_badgeName = bu_badge_name (payload event), cr_amountKobo = tx_amountKobo transaction,
      cr_bankAccountNumber = Some (pa_bankAccountNumber account), cr_bankCode = Some (pa_bankCode account),
      cr_providerRecipientCode = pa_providerRecipientCode account,
      cr_reference = the (tx_providerReference transaction)\<rparr>"

definition provider_send ::
  "cashback_env \<Rightarrow> payment_request \<Rightarrow> network \<Rightarrow> (thrown + payment_result) \<times> network" where
  "provider_send env = sendCashback (ce_provider env) (ce_secretKey env) (ce_responses env) (ce_parse env)"

definition send_payment ::
  "cashback_env \<Rightarrow> badge_unlocked_event \<Rightarrow> cashback_transaction \<Rightarrow> cashback_state
     \<Rightarrow> (thrown + payout_account \<times> payment_result) \<times> cashback_state" where
  "send_payment env event transaction s =
     (case upsertPayoutAccount env event s of
        (Inl err, s1) \<Rightarrow> (Inl err, s1)
      | (Inr account, s1) \<Rightarrow>
          (case provider_send env (payment_request_for event transaction account) (cs_net s1) of
             (Inl err, net) \<Rightarrow> (Inl err, s1\<lparr>cs_net := net\<rparr>)
           | (Inr result, net) \<Rightarrow> (Inr (account, result), s1\<lparr>cs_net := net\<rparr>)))"

definition saveCashbackProcessedEvent ::
  "int \<Rightarrow> cashback_transaction \<Rightarrow> string \<Rightarrow> payment_status \<Rightarrow> string \<Rightarrow> cashback_state \<Rightarrow> cashback_state" where
  "saveCashbackProcessedEvent now transaction corr status eid s =
     (let e = CashbackProcessedEvent (createDomainEvent CashbackProcessed
                \<lparr>cp_badgeName = tx_badgeName transaction, cp_userId = tx_userId transaction,
                 cp_amountKobo = tx_amountKobo transaction,
                 cp_providerReference = (case tx_providerReference transaction of Some r \<Rightarrow> r | None \<Rightarrow> []),
                 cp_status = status,
                 cp_failureCode = (if status = Failed then tx_failureCode transaction else None),
                 cp_failureReason = (if status = Failed then tx_failureReason transaction else None),
                 cp_retryable = (if status = Failed then tx_retryable transaction else None)\<rparr>
                corr eid now)
      in s\<lparr>cs_outbox := upsert ob_id (outbox_row e now) (cs_outbox s)\<rparr>)"

definition publish_ids :: "cashback_env \<Rightarrow> int \<Rightarrow> string list \<Rightarrow> cashback_state \<Rightarrow> cashback_state" where
  "publish_ids env now ids s =
     (let (t, b) = publishMany (ce_outbox env) (ce_confirm env) now ids (cs_outbox s, cs_bus s)
      in s\<lparr>cs_outbox := t, cs_bus := b\<rparr>)"

definition save_row :: "(cashback_transaction \<Rightarrow> cashback_transaction) \<Rightarrow> string \<Rightarrow> cashback_state \<Rightarrow> cashback_state" where
  "save_row f tid s = s\<lparr>cs_transactions := update_where (\<lambda>r. tx_id r = tid) f (cs_transactions s)\<rparr>"

definition defined_or :: "'a option \<Rightarrow> 'a option \<Rightarrow> 'a option" where
  "defined_or new old = (case new of Some x \<Rightarrow> Some x | None \<Rightarrow> old)"

definition autoRetryDelayMs :: "cashback_env \<Rightarrow> nat \<Rightarrow> int" where
  "autoRetryDelayMs env retryCount = min (ce_baseDelayMs env * 2 ^ (retryCount - 1)) 3600000"

text \<open>The entity after an accepted payment, and the row it is saved to (\<open>r\<close> is the stored row).\<close>

definition sent_transaction :: "payment_result \<Rightarrow> cashback_transaction \<Rightarrow> cashback_transaction" where
  "sent_transaction result transaction =
     transaction\<lparr>tx_status := tx_status_of (rs_status result), tx_provider := rs_provider result,
                 tx_providerReference := Some (rs_reference result), tx_failureReason := None,
                 tx_failureCode := None, tx_retryable := None, tx_nextRetryAt := None\<rparr>"

definition sent_row :: "payment_result \<Rightarrow> cashback_transaction \<Rightarrow> cashback_transaction \<Rightarrow> cashback_transaction" where
  "sent_row result transaction r =
     (sent_transaction result transaction)\<lparr>tx_providerRecipientCode :=
        defined_or (rs_providerRecipientCode result) (tx_providerRecipientCode r)\<rparr>"

definition complete_sent ::
  "cashback_env \<Rightarrow> int \<Rightarrow> badge_unlocked_event \<Rightarrow> cashback_transaction \<Rightarrow> payout_account \<Rightarrow> payment_result
     \<Rightarrow> cashback_state \<Rightarrow> cashback_state" where
  "complete_sent env now event transaction account result s =
     (let s1 = save_row (sent_row result transaction) (tx_id transaction) s;
          s2 = (if truthy (rs_providerRecipientCode result)
                then s1\<lparr>cs_accounts := upsert pa_id
                          (account\<lparr>pa_providerRecipientCode := rs_providerRecipientCode result\<rparr>) (cs_accounts s1)\<rparr>
                else s1) in
      if rs_status result = Successful
      then (let (eid, s3) = draw_id env EventId s2
            in publish_ids env now [eid]
                 (saveCashbackProcessedEvent now (sent_transaction result transaction) (correlationId event) Successful eid s3))
      else s2)"

text \<open>The same for a failure; \<open>n\<close> is the new retry count.\<close>

definition failed_transaction :: "payment_failure \<Rightarrow> cashback_transaction \<Rightarrow> cashback_transaction" where
  "failed_transaction failure transaction =
     transaction\<lparr>tx_status := TxFailed, tx_failureReason := Some (cf_message failure),
                 tx_failureCode := cf_code failure, tx_retryable := cf_retryable failure,
                 tx_retryCount := tx_retryCount transaction + 1\<rparr>"

definition failed_row ::
  "cashback_env \<Rightarrow> int \<Rightarrow> payment_failure \<Rightarrow> cashback_transaction \<Rightarrow> cashback_transaction \<Rightarrow> cashback_transaction" where
  "failed_row env now failure transaction r =
     (let tx = failed_transaction failure transaction in
      tx\<lparr>tx_failureCode := defined_or (cf_code failure) (tx_failureCode r),
         tx_retryable := defined_or (cf_retryable failure) (tx_retryable r),
         tx_nextRetryAt := (if cf_retryable failure = Some True
                            then Some (now + autoRetryDelayMs env (tx_retryCount tx)) else tx_nextRetryAt r)\<rparr>)"

definition complete_failed ::
  "cashback_env \<Rightarrow> int \<Rightarrow> badge_unlocked_event \<Rightarrow> bool \<Rightarrow> cashback_transaction \<Rightarrow> thrown \<Rightarrow> cashback_state
     \<Rightarrow> thrown option \<times> cashback_state" where
  "complete_failed env now event isFinalAttempt transaction err s =
     (let failure = classifyCashbackFailure err in
      if cf_retryable failure = Some True \<and> \<not> isFinalAttempt
      then (Some (PaymentError failure),
            s\<lparr>cs_transactions := update_where (\<lambda>r. tx_id r = tx_id transaction \<and> tx_status r = TxProcessing)
                (\<lambda>r. r\<lparr>tx_status := TxPending\<rparr>) (cs_transactions s)\<rparr>)
      else (let s1 = save_row (failed_row env now failure transaction) (tx_id transaction) s;
                (eid, s2) = draw_id env EventId s1
            in (None, publish_ids env now [eid]
                  (saveCashbackProcessedEvent now (failed_transaction failure transaction) (correlationId event) Failed eid s2))))"

definition complete_payment ::
  "cashback_env \<Rightarrow> int \<Rightarrow> badge_unlocked_event \<Rightarrow> bool \<Rightarrow> cashback_transaction \<Rightarrow> thrown + payout_account \<times> payment_result
     \<Rightarrow> cashback_state \<Rightarrow> thrown option \<times> cashback_state" where
  "complete_payment env now event isFinalAttempt transaction outcome s =
     (case outcome of
        Inr (account, result) \<Rightarrow> (None, complete_sent env now event transaction account result s)
      | Inl err \<Rightarrow> complete_failed env now event isFinalAttempt transaction err s)"

definition processPayment ::
  "cashback_env \<Rightarrow> int \<Rightarrow> (cashback_state \<Rightarrow> cashback_state) \<Rightarrow> string \<Rightarrow> badge_unlocked_event \<Rightarrow> bool \<Rightarrow> cashback_state
     \<Rightarrow> thrown option \<times> cashback_state" where
  "processPayment env now between tid event isFinalAttempt s =
     (case claim_payment env tid s of
        (NotFound, s1) \<Rightarrow> (Some (PlainError ''Could not find any entity of type CashbackTransaction''), s1)
      | (Skipped, s1) \<Rightarrow> (None, s1)
      | (Claimed transaction, s1) \<Rightarrow>
          (let (outcome, s2) = send_payment env event transaction s1
           in complete_payment env now event isFinalAttempt transaction outcome (between s2)))"

text \<open>The worker: a job that throws is put back until its attempts are used up.\<close>

definition is_final_attempt :: "cashback_job \<Rightarrow> bool" where
  "is_final_attempt job \<longleftrightarrow> JOB_ATTEMPTS \<le> job_attemptsMade job + 1"

definition take_job :: "cashback_job \<Rightarrow> cashback_state \<Rightarrow> cashback_state" where
  "take_job job s = s\<lparr>cs_jobs := remove1 job (cs_jobs s)\<rparr>"

definition settle_job :: "cashback_job \<Rightarrow> thrown option \<Rightarrow> cashback_state \<Rightarrow> cashback_state" where
  "settle_job job res s =
     (if res \<noteq> None \<and> job_attemptsMade job + 1 < JOB_ATTEMPTS
      then s\<lparr>cs_jobs := cs_jobs s @ [job\<lparr>job_attemptsMade := job_attemptsMade job + 1\<rparr>]\<rparr>
      else s)"

definition run_job ::
  "cashback_env \<Rightarrow> int \<Rightarrow> (cashback_state \<Rightarrow> cashback_state) \<Rightarrow> cashback_job \<Rightarrow> cashback_state \<Rightarrow> cashback_state" where
  "run_job env now between job s =
     (let (res, s1) = processPayment env now between (job_transactionId job) (job_event job)
                        (is_final_attempt job) (take_job job s)
      in settle_job job res s1)"

section \<open>Retries\<close>

datatype retry_error = TransactionNotFound | NotFailed | NoBankDetails

definition buildRetryEvent ::
  "cashback_env \<Rightarrow> int \<Rightarrow> cashback_transaction \<Rightarrow> payout_account \<Rightarrow> cashback_state \<Rightarrow> badge_unlocked_event \<times> cashback_state" where
  "buildRetryEvent env now transaction account s =
     (let (corr, s1) = (case tx_correlationId transaction of Some c \<Rightarrow> (c, s) | None \<Rightarrow> draw_id env EventId s);
          (eid, s2) = draw_id env EventId s1
      in (createDomainEvent BadgeUnlocked
            \<lparr>bu_badge_name = tx_badgeName transaction, bu_rewardAmountKobo = Some (tx_amountKobo transaction),
             bu_rewardCurrency = ''NGN'',
             bu_user = \<lparr>snap_id = tx_userId transaction, snap_email = [], snap_name = pa_userName account,
                        snap_bankAccountNumber = Val (pa_bankAccountNumber account), snap_bankCode = Val (pa_bankCode account)\<rparr>\<rparr>
            corr eid now, s2))"

definition retryPayment ::
  "string \<Rightarrow> badge_unlocked_event \<Rightarrow> cashback_state \<Rightarrow> retry_error option \<times> cashback_state" where
  "retryPayment tid event s =
     (case tx_by_id tid s of
        None \<Rightarrow> (Some TransactionNotFound, s)
      | Some transaction \<Rightarrow>
          if tx_status transaction \<noteq> TxFailed then (None, s)
          else (None, add_job tid event
                 (s\<lparr>cs_transactions := update_where (\<lambda>r. tx_id r = tid \<and> tx_status r = TxFailed)
                      (\<lambda>r. r\<lparr>tx_status := TxPending, tx_failureReason := None, tx_nextRetryAt := None\<rparr>)
                      (cs_transactions s)\<rparr>)))"

record bank_override =
  bo_bankAccountNumber :: "string option"
  bo_bankCode :: "string option"

definition override_account ::
  "cashback_env \<Rightarrow> cashback_transaction \<Rightarrow> bank_override \<Rightarrow> payout_account option \<Rightarrow> cashback_state
     \<Rightarrow> payout_account \<times> cashback_state" where
  "override_account env transaction override account s =
     (let (i, s1) = (case account of Some a \<Rightarrow> (pa_id a, s) | None \<Rightarrow> draw_id env PayoutAccountId s);
          a = \<lparr>pa_id = i, pa_userId = tx_userId transaction,
               pa_userName = (case account of Some a \<Rightarrow> pa_userName a | None \<Rightarrow> tx_userId transaction),
               pa_bankAccountNumber = the (bo_bankAccountNumber override), pa_bankCode = the (bo_bankCode override),
               pa_provider = getProvider (ce_provider env),
               pa_providerRecipientCode = Option.bind account pa_providerRecipientCode\<rparr>
      in (a, s1\<lparr>cs_accounts := upsert pa_id a (cs_accounts s1)\<rparr>))"

definition retryFailedTransaction ::
  "cashback_env \<Rightarrow> int \<Rightarrow> string \<Rightarrow> bank_override \<Rightarrow> cashback_state \<Rightarrow> retry_error option \<times> cashback_state" where
  "retryFailedTransaction env now tid override s =
     (case tx_by_id tid s of
        None \<Rightarrow> (Some TransactionNotFound, s)
      | Some transaction \<Rightarrow>
          if tx_status transaction \<noteq> TxFailed then (Some NotFailed, s)
          else (let overridden = (truthy (bo_bankAccountNumber override) \<and> truthy (bo_bankCode override));
                    stored = find_one (\<lambda>a. pa_userId a = tx_userId transaction) (cs_accounts s);
                    (account, s1) = (if overridden
                                     then (let (a, s') = override_account env transaction override stored s in (Some a, s'))
                                     else (stored, s)) in
                case account of
                  None \<Rightarrow> (Some NoBankDetails, s1)
                | Some a \<Rightarrow>
                    if pa_bankAccountNumber a = [] \<or> pa_bankCode a = [] then (Some NoBankDetails, s1)
                    else (let s2 = (if overridden then save_row (\<lambda>r. r\<lparr>tx_retryCount := 0\<rparr>) tid s1 else s1);
                              (event, s3) = buildRetryEvent env now transaction a s2
                          in retryPayment tid event s3)))"

definition eligible :: "cashback_env \<Rightarrow> int \<Rightarrow> cashback_transaction \<Rightarrow> bool" where
  "eligible env now r \<longleftrightarrow>
     tx_status r = TxFailed \<and> tx_retryable r = Some True \<and> tx_retryCount r < ce_maxAutoRetries env \<and>
     (case tx_nextRetryAt r of None \<Rightarrow> True | Some due \<Rightarrow> due \<le> now)"

definition retry_candidate ::
  "cashback_env \<Rightarrow> int \<Rightarrow> cashback_transaction \<Rightarrow> nat \<times> cashback_state \<Rightarrow> nat \<times> cashback_state" where
  "retry_candidate env now transaction = (\<lambda>(retried, s).
     (case find_one (\<lambda>a. pa_userId a = tx_userId transaction) (cs_accounts s) of
        None \<Rightarrow> (retried, s)
      | Some a \<Rightarrow>
          if pa_bankAccountNumber a = [] \<or> pa_bankCode a = [] then (retried, s)
          else (let (event, s1) = buildRetryEvent env now transaction a s in
                case retryPayment (tx_id transaction) event s1 of
                  (None, s2) \<Rightarrow> (retried + 1, s2)
                | (Some err, s2) \<Rightarrow> (retried, s2))))"

definition retryEligibleFailedTransactions ::
  "cashback_env \<Rightarrow> int \<Rightarrow> cashback_state \<Rightarrow> nat \<times> cashback_state" where
  "retryEligibleFailedTransactions env now s =
     (if cs_scanRunning s then (0, s)
      else (let candidates = filter (eligible env now) (cs_transactions s);
                (retried, s1) = fold (retry_candidate env now) candidates (0, s\<lparr>cs_scanRunning := True\<rparr>)
            in (retried, s1\<lparr>cs_scanRunning := False\<rparr>)))"

section \<open>The list of transactions\<close>

record cashback_query =
  lq_page :: "nat option"
  lq_limit :: "nat option"
  lq_userId :: "string option"
  lq_status :: "tx_status option"
  lq_search :: "string option"

text \<open>
  The filter without a search, and with one: three alternatives, of which the second puts the search in
  the place of the user filter.
\<close>

definition buildTransactionWhere :: "cashback_query \<Rightarrow> cashback_transaction \<Rightarrow> bool" where
  "buildTransactionWhere q r \<longleftrightarrow>
     (let user = (truthy (lq_userId q) \<longrightarrow> tx_userId r = the (lq_userId q));
          status = (lq_status q \<noteq> None \<longrightarrow> tx_status r = the (lq_status q));
          search = ilike (the (lq_search q)) in
      if \<not> truthy (lq_search q) then user \<and> status
      else (user \<and> status \<and> search (tx_badgeName r)) \<or> (status \<and> search (tx_userId r)) \<or>
           (user \<and> status \<and> (case tx_providerReference r of Some x \<Rightarrow> search x | None \<Rightarrow> False)))"

definition newest_first :: "cashback_transaction \<Rightarrow> cashback_transaction \<Rightarrow> bool" where
  "newest_first r r' \<longleftrightarrow> tx_createdAt r' \<le> tx_createdAt r"

definition listTransactions ::
  "(cashback_transaction list \<Rightarrow> cashback_transaction list) \<Rightarrow> cashback_query \<Rightarrow> cashback_state
     \<Rightarrow> cashback_transaction list \<times> page_meta" where
  "listTransactions ord q s =
     paginate (lq_page q) (lq_limit q) (ord (filter (buildTransactionWhere q) (cs_transactions s)))"

end
