(* ===== verification/Webhook.thy ===== *)
theory Webhook
  imports Cashback
begin

text \<open>
  \<open>apps/cashback-service/src/payments/paystack-webhook.service.ts\<close>: signature check, parsing and the two
  transitions a webhook causes. HMAC-SHA512 is the argument \<open>hmac\<close> (secret, body, digest bytes). Reading and
  saving the transaction row is one step here.
\<close>

datatype webhook_error = Unauthorized string | WebhookFailure thrown

definition verifySignature ::
  "(string \<Rightarrow> string \<Rightarrow> string) \<Rightarrow> string option \<Rightarrow> string option \<Rightarrow> string option \<Rightarrow> webhook_error option" where
  "verifySignature hmac secret rawBody signature =
     (if \<not> truthy secret \<or> rawBody = None \<or> \<not> truthy signature
      then Some (Unauthorized ''Paystack webhook signature could not be verified'')
      else (let expected = to_hex (hmac (the secret) (the rawBody));
                expectedBuffer = from_hex expected;
                signatureBuffer = from_hex (the signature) in
            if length expectedBuffer \<noteq> length signatureBuffer \<or> expectedBuffer \<noteq> signatureBuffer
            then Some (Unauthorized ''Invalid Paystack webhook signature'')
            else None))"

definition parseEvent :: "json_object \<Rightarrow> thrown + string \<times> json_object" where
  "parseEvent body =
     (case readRequiredString ''Paystack webhook'' body ''event'' of
        Inl err \<Rightarrow> Inl err
      | Inr event \<Rightarrow>
          (case readRequiredObject ''Paystack webhook'' body ''data'' of
             Inl err \<Rightarrow> Inl err
           | Inr data \<Rightarrow> Inr (event, data)))"

definition tx_by_reference :: "string \<Rightarrow> cashback_state \<Rightarrow> cashback_transaction option" where
  "tx_by_reference reference s = find_one (\<lambda>r. tx_providerReference r = Some reference) (cs_transactions s)"

text \<open>Save the changed row, store the event under the row's correlation identifier, publish it.\<close>

definition record_outcome ::
  "cashback_env \<Rightarrow> int \<Rightarrow> cashback_transaction \<Rightarrow> payment_status \<Rightarrow> cashback_state \<Rightarrow> cashback_state" where
  "record_outcome env now tx status s =
     (let s1 = save_row (\<lambda>_. tx) (tx_id tx) s;
          (corr, s2) = (case tx_correlationId tx of Some c \<Rightarrow> (c, s1) | None \<Rightarrow> draw_id env EventId s1);
          (eid, s3) = draw_id env EventId s2
      in publish_ids env now [eid] (saveCashbackProcessedEvent now tx corr status eid s3))"

definition markTransferSuccessful ::
  "cashback_env \<Rightarrow> int \<Rightarrow> json_object \<Rightarrow> cashback_state \<Rightarrow> thrown option \<times> cashback_state" where
  "markTransferSuccessful env now data s =
     (case readRequiredString ''Paystack webhook'' data ''reference'' of
        Inl err \<Rightarrow> (Some err, s)
      | Inr reference \<Rightarrow>
          (case tx_by_reference reference s of
             None \<Rightarrow> (None, s)
           | Some transaction \<Rightarrow>
               if tx_status transaction = TxSuccessful then (None, s)
               else (None, record_outcome env now
                      (transaction\<lparr>tx_status := TxSuccessful, tx_failureReason := None, tx_failureCode := None,
                                   tx_retryable := None\<rparr>) Successful s)))"

definition failure_reason_of :: "json_object \<Rightarrow> string" where
  "failure_reason_of data =
     (case readString data ''reason'' of
        Some r \<Rightarrow> r
      | None \<Rightarrow> (case readString data ''failure_reason'' of Some r \<Rightarrow> r | None \<Rightarrow> ''Paystack transfer failed''))"

definition markTransferFailed ::
  "cashback_env \<Rightarrow> int \<Rightarrow> json_object \<Rightarrow> cashback_state \<Rightarrow> thrown option \<times> cashback_state" where
  "markTransferFailed env now data s =
     (case readRequiredString ''Paystack webhook'' data ''reference'' of
        Inl err \<Rightarrow> (Some err, s)
      | Inr reference \<Rightarrow>
          (case tx_by_reference reference s of
             None \<Rightarrow> (None, s)
           | Some transaction \<Rightarrow>
               if tx_status transaction = TxFailed then (None, s)
               else (let failure = classifyCashbackFailure (PlainError (failure_reason_of data))
                     in (None, record_outcome env now
                          (transaction\<lparr>tx_status := TxFailed, tx_failureReason := Some (cf_message failure),
                                       tx_failureCode := cf_code failure, tx_retryable := cf_retryable failure\<rparr>) Failed s))))"

definition handleWebhook ::
  "cashback_env \<Rightarrow> (string \<Rightarrow> string \<Rightarrow> string) \<Rightarrow> int \<Rightarrow> string option \<Rightarrow> json_object \<Rightarrow> string option \<Rightarrow> cashback_state
     \<Rightarrow> webhook_error option \<times> cashback_state" where
  "handleWebhook env hmac now rawBody body signature s =
     (case verifySignature hmac (ce_secretKey env) rawBody signature of
        Some err \<Rightarrow> (Some err, s)
      | None \<Rightarrow>
          (case parseEvent body of
             Inl err \<Rightarrow> (Some (WebhookFailure err), s)
           | Inr (event, data) \<Rightarrow>
               if event = ''transfer.success''
               then map_prod (map_option WebhookFailure) id (markTransferSuccessful env now data s)
               else if event = ''transfer.failed'' \<or> event = ''transfer.reversed''
               then map_prod (map_option WebhookFailure) id (markTransferFailed env now data s)
               else (None, s)))"

end
