(* ===== verification/Cashback_Steps.thy ===== *)
theory Cashback_Steps
  imports Webhook Consumer
begin

text \<open>
  The cashback service with everything interleaved: events, the three steps of a payment, webhooks and
  retries, as a step relation on the state with the payments in flight. The invariants: one transaction
  per user and badge, whose identity and amount never change, and no payment reference used for two
  transfers.
\<close>

section \<open>Steps\<close>

record flight =
  fl_job :: cashback_job
  fl_tx :: cashback_transaction
  fl_outcome :: "(thrown + payout_account \<times> payment_result) option"

type_synonym cashback_system = "cashback_state \<times> flight list"

inductive cashback_step ::
  "cashback_env \<Rightarrow> (string \<Rightarrow> string \<Rightarrow> string) \<Rightarrow> cashback_system \<Rightarrow> cashback_system \<Rightarrow> bool"
  for env hmac where
  event: "handleBadgeUnlocked env now e s = (res, s') \<Longrightarrow> cashback_step env hmac (s, F) (s', F)"
| start: "job \<in> set (cs_jobs s) \<Longrightarrow> claim_payment env (job_transactionId job) (take_job job s) = (Claimed tx, s') \<Longrightarrow>
     cashback_step env hmac (s, F) (s', F @ [\<lparr>fl_job = job, fl_tx = tx, fl_outcome = None\<rparr>])"
| skip: "job \<in> set (cs_jobs s) \<Longrightarrow> claim_payment env (job_transactionId job) (take_job job s) = (Skipped, s') \<Longrightarrow>
     cashback_step env hmac (s, F) (s', F)"
| missing: "job \<in> set (cs_jobs s) \<Longrightarrow> claim_payment env (job_transactionId job) (take_job job s) = (NotFound, s') \<Longrightarrow>
     cashback_step env hmac (s, F) (settle_job job (Some err) s', F)"
| send: "fl_outcome f = None \<Longrightarrow> send_payment env (job_event (fl_job f)) (fl_tx f) s = (out, s') \<Longrightarrow>
     cashback_step env hmac (s, F @ f # G) (s', F @ f\<lparr>fl_outcome := Some out\<rparr> # G)"
| finish: "fl_outcome f = Some out \<Longrightarrow>
     complete_payment env now (job_event (fl_job f)) (is_final_attempt (fl_job f)) (fl_tx f) out s = (res, s') \<Longrightarrow>
     cashback_step env hmac (s, F @ f # G) (settle_job (fl_job f) res s', F @ G)"
| webhook: "handleWebhook env hmac now raw body sig s = (res, s') \<Longrightarrow> cashback_step env hmac (s, F) (s', F)"
| retry: "retryFailedTransaction env now tid override s = (res, s') \<Longrightarrow> cashback_step env hmac (s, F) (s', F)"
| scan: "retryEligibleFailedTransactions env now s = (n, s') \<Longrightarrow> cashback_step env hmac (s, F) (s', F)"
| stalled: "cashback_step env hmac (s, F @ f # G) (s\<lparr>cs_jobs := cs_jobs s @ [fl_job f]\<rparr>, F @ G)"

section \<open>What the operations leave alone\<close>

definition tx_key :: "cashback_transaction \<Rightarrow> string \<times> string \<times> string \<times> int" where
  "tx_key r = (tx_id r, tx_userId r, tx_badgeName r, tx_amountKobo r)"

definition keys :: "cashback_state \<Rightarrow> (string \<times> string \<times> string \<times> int) list" where
  "keys s = map tx_key (cs_transactions s)"

text \<open>The frame of an operation: transaction keys and network as before, draws only grow.\<close>

definition frame :: "cashback_state \<Rightarrow> cashback_state \<Rightarrow> bool" where
  "frame s s' \<longleftrightarrow> keys s' = keys s \<and> cs_net s' = cs_net s \<and> cs_draws s \<le> cs_draws s'"

lemma frame_refl [simp]: "frame s s"
  by (simp add: frame_def)

lemma frame_trans: "frame a b \<Longrightarrow> frame b c \<Longrightarrow> frame a c"
  by (auto simp: frame_def)

lemma frame_draw: "frame s (snd (draw_id env p s))"
  by (simp add: frame_def draw_id_def keys_def)

lemma frame_upd [simp]:
  "frame s (s\<lparr>cs_jobs := j\<rparr>)" "frame s (s\<lparr>cs_accounts := a\<rparr>)" "frame s (s\<lparr>cs_outbox := ob\<rparr>)"
  "frame s (s\<lparr>cs_processed := p\<rparr>)" "frame s (s\<lparr>cs_scanRunning := f\<rparr>)" "frame s (s\<lparr>cs_outbox := ob, cs_bus := b\<rparr>)"
  by (simp_all add: frame_def keys_def)

lemma frame_publish: "frame s (publish_ids env now ids s)"
  by (simp add: publish_ids_def split: prod.splits)

lemma frame_event: "frame s (saveCashbackProcessedEvent now tx corr st eid s)"
  by (simp add: saveCashbackProcessedEvent_def Let_def)

lemma frame_job: "frame s (add_job tid e s)" "frame s (take_job job s)" "frame s (settle_job job res s)"
  by (simp_all add: add_job_def take_job_def settle_job_def)

lemma frame_rows:
  assumes "\<And>r. r \<in> set (cs_transactions s) \<Longrightarrow> P r \<Longrightarrow> tx_key (f r) = tx_key r"
  shows "frame s (s\<lparr>cs_transactions := update_where P f (cs_transactions s)\<rparr>)"
  using assms by (auto simp: frame_def keys_def update_where_def)

lemma frame_save:
  assumes "distinct (map fst (keys s))" and "tx_key tx \<in> set (keys s)" and "\<And>r. tx_key (f r) = tx_key tx"
  shows "frame s (save_row f (tx_id tx) s)"
  unfolding save_row_def
proof (rule frame_rows)
  fix r assume r: "r \<in> set (cs_transactions s)" "tx_id r = tx_id tx"
  from r(1) have "tx_key r \<in> set (keys s)" by (simp add: keys_def)
  moreover have "fst (tx_key r) = fst (tx_key tx)" using r(2) by (simp add: tx_key_def)
  ultimately have "tx_key r = tx_key tx" using assms(1,2) by (auto simp: distinct_map inj_on_def)
  then show "tx_key (f r) = tx_key r" using assms(3) by simp
qed

lemmas frame_intros =
  frame_trans [OF _ frame_draw] frame_trans [OF _ frame_publish] frame_trans [OF _ frame_event]
  frame_trans [OF _ frame_job(1)] frame_trans [OF _ frame_job(2)] frame_trans [OF _ frame_job(3)]
  frame_trans [OF _ frame_upd(1)] frame_trans [OF _ frame_upd(2)] frame_trans [OF _ frame_upd(5)]

lemma tx_by_id_key: "tx_by_id tid s = Some r \<Longrightarrow> tx_key r \<in> set (keys s)"
  unfolding tx_by_id_def keys_def by (auto dest: find_one_Some)

lemma tx_by_reference_key: "tx_by_reference ref s = Some r \<Longrightarrow> tx_key r \<in> set (keys s)"
  unfolding tx_by_reference_def keys_def by (auto dest: find_one_Some)

section \<open>Frames of the operations\<close>

lemma claim_frame:
  assumes "claim_payment env tid s = (res, s')"
  shows "frame s s'"
    and "res = Claimed tx \<Longrightarrow> tx_key tx \<in> set (keys s') \<and> cs_draws s' = Suc (cs_draws s)
      \<and> tx_providerReference tx = Some (payment_reference env (createReadableId CashbackId (ce_rnd env (cs_draws s))))"
proof -
  have rows: "map tx_key (snd (claim_row ref tid t)) = map tx_key t" for ref t
    by (simp add: claim_row_def Let_def map_update_where tx_key_def)
  show f: "frame s s'"
    using assms rows
    by (auto simp: claim_payment_def frame_def keys_def draw_id_def set_transactions_def Let_def split_beta
        split: option.splits if_splits)
  assume "res = Claimed tx"
  with assms obtain r where r: "tx_by_id tid s = Some r"
    and tx: "tx_providerReference tx = Some (payment_reference env (createReadableId CashbackId (ce_rnd env (cs_draws s))))"
    "tx_key tx = tx_key r" "cs_draws s' = Suc (cs_draws s)"
    by (auto simp: claim_payment_def draw_id_def set_transactions_def tx_key_def Let_def
        split: option.splits if_splits prod.splits)
  then show "tx_key tx \<in> set (keys s') \<and> cs_draws s' = Suc (cs_draws s)
      \<and> tx_providerReference tx = Some (payment_reference env (createReadableId CashbackId (ce_rnd env (cs_draws s))))"
    using tx_by_id_key [OF r] f by (simp add: frame_def)
qed

lemma account_frame: "upsertPayoutAccount env e s = (res, s') \<Longrightarrow> frame s s'"
  by (auto simp: upsertPayoutAccount_def draw_id_def frame_def keys_def Let_def split: if_splits option.splits)

definition transfer_reference :: "json_object \<Rightarrow> string option" where
  "transfer_reference t = readString t ''reference''"

lemma transfer_body_reference [simp]: "transfer_reference (transfer_body r c) = Some (cr_reference r)"
  by (simp add: transfer_reference_def readString_def transfer_body_def)

lemma send_effect:
  assumes "send_payment env e tx s = (out, s')"
  shows "keys s' = keys s" and "cs_draws s \<le> cs_draws s'"
    and "\<exists>ts. transfers (cs_net s') = transfers (cs_net s) @ ts
           \<and> (ts = [] \<or> map transfer_reference ts = [Some (the (tx_providerReference tx))])"
proof -
  obtain a s1 where a: "upsertPayoutAccount env e s = (a, s1)" by fastforce
  note f = account_frame [OF a]
  have "keys s' = keys s \<and> cs_draws s \<le> cs_draws s' \<and> (\<exists>ts. transfers (cs_net s') = transfers (cs_net s) @ ts
           \<and> (ts = [] \<or> map transfer_reference ts = [Some (the (tx_providerReference tx))]))"
  proof (cases a)
    case (Inl err)
    with assms a f show ?thesis by (auto simp: send_payment_def frame_def)
  next
    case (Inr account)
    let ?r = "payment_request_for e tx account"
    obtain x net where x: "provider_send env ?r (cs_net s1) = (x, net)" by fastforce
    obtain ts where ts: "transfers net = transfers (cs_net s1) @ ts" "length ts \<le> 1" "\<forall>t \<in> set ts. \<exists>c. t = transfer_body ?r c"
      using configured.orders_one [of "ce_provider env" "ce_secretKey env" "ce_responses env" "ce_parse env" ?r "cs_net s1"] x
      by (auto simp: provider_send_def)
    have s': "s' = s1\<lparr>cs_net := net\<rparr>"
      using assms a Inr x by (auto simp: send_payment_def split: sum.splits)
    have "ts = [] \<or> map transfer_reference ts = [Some (the (tx_providerReference tx))]"
      using ts(2,3) by (cases ts) (auto simp: payment_request_for_def)
    with ts(1) f show ?thesis by (auto simp: s' frame_def keys_def)
  qed
  then show "keys s' = keys s" and "cs_draws s \<le> cs_draws s'"
    and "\<exists>ts. transfers (cs_net s') = transfers (cs_net s) @ ts
           \<and> (ts = [] \<or> map transfer_reference ts = [Some (the (tx_providerReference tx))])"
    by auto
qed

lemma record_frame:
  assumes "distinct (map fst (keys s))" and "tx_key tx \<in> set (keys s)"
  shows "frame s (record_outcome env now tx st s)"
proof -
  have 1: "frame s (save_row (\<lambda>_. tx) (tx_id tx) s)" (is "frame s ?s1") using assms by (intro frame_save) auto
  have 2: "frame ?s1 (snd (case tx_correlationId tx of Some c \<Rightarrow> (c, ?s1) | None \<Rightarrow> draw_id env EventId ?s1))"
    using frame_draw by (simp split: option.splits)
  show ?thesis
    unfolding record_outcome_def Let_def split_beta
    by (intro frame_intros frame_trans [OF 1 2])
qed

lemma saved_row_key [simp]:
  "tx_key (sent_row result tx r) = tx_key tx" "tx_key (failed_row env now failure tx r) = tx_key tx"
  by (simp_all add: sent_row_def sent_transaction_def failed_row_def failed_transaction_def tx_key_def Let_def)

lemma complete_sent_frame:
  assumes "distinct (map fst (keys s))" and "tx_key tx \<in> set (keys s)"
  shows "frame s (complete_sent env now e tx account result s)"
proof -
  let ?s1 = "save_row (sent_row result tx) (tx_id tx) s"
  have 1: "frame s ?s1" using assms by (intro frame_save) auto
  define s2 where "s2 = (if truthy (rs_providerRecipientCode result)
      then ?s1\<lparr>cs_accounts := upsert pa_id (account\<lparr>pa_providerRecipientCode := rs_providerRecipientCode result\<rparr>) (cs_accounts ?s1)\<rparr>
      else ?s1)"
  have 2: "frame s s2" using 1 unfolding s2_def by (auto intro: frame_trans)
  show ?thesis
    unfolding complete_sent_def Let_def split_beta s2_def [symmetric]
    using 2 by (auto intro!: frame_intros)
qed

lemma complete_failed_frame:
  assumes "distinct (map fst (keys s))" and "tx_key tx \<in> set (keys s)"
    and "complete_failed env now e final tx err s = (res, s')"
  shows "frame s s'"
proof (cases "cf_retryable (classifyCashbackFailure err) = Some True \<and> \<not> final")
  case True
  with assms(3) show ?thesis
    by (auto simp: complete_failed_def Let_def tx_key_def intro!: frame_rows)
next
  case False
  have "frame s (save_row (failed_row env now (classifyCashbackFailure err) tx) (tx_id tx) s)"
    using assms(1,2) by (intro frame_save) auto
  with False assms(3) show ?thesis
    by (auto simp: complete_failed_def Let_def split_beta intro!: frame_intros)
qed

lemma complete_frame:
  assumes "distinct (map fst (keys s))" and "tx_key tx \<in> set (keys s)"
    and "complete_payment env now e final tx out s = (res, s')"
  shows "frame s s'"
  using assms complete_sent_frame complete_failed_frame
  by (auto simp: complete_payment_def split: sum.splits)

lemma webhook_frame:
  assumes "distinct (map fst (keys s))" and "handleWebhook env hmac now raw body sig s = (res, s')"
  shows "frame s s'"
proof -
  have "frame s (snd (markTransferSuccessful env now data s))" for data
    using tx_by_reference_key [of _ s] record_frame [OF assms(1)]
    by (auto simp: markTransferSuccessful_def tx_key_def split: sum.splits option.splits)
  moreover have "frame s (snd (markTransferFailed env now data s))" for data
    using tx_by_reference_key [of _ s] record_frame [OF assms(1)]
    by (auto simp: markTransferFailed_def tx_key_def Let_def split: sum.splits option.splits)
  ultimately show ?thesis
    using assms(2)
    by (auto simp: handleWebhook_def map_prod_def split_beta split: option.splits sum.splits if_splits)
qed

lemma retryPayment_frame: "retryPayment tid e s = (res, s') \<Longrightarrow> frame s s'"
  by (auto simp: retryPayment_def tx_key_def split: option.splits if_splits
      intro!: frame_trans [OF frame_rows frame_job(1)])

lemma buildRetryEvent_frame: "buildRetryEvent env now tx a s = (e, s') \<Longrightarrow> frame s s'"
  by (auto simp: buildRetryEvent_def Let_def split_beta split: option.splits intro!: frame_intros)

lemma override_frame: "override_account env tx ov acc s = (a, s') \<Longrightarrow> frame s s'"
  by (auto simp: override_account_def Let_def split_beta split: option.splits intro!: frame_intros)

lemma retryFailed_frame:
  assumes "retryFailedTransaction env now tid ov s = (res, s')"
  shows "frame s s'"
proof (cases "tx_by_id tid s")
  case None
  with assms show ?thesis by (simp add: retryFailedTransaction_def)
next
  case (Some tx)
  let ?over = "truthy (bo_bankAccountNumber ov) \<and> truthy (bo_bankCode ov)"
  let ?stored = "find_one (\<lambda>a. pa_userId a = tx_userId tx) (cs_accounts s)"
  obtain account s1 where step: "(if ?over then (case override_account env tx ov ?stored s of (a, s') \<Rightarrow> (Some a, s'))
      else (?stored, s)) = (account, s1)" by fastforce
  have "frame s (snd (override_account env tx ov ?stored s))" by (rule override_frame [OF surjective_pairing])
  with step have 1: "frame s s1" by (auto split: if_splits prod.splits)
  define s2 where "s2 = (if ?over then save_row (\<lambda>r. r\<lparr>tx_retryCount := 0\<rparr>) tid s1 else s1)"
  have "frame s1 (save_row (\<lambda>r. r\<lparr>tx_retryCount := 0\<rparr>) tid s1)"
    unfolding save_row_def by (intro frame_rows) (simp add: tx_key_def)
  then have 2: "frame s s2" using 1 frame_trans by (auto simp: s2_def)
  have 3: "frame s (snd (retryPayment tid (fst (buildRetryEvent env now tx a s2)) (snd (buildRetryEvent env now tx a s2))))" for a
    by (rule frame_trans [OF 2 frame_trans [OF buildRetryEvent_frame retryPayment_frame]]) (rule surjective_pairing)+
  have "(if tx_status tx \<noteq> TxFailed then (Some NotFailed, s)
      else (case account of None \<Rightarrow> (Some NoBankDetails, s1)
        | Some a \<Rightarrow> if pa_bankAccountNumber a = [] \<or> pa_bankCode a = [] then (Some NoBankDetails, s1)
            else (case buildRetryEvent env now tx a s2 of (event, s3) \<Rightarrow> retryPayment tid event s3))) = (res, s')"
    using assms unfolding retryFailedTransaction_def Some option.case Let_def step prod.case s2_def .
  then show ?thesis
    using 1 3 by (auto simp: split_beta split: if_splits option.splits) (metis snd_conv)
qed

lemma candidate_frame: "frame s (snd (retry_candidate env now tx (n, s)))"
proof -
  have "frame s (snd (retryPayment tid (fst (buildRetryEvent env now tx a s)) (snd (buildRetryEvent env now tx a s))))" for tid a
    by (rule frame_trans [OF buildRetryEvent_frame retryPayment_frame]) (rule surjective_pairing)+
  then show ?thesis
    by (auto simp: retry_candidate_def Let_def split_beta split: option.splits)
qed

lemma scan_frame:
  assumes "retryEligibleFailedTransactions env now s = (n, s')"
  shows "frame s s'"
proof -
  have "frame (snd x) (snd (fold (retry_candidate env now) txs x))" for x txs
  proof (induction txs arbitrary: x)
    case (Cons tx txs)
    show ?case using frame_trans [OF candidate_frame Cons.IH] by (cases x) simp
  qed simp
  then have "frame (s\<lparr>cs_scanRunning := True\<rparr>)
      (snd (fold (retry_candidate env now) txs (0, s\<lparr>cs_scanRunning := True\<rparr>)))" for txs
    by (metis snd_conv)
  from frame_trans [OF frame_upd(5) this] have "frame s (snd (fold (retry_candidate env now) txs (0, s\<lparr>cs_scanRunning := True\<rparr>)))" for txs .
  then show ?thesis
    using assms by (auto simp: retryEligibleFailedTransactions_def Let_def split_beta split: if_splits intro: frame_trans [OF _ frame_upd(5)])
qed

text \<open>The handler of the event either leaves the keys or appends one, under the identifier it drew.\<close>

definition drawn_id :: "cashback_env \<Rightarrow> nat \<Rightarrow> string" where
  "drawn_id env n = createReadableId CashbackId (ce_rnd env n)"

lemma event_effect:
  assumes "handleBadgeUnlocked env now e s = (res, s')" and "drawn_id env (cs_draws s) \<notin> fst ` set (keys s)"
  shows "frame s s' \<or>
    (\<exists>u b a. keys s' = keys s @ [(drawn_id env (cs_draws s), u, b, a)] \<and> (u, b) \<notin> (\<lambda>(_, u, b, _). (u, b)) ` set (keys s)
      \<and> cs_net s' = cs_net s \<and> cs_draws s < cs_draws s')"
proof -
  let ?P = "\<lambda>r. tx_userId r = snap_id (bu_user (payload e)) \<and> tx_badgeName r = bu_badge_name (payload e)"
  show ?thesis
  proof (cases "eventId e \<in> set (cs_processed s) \<or> find_one ?P (cs_transactions s) \<noteq> None")
    case True
    with assms(1) have "frame s s'"
      by (auto simp: handleBadgeUnlocked_def draw_id_def frame_def keys_def add_job_def Let_def split: if_splits option.splits)
    then show ?thesis ..
  next
    case False
    then have none: "find_one ?P (cs_transactions s) = None" and new: "eventId e \<notin> set (cs_processed s)" by auto
    have fresh: "\<forall>r \<in> set (cs_transactions s). tx_id r \<noteq> drawn_id env (cs_draws s)"
      using assms(2) by (auto simp: keys_def tx_key_def image_image) (metis imageI)
    have up: "upsert tx_id r (cs_transactions s) = cs_transactions s @ [r]" if "tx_id r = drawn_id env (cs_draws s)" for r
      using fresh that by (intro upsert_fresh) auto
    have "(snap_id (bu_user (payload e)), bu_badge_name (payload e)) \<notin> (\<lambda>(_, u, b, _). (u, b)) ` set (keys s)"
      using none by (auto simp: find_one_None list_ex_iff keys_def tx_key_def)
    moreover from assms(1) none new have "frame s s' \<or> (\<exists>r. cs_transactions s' = cs_transactions s @ [r]
        \<and> tx_id r = drawn_id env (cs_draws s) \<and> tx_userId r = snap_id (bu_user (payload e))
        \<and> tx_badgeName r = bu_badge_name (payload e) \<and> cs_net s' = cs_net s \<and> cs_draws s < cs_draws s')"
      by (auto simp: handleBadgeUnlocked_def draw_id_def add_job_def frame_def keys_def Let_def up drawn_id_def
          split: if_splits option.splits)
    ultimately show ?thesis by (auto simp: keys_def tx_key_def)
  qed
qed

section \<open>The invariant\<close>

definition in_flight :: "flight list \<Rightarrow> string option list" where
  "in_flight F = map (\<lambda>f. tx_providerReference (fl_tx f)) (filter (\<lambda>f. fl_outcome f = None) F)"

definition references :: "cashback_system \<Rightarrow> string option list" where
  "references x = map transfer_reference (transfers (cs_net (fst x))) @ in_flight (snd x)"

definition drawn_reference :: "cashback_env \<Rightarrow> nat \<Rightarrow> string option" where
  "drawn_reference env n = Some (payment_reference env (drawn_id env n))"

definition tx_owner :: "string \<times> string \<times> string \<times> int \<Rightarrow> string \<times> string" where
  "tx_owner k = (fst (snd k), fst (snd (snd k)))"

definition cashback_inv :: "cashback_env \<Rightarrow> cashback_system \<Rightarrow> bool" where
  "cashback_inv env = (\<lambda>(s, F).
     distinct (map fst (keys s)) \<and> distinct (map tx_owner (keys s)) \<and>
     fst ` set (keys s) \<subseteq> drawn_id env ` {..<cs_draws s} \<and>
     (\<forall>f \<in> set F. tx_key (fl_tx f) \<in> set (keys s)) \<and>
     distinct (references (s, F)) \<and>
     set (references (s, F)) \<subseteq> drawn_reference env ` {..<cs_draws s})"

lemma inj_reference: "inj_on (drawn_id env) A \<Longrightarrow> inj_on (drawn_reference env) A"
  by (auto simp: inj_on_def drawn_reference_def payment_reference_def)

lemma fresh_draw:
  assumes "inj_on f {..<m}" and "n < m"
  shows "f n \<notin> f ` {..<n::nat}"
proof
  assume "f n \<in> f ` {..<n}"
  then obtain k where "f k = f n" "k < n" by auto
  with inj_onD [OF assms(1), of k n] assms(2) show False by simp
qed

lemma in_flight_simps [simp]:
  "in_flight [] = []"
  "in_flight (f # F) = (if fl_outcome f = None then tx_providerReference (fl_tx f) # in_flight F else in_flight F)"
  "in_flight (F @ G) = in_flight F @ in_flight G"
  by (simp_all add: in_flight_def)

lemma inv_mono:
  assumes "cashback_inv env (s, F)" and "keys s' = keys s" and "cs_draws s \<le> cs_draws s'"
    and "(\<lambda>f. tx_key (fl_tx f)) ` set G \<subseteq> (\<lambda>f. tx_key (fl_tx f)) ` set F"
    and "distinct (references (s', G)) \<and> set (references (s', G)) \<subseteq> set (references (s, F))"
  shows "cashback_inv env (s', G)"
proof -
  have draws: "{..<cs_draws s} \<subseteq> {..<cs_draws s'}" using assms(3) by auto
  note ids = image_mono [OF draws, of "drawn_id env"] and refs = image_mono [OF draws, of "drawn_reference env"]
  have inv: "distinct (map fst (keys s))" "distinct (map tx_owner (keys s))"
    "fst ` set (keys s) \<subseteq> drawn_id env ` {..<cs_draws s}" "(\<lambda>f. tx_key (fl_tx f)) ` set F \<subseteq> set (keys s)"
    "set (references (s, F)) \<subseteq> drawn_reference env ` {..<cs_draws s}"
    using assms(1) by (auto simp: cashback_inv_def)
  have "fst ` set (keys s) \<subseteq> drawn_id env ` {..<cs_draws s'}" by (rule subset_trans [OF inv(3) ids])
  moreover have "set (references (s', G)) \<subseteq> drawn_reference env ` {..<cs_draws s'}"
    using assms(5) inv(5) refs by (meson subset_trans)
  moreover have "(\<lambda>f. tx_key (fl_tx f)) ` set G \<subseteq> set (keys s)" by (rule subset_trans [OF assms(4) inv(4)])
  ultimately show ?thesis
    using inv(1,2) assms(2,5) by (simp add: cashback_inv_def image_subset_iff)
qed

lemma frame_inv:
  assumes "cashback_inv env (s, F)" and "frame s s'" and "G = F \<or> (\<exists>A B f. F = A @ f # B \<and> G = A @ B)"
  shows "cashback_inv env (s', G)"
proof (rule inv_mono [OF assms(1)])
  show "distinct (references (s', G)) \<and> set (references (s', G)) \<subseteq> set (references (s, F))"
    using assms by (auto simp: cashback_inv_def references_def frame_def split: if_splits)
qed (use assms(2,3) in \<open>auto simp: frame_def\<close>)

lemma frame_drop: "cashback_inv env (s, A @ f # B) \<Longrightarrow> frame s s' \<Longrightarrow> cashback_inv env (s', A @ B)"
  using frame_inv [of env s "A @ f # B" s' "A @ B"] by blast

lemma start_inv:
  assumes inv: "cashback_inv env (s, F)"
    and claim: "claim_payment env tid s = (Claimed tx, s')" and inj: "inj_on (drawn_id env) {..<cs_draws s'}"
  shows "cashback_inv env (s', F @ [\<lparr>fl_job = job, fl_tx = tx, fl_outcome = None\<rparr>])"
proof -
  note f = claim_frame [OF claim]
  have tx: "tx_key tx \<in> set (keys s')" "cs_draws s' = Suc (cs_draws s)"
    "tx_providerReference tx = drawn_reference env (cs_draws s)"
    using f(2) by (auto simp: drawn_reference_def drawn_id_def)
  have "drawn_reference env (cs_draws s) \<notin> set (references (s, F))"
    using inv fresh_draw [OF inj_reference [OF inj], of "cs_draws s"] tx(2) by (auto simp: cashback_inv_def)
  moreover have "cashback_inv env (s', F)" using frame_inv [OF inv f(1)] by simp
  moreover have "cs_net s' = cs_net s" using f(1) by (simp add: frame_def)
  ultimately show ?thesis using tx by (auto simp: cashback_inv_def references_def)
qed

lemma send_inv:
  assumes inv: "cashback_inv env (s, F @ f # G)" and new: "fl_outcome f = None"
    and send: "send_payment env e (fl_tx f) s = (out, s')"
  shows "cashback_inv env (s', F @ f\<lparr>fl_outcome := Some out\<rparr> # G)"
proof -
  note eff = send_effect [OF send]
  have "tx_providerReference (fl_tx f) \<in> drawn_reference env ` {..<cs_draws s}"
    using inv new by (auto simp: cashback_inv_def references_def)
  then have "Some (the (tx_providerReference (fl_tx f))) = tx_providerReference (fl_tx f)"
    by (auto simp: drawn_reference_def)
  with eff(3) obtain ts where "transfers (cs_net s') = transfers (cs_net s) @ ts"
    "ts = [] \<or> map transfer_reference ts = [tx_providerReference (fl_tx f)]" by auto
  then have "distinct (references (s', F @ f\<lparr>fl_outcome := Some out\<rparr> # G))
      \<and> set (references (s', F @ f\<lparr>fl_outcome := Some out\<rparr> # G)) \<subseteq> set (references (s, F @ f # G))"
    using inv new by (auto simp: cashback_inv_def references_def) (metis imageI)
  with inv_mono [OF inv eff(1,2)] show ?thesis by simp
qed

lemma event_inv:
  assumes inv: "cashback_inv env (s, F)" and e: "handleBadgeUnlocked env now e s = (res, s')"
    and inj: "inj_on (drawn_id env) {..<cs_draws s'}"
  shows "cashback_inv env (s', F) \<and> (\<exists>ks. keys s' = keys s @ ks) \<and> cs_draws s \<le> cs_draws s'"
proof (cases "cs_draws s < cs_draws s'")
  case False
  then have "frame s s'"
    using e by (auto simp: handleBadgeUnlocked_def draw_id_def add_job_def Let_def split: if_splits option.splits)
  with frame_inv [OF inv] show ?thesis by (simp add: frame_def)
next
  case True
  have "drawn_id env (cs_draws s) \<notin> fst ` set (keys s)"
    using inv fresh_draw [OF inj True] by (auto simp: cashback_inv_def)
  from event_effect [OF e this] consider (frame) "frame s s'" |
    (new) u b a where "keys s' = keys s @ [(drawn_id env (cs_draws s), u, b, a)]"
      "(u, b) \<notin> (\<lambda>(_, u, b, _). (u, b)) ` set (keys s)" "cs_net s' = cs_net s"
    by auto
  then show ?thesis
  proof cases
    case frame
    with frame_inv [OF inv] show ?thesis by (simp add: frame_def)
  next
    case new
    have draws: "{..<cs_draws s} \<subseteq> {..<cs_draws s'}" using True by auto
    have "(u, b) \<notin> tx_owner ` set (keys s)" using new(2) by (auto simp: tx_owner_def image_iff split_beta)
    moreover have "references (s', F) = references (s, F)" using new(3) by (simp add: references_def)
    ultimately have "cashback_inv env (s', F)"
      using inv new(1) \<open>drawn_id env (cs_draws s) \<notin> _\<close> True
        image_mono [OF draws, of "drawn_id env"] image_mono [OF draws, of "drawn_reference env"]
      unfolding cashback_inv_def by (auto simp: tx_owner_def)
    with new(1) True show ?thesis by simp
  qed
qed

lemma step_inv:
  assumes "cashback_step env hmac x y" and "cashback_inv env x" and "inj_on (drawn_id env) {..<cs_draws (fst y)}"
  shows "cashback_inv env y \<and> (\<exists>ks. keys (fst y) = keys (fst x) @ ks) \<and> cs_draws (fst x) \<le> cs_draws (fst y)"
  using assms
proof (induction rule: cashback_step.induct)
  case (event now e s res s' F)
  then show ?case using event_inv by auto
next
  case (start job s tx s' F)
  have inv: "cashback_inv env (take_job job s, F)" using frame_inv [OF start(3) frame_job(2)] by simp
  have "frame s s'" using claim_frame(1) [OF start(2)] frame_job(2) frame_trans by blast
  with start_inv [OF inv start(2)] start(4) show ?case by (simp add: frame_def)
next
  case (skip job s s' F)
  have "frame s s'" using claim_frame(1) [OF skip(2)] frame_job(2) frame_trans by blast
  with frame_inv [OF skip(3)] show ?case by (simp add: frame_def)
next
  case (missing job s s' F err)
  have "frame s (settle_job job (Some err) s')" using claim_frame(1) [OF missing(2)] frame_job(2,3) frame_trans by blast
  with frame_inv [OF missing(3)] show ?case by (simp add: frame_def)
next
  case (send f s out s' F G)
  with send_inv [OF send(3,1,2)] send_effect [OF send(2)] show ?case by simp
next
  case (finish f out now s res s' F G)
  have k: "distinct (map fst (keys s))" "tx_key (fl_tx f) \<in> set (keys s)" using finish(3) by (auto simp: cashback_inv_def)
  have "frame s (settle_job (fl_job f) res s')" using complete_frame [OF k finish(2)] frame_job(3) frame_trans by blast
  with frame_drop [OF finish(3)] show ?case by (simp add: frame_def)
next
  case (webhook now raw body sig s res s' F)
  have "frame s s'" using webhook_frame [OF _ webhook(1)] webhook(2) by (auto simp: cashback_inv_def)
  with frame_inv [OF webhook(2)] show ?case by (simp add: frame_def)
next
  case (retry now tid override s res s' F)
  with frame_inv [OF retry(2) retryFailed_frame [OF retry(1)]] retryFailed_frame [OF retry(1)] show ?case by (simp add: frame_def)
next
  case (scan now s n s' F)
  with frame_inv [OF scan(2) scan_frame [OF scan(1)]] scan_frame [OF scan(1)] show ?case by (simp add: frame_def)
next
  case (stalled s F f G)
  have "frame s (s\<lparr>cs_jobs := cs_jobs s @ [fl_job f]\<rparr>)" by simp
  with frame_drop [OF stalled(1)] show ?case by (simp add: frame_def)
qed

lemma draws_simps [simp]:
  "cs_draws (publish_ids env now ids s) = cs_draws s"
  "cs_draws (saveCashbackProcessedEvent now tx corr st eid s) = cs_draws s"
  "cs_draws (save_row f tid s) = cs_draws s" "cs_draws (add_job tid e s) = cs_draws s"
  "cs_draws (settle_job job res s) = cs_draws s" "cs_draws (take_job job s) = cs_draws s"
  "cs_draws (snd (draw_id env p s)) = Suc (cs_draws s)"
  by (simp_all add: publish_ids_def saveCashbackProcessedEvent_def save_row_def add_job_def settle_job_def
      take_job_def draw_id_def Let_def split_beta)

lemma record_draws: "cs_draws s \<le> cs_draws (record_outcome env now tx st s)"
  by (simp add: record_outcome_def Let_def split_beta split: option.split)

lemma complete_draws:
  "complete_payment env now e final tx out s = (res, s') \<Longrightarrow> cs_draws s \<le> cs_draws s'"
  by (auto simp: complete_payment_def complete_sent_def complete_failed_def Let_def split_beta
      split: sum.splits if_splits)

lemma webhook_draws: "handleWebhook env hmac now raw body sig s = (res, s') \<Longrightarrow> cs_draws s \<le> cs_draws s'"
  using record_draws
  by (auto simp: handleWebhook_def markTransferSuccessful_def markTransferFailed_def Let_def
      split: option.splits sum.splits if_splits)

lemma step_draws: "cashback_step env hmac x y \<Longrightarrow> cs_draws (fst x) \<le> cs_draws (fst y)"
proof (induction rule: cashback_step.induct)
  case (event now e s res s' F)
  then show ?case
    by (auto simp: handleBadgeUnlocked_def draw_id_def add_job_def Let_def split: if_splits option.splits)
qed (auto dest!: claim_frame(1) send_effect(2) complete_draws webhook_draws retryFailed_frame scan_frame simp: frame_def)

lemma steps_inv:
  assumes "(cashback_step env hmac)\<^sup>*\<^sup>* x y" and "cashback_inv env x" and "inj_on (drawn_id env) {..<cs_draws (fst y)}"
  shows "cashback_inv env y \<and> (\<exists>ks. keys (fst y) = keys (fst x) @ ks)"
  using assms
proof (induction rule: rtranclp_induct)
  case (step y z)
  have "{..<cs_draws (fst y)} \<subseteq> {..<cs_draws (fst z)}" using step_draws [OF step(2)] by auto
  with step.prems(2) have "inj_on (drawn_id env) {..<cs_draws (fst y)}" by (rule inj_on_subset)
  with step.IH step.prems step_inv [OF step(2)] show ?case by fastforce
qed simp

end
