(* ===== verification/Cashback_Properties.thy ===== *)
theory Cashback_Properties
  imports Cashback_Steps Outbox_Delivery
begin

text \<open>
  What the cashback service guarantees, over its interleaved steps (\<open>Cashback_Steps\<close>) and for single runs
  of its operations, and the runs in which it does less than it means to.
\<close>

section \<open>Interfaces\<close>

definition payable :: "string \<Rightarrow> cashback_transaction list \<Rightarrow> bool" where
  "payable tid t \<longleftrightarrow> exists_row (\<lambda>r. tx_id r = tid \<and> tx_status r = TxPending) t"

interpretation payment_claim: conditional_claim "claim_row reference" payable for reference
proof
  show "fst (claim_row reference i t) = payable i t" for i t
    by (simp add: claim_row_def payable_def exists_row_def affected_pos Let_def)
  show "\<not> payable i (snd (claim_row reference i t))" for i t
    by (simp add: claim_row_def payable_def exists_row_def Let_def update_where_gone)
  show "snd (claim_row reference i t) = t" if "\<not> payable i t" for i t
    using that by (simp add: claim_row_def payable_def exists_row_def update_where_none Let_def)
qed

interpretation cashback_consumer: idempotent_consumer "handleBadgeUnlocked env now" "\<lambda>e s. eventId e \<in> set (cs_processed s)"
  for env now
proof
  show "handleBadgeUnlocked env now e s = (None, s)" if "eventId e \<in> set (cs_processed s)" for e s
    using that by (simp add: handleBadgeUnlocked_def)
  show "eventId e \<in> set (cs_processed s')" if "handleBadgeUnlocked env now e s = (None, s')" for e s s'
    using that by (auto simp: handleBadgeUnlocked_def add_job_def Let_def split: if_splits option.splits prod.splits)
  show "eventId e \<in> set (cs_processed (snd (handleBadgeUnlocked env now e' s)))" if "eventId e \<in> set (cs_processed s)" for e e' s
    using that by (auto simp: handleBadgeUnlocked_def add_job_def draw_id_def Let_def split: option.splits)
qed

interpretation auto_retry: backoff "\<lambda>n. autoRetryDelayMs (env\<lparr>ce_baseDelayMs := int (Suc b)\<rparr>) (Suc n)" "int (Suc b)" 3600000
  for env b
  using capped_delay_backoff [of "int (Suc b)" 3600000] by (simp add: autoRetryDelayMs_def capped_delay_def [abs_def])

section \<open>The job as steps\<close>

lemma run_job_steps:
  assumes "job \<in> set (cs_jobs s)"
    and "\<And>t G. (cashback_step env hmac)\<^sup>*\<^sup>* (t, G) (between t, G)"
  shows "(cashback_step env hmac)\<^sup>*\<^sup>* (s, F) (run_job env now between job s, F)"
proof -
  obtain r s1 where c: "claim_payment env (job_transactionId job) (take_job job s) = (r, s1)" by fastforce
  show ?thesis
  proof (cases r)
    case NotFound
    with c assms(1) show ?thesis
      by (auto simp: run_job_def processPayment_def intro!: r_into_rtranclp cashback_step.missing)
  next
    case Skipped
    with c assms(1) show ?thesis
      by (auto simp: run_job_def processPayment_def settle_job_def intro!: r_into_rtranclp cashback_step.skip)
  next
    case (Claimed tx)
    obtain out s2 where send: "send_payment env (job_event job) tx s1 = (out, s2)" by fastforce
    obtain res s3 where fin: "complete_payment env now (job_event job) (is_final_attempt job) tx out (between s2) = (res, s3)"
      by fastforce
    let ?f = "\<lambda>x. \<lparr>fl_job = job, fl_tx = tx, fl_outcome = x\<rparr>"
    have "cashback_step env hmac (s, F) (s1, F @ [?f None])"
      using c Claimed assms(1) by (auto intro: cashback_step.start)
    moreover have "cashback_step env hmac (s1, F @ [?f None]) (s2, F @ [?f (Some out)])"
      using cashback_step.send [of "?f None" env s1 out s2 hmac F "[]"] send by simp
    moreover have "cashback_step env hmac (between s2, F @ [?f (Some out)]) (settle_job job res s3, F)"
      using cashback_step.finish [of "?f (Some out)" out env now "between s2" res s3 hmac F "[]"] fin by simp
    moreover have "run_job env now between job s = settle_job job res s3"
      using c Claimed send fin by (simp add: run_job_def processPayment_def)
    ultimately show ?thesis using assms(2) [of s2 "F @ [?f (Some out)]"]
      by (metis (no_types, lifting) converse_rtranclp_into_rtranclp rtranclp.rtrancl_into_rtrancl)
  qed
qed


section \<open>A sample run\<close>

definition sample_paystack :: cashback_env where
  "sample_paystack =
     \<lparr>ce_provider = Some ''paystack'', ce_secretKey = Some ''sk'', ce_amountKobo = 30000, ce_baseDelayMs = 60000,
      ce_maxAutoRetries = 5, ce_rnd = (\<lambda>n. ''AAAAA'' @ [char_of n]), ce_outbox = default_outbox_options,
      ce_confirm = (\<lambda>_. None), ce_responses = (\<lambda>_. Response 200 ''ok''),
      ce_parse = (\<lambda>_. Inr (JObj [(''status'', JBool True), (''data'', JObj [(''recipient_code'', JStr ''RCP_1'')])]))\<rparr>"

definition empty_cashback :: cashback_state where
  "empty_cashback = \<lparr>cs_transactions = [], cs_accounts = [], cs_processed = [], cs_outbox = [], cs_jobs = [], cs_draws = 0,
     cs_bus = sample_bus, cs_net = \<lparr>net_posts = []\<rparr>, cs_scanRunning = False\<rparr>"

definition sample_badge :: "string \<Rightarrow> badge_unlocked_event" where
  "sample_badge eid = createDomainEvent BadgeUnlocked
     \<lparr>bu_badge_name = ''Bronze'', bu_rewardAmountKobo = Some 30000, bu_rewardCurrency = ''NGN'',
      bu_user = \<lparr>snap_id = ''usr_1'', snap_email = ''a@b.c'', snap_name = ''Ada'',
                 snap_bankAccountNumber = Val ''0123456789'', snap_bankCode = Val ''058''\<rparr>\<rparr> ''corr'' eid 0"

definition sample_job :: "string \<Rightarrow> cashback_job" where
  "sample_job eid = \<lparr>job_transactionId = ''cbk_414141414100'', job_event = sample_badge eid, job_attemptsMade = 0\<rparr>"

definition after_event :: cashback_state where
  "after_event = snd (handleBadgeUnlocked sample_paystack 0 (sample_badge ''e1'') empty_cashback)"

definition after_payment :: cashback_state where
  "after_payment = run_job sample_paystack 1 id (sample_job ''e1'') after_event"

lemma after_payment_value:
  "sample_job ''e1'' \<in> set (cs_jobs after_event)"
  "map transfer_reference (transfers (cs_net after_payment)) = [Some ''paystack_cbk_414141414101'']"
  "cs_draws after_payment = 3"
  by code_simp+

lemma after_event_draws: "cs_draws after_event = 1"
  by code_simp

lemma sample_ids: "n \<le> 256 \<Longrightarrow> inj_on (drawn_id sample_paystack) {..<n}"
  by (auto simp: inj_on_def drawn_id_def createReadableId_inj sample_paystack_def)

lemma sample_steps: "(cashback_step sample_paystack hmac)\<^sup>*\<^sup>* (empty_cashback, []) (after_payment, [])"
proof -
  have "cashback_step sample_paystack hmac (empty_cashback, []) (after_event, [])"
    unfolding after_event_def by (rule cashback_step.event) (rule surjective_pairing)
  moreover have "(cashback_step sample_paystack hmac)\<^sup>*\<^sup>* (after_event, []) (after_payment, [])"
    unfolding after_payment_def by (rule run_job_steps [OF after_payment_value(1)]) simp
  ultimately show ?thesis by (rule converse_rtranclp_into_rtranclp)
qed


section \<open>Invariants\<close>

lemma start_inv_holds: "cs_transactions s = [] \<Longrightarrow> net_posts (cs_net s) = [] \<Longrightarrow> cashback_inv env (s, [])"
  by (simp add: cashback_inv_def keys_def references_def transfers_def)

text \<open>
  C4. Whatever events, payments, webhooks and retries interleave, from an empty service on there is at
  most one cashback transaction per user and badge, and identifiers are unique, provided the random
  identifiers drawn are distinct.
\<close>

theorem one_cashback_per_badge:
  assumes "(cashback_step env hmac)\<^sup>*\<^sup>* (s, []) (s', F)" and "cs_transactions s = []" and "net_posts (cs_net s) = []"
    and "inj_on (drawn_id env) {..<cs_draws s'}"
  shows "distinct (map (\<lambda>r. (tx_userId r, tx_badgeName r)) (cs_transactions s')) \<and> distinct (map tx_id (cs_transactions s'))"
proof -
  have "cashback_inv env (s', F)"
    using steps_inv [OF assms(1) start_inv_holds [OF assms(2,3)]] assms(4) by simp
  then show ?thesis by (simp add: cashback_inv_def keys_def comp_def tx_key_def tx_owner_def)
qed

theorem one_cashback_per_badge_witness:
  "distinct (map (\<lambda>r. (tx_userId r, tx_badgeName r)) (cs_transactions after_payment))
   \<and> distinct (map tx_id (cs_transactions after_payment))"
  by (rule one_cashback_per_badge [OF sample_steps])
    (simp_all add: empty_cashback_def after_payment_value(3) sample_ids)

text \<open>
  C11. No payment reference is ever used for two transfer orders: every order sent to Paystack, in any
  interleaving, carries a reference of its own, so the provider's duplicate check never rejects or
  merges two different payments.
\<close>

theorem transfer_references_unique:
  assumes "(cashback_step env hmac)\<^sup>*\<^sup>* (s, []) (s', F)" and "cs_transactions s = []" and "net_posts (cs_net s) = []"
    and "inj_on (drawn_id env) {..<cs_draws s'}"
  shows "distinct (map transfer_reference (transfers (cs_net s')))
    \<and> None \<notin> set (map transfer_reference (transfers (cs_net s')))"
proof -
  have "cashback_inv env (s', F)"
    using steps_inv [OF assms(1) start_inv_holds [OF assms(2,3)]] assms(4) by simp
  then show ?thesis by (auto simp: cashback_inv_def references_def drawn_reference_def)
qed

theorem transfer_references_unique_witness:
  "distinct (map transfer_reference (transfers (cs_net after_payment))) \<and> transfers (cs_net after_payment) \<noteq> []"
  using transfer_references_unique [OF sample_steps] after_payment_value
  by (auto simp: empty_cashback_def sample_ids)

text \<open>
  C24. A cashback transaction, once created, is never deleted, and its user, badge and amount never
  change, whatever happens to its status.
\<close>

theorem cashback_identity_fixed:
  assumes "(cashback_step env hmac)\<^sup>*\<^sup>* (s, F) (s', F')" and "cashback_inv env (s, F)"
    and "inj_on (drawn_id env) {..<cs_draws s'}" and "r \<in> set (cs_transactions s)"
  shows "\<exists>r' \<in> set (cs_transactions s'). tx_id r' = tx_id r \<and> tx_userId r' = tx_userId r
    \<and> tx_badgeName r' = tx_badgeName r \<and> tx_amountKobo r' = tx_amountKobo r"
proof -
  from steps_inv [OF assms(1,2)] assms(3) obtain ks where "keys s' = keys s @ ks" by auto
  then have "tx_key r \<in> tx_key ` set (cs_transactions s')"
    using assms(4) unfolding keys_def by (metis in_set_conv_decomp list.set_map Un_iff image_eqI set_append)
  then show ?thesis by (auto simp: tx_key_def)
qed

theorem cashback_identity_fixed_witness:
  "\<exists>r' \<in> set (cs_transactions after_payment). tx_id r' = tx_id (hd (cs_transactions after_event))
     \<and> tx_userId r' = tx_userId (hd (cs_transactions after_event)) \<and> tx_badgeName r' = tx_badgeName (hd (cs_transactions after_event))
     \<and> tx_amountKobo r' = tx_amountKobo (hd (cs_transactions after_event))"
proof -
  have steps: "(cashback_step sample_paystack (\<lambda>_ _. []))\<^sup>*\<^sup>* (after_event, []) (after_payment, [])"
    unfolding after_payment_def by (rule run_job_steps [OF after_payment_value(1)]) simp
  have "cashback_step sample_paystack (\<lambda>_ _. []) (empty_cashback, []) (after_event, [])"
    unfolding after_event_def by (rule cashback_step.event) (rule surjective_pairing)
  then have "cashback_inv sample_paystack (after_event, [])"
    using step_inv start_inv_holds [of empty_cashback sample_paystack] sample_ids [of "cs_draws after_event"] after_event_draws
    by (fastforce simp: empty_cashback_def)
  moreover have "hd (cs_transactions after_event) \<in> set (cs_transactions after_event)" by code_simp
  ultimately show ?thesis
    using cashback_identity_fixed [OF steps] by (simp add: after_payment_value(3) sample_ids)
qed

text \<open>
  However many workers (or redelivered jobs) try to claim one transaction, exactly one wins if the
  transaction is pending and none otherwise: a payment is never started twice from one pending state.
\<close>

theorem cashback_claim_exclusive:
  "fst (attempts (claim_row reference) (Suc n) tid t) = payable tid t # replicate n False"
proof (cases "payable tid t")
  case True
  then show ?thesis using payment_claim.exactly_one_wins [of tid t "Suc n" reference] by simp
next
  case False
  then show ?thesis using payment_claim.attempts_lost [of tid t reference "Suc n"] by simp
qed

text \<open>
  A \<open>BadgeUnlocked\<close> event whose handling succeeded is never handled again: in any sequence of
  deliveries later copies can be dropped without changing the outcome.
\<close>

theorem badge_redelivery_ignored:
  assumes "fst (handleBadgeUnlocked env now e (handle_all (handleBadgeUnlocked env now) xs s)) = None"
  shows "handle_all (handleBadgeUnlocked env now) (xs @ e # ys @ e # zs) s
       = handle_all (handleBadgeUnlocked env now) (xs @ e # ys @ zs) s"
  using assms by (rule cashback_consumer.duplicate_dropped)

theorem badge_redelivery_ignored_witness:
  "handle_all (handleBadgeUnlocked sample_paystack 0) ([] @ sample_badge ''e1'' # [] @ sample_badge ''e1'' # []) empty_cashback
     = handle_all (handleBadgeUnlocked sample_paystack 0) ([] @ sample_badge ''e1'' # [] @ []) empty_cashback"
  by (rule badge_redelivery_ignored) code_simp

section \<open>Payments\<close>

lemma tx_by_id_save:
  assumes "\<And>r. tx_id (f r) = tid"
  shows "tx_by_id tid (save_row f tid s) = map_option f (tx_by_id tid s)"
proof -
  have "tx_by_id tid (save_row f tid s) = map_option (\<lambda>r. if tx_id r = tid then f r else r) (tx_by_id tid s)"
    unfolding tx_by_id_def save_row_def by (simp, rule find_one_update_where) (simp add: assms)
  then show ?thesis
    by (cases "tx_by_id tid s") (auto simp: tx_by_id_def dest!: find_one_Some)
qed

lemma tx_by_id_congs [simp]:
  "tx_by_id tid (publish_ids env now ids s) = tx_by_id tid s"
  "tx_by_id tid (saveCashbackProcessedEvent now tx corr st eid s) = tx_by_id tid s"
  "tx_by_id tid (snd (draw_id env p s)) = tx_by_id tid s"
  "tx_by_id tid (s\<lparr>cs_accounts := a\<rparr>) = tx_by_id tid s"
  by (simp_all add: tx_by_id_def publish_ids_def saveCashbackProcessedEvent_def draw_id_def Let_def split_beta)

lemma send_transactions: "send_payment env e tx s = (out, s') \<Longrightarrow> cs_transactions s' = cs_transactions s"
  by (auto simp: send_payment_def upsertPayoutAccount_def draw_id_def Let_def split: sum.splits prod.splits if_splits option.splits)

lemma claimed_row:
  assumes "claim_payment env tid s = (Claimed tx, s')"
  shows "tx_by_id tid s' = Some tx" and "tx_id tx = tid" and "tx_status tx = TxProcessing"
    and "\<exists>tx0. tx_by_id tid s = Some tx0 \<and> tx_status tx0 = TxPending \<and> tx_retryCount tx = tx_retryCount tx0"
proof -
  from assms obtain tx0 i where 0: "tx_by_id tid s = Some tx0" "tx_status tx0 = TxPending"
    and tx: "tx = tx0\<lparr>tx_status := TxProcessing, tx_providerReference := Some (payment_reference env i)\<rparr>"
    and s': "cs_transactions s' = snd (claim_row (payment_reference env i) tid (cs_transactions s))"
    by (auto simp: claim_payment_def draw_id_def set_transactions_def Let_def split: option.splits if_splits prod.splits)
  have "tx_id tx0 = tid" using 0(1) by (auto simp: tx_by_id_def dest: find_one_Some)
  with 0 tx s' show "tx_by_id tid s' = Some tx" and "tx_id tx = tid" and "tx_status tx = TxProcessing"
    and "\<exists>tx0. tx_by_id tid s = Some tx0 \<and> tx_status tx0 = TxPending \<and> tx_retryCount tx = tx_retryCount tx0"
    by (auto simp: tx_by_id_def claim_row_def Let_def find_one_update_where)
qed

text \<open>What a run that is not interrupted leaves in the row, by the outcome of sending.\<close>

definition settled_as ::
  "cashback_env \<Rightarrow> int \<Rightarrow> bool \<Rightarrow> cashback_transaction \<Rightarrow> thrown + payout_account \<times> payment_result \<Rightarrow> cashback_transaction \<Rightarrow> bool" where
  "settled_as env now final tx out r \<longleftrightarrow>
     (case out of
        Inr (a, result) \<Rightarrow>
          tx_status r = tx_status_of (rs_status result) \<and> tx_providerReference r = Some (rs_reference result)
          \<and> tx_failureCode r = None \<and> tx_retryCount r = tx_retryCount tx \<and> tx_nextRetryAt r = None
      | Inl err \<Rightarrow>
          (let f = classifyCashbackFailure err in
           if cf_retryable f = Some True \<and> \<not> final
           then tx_status r = TxPending \<and> tx_retryCount r = tx_retryCount tx
           else tx_status r = TxFailed \<and> tx_retryCount r = tx_retryCount tx + 1 \<and> tx_failureReason r = Some (cf_message f)
             \<and> (cf_retryable f = Some True \<longrightarrow> tx_nextRetryAt r = Some (now + autoRetryDelayMs env (tx_retryCount tx + 1)))))"

text \<open>
  C20. A payment that runs without interference settles its transaction: accepted, it takes the
  provider's status and reference; failed for a reason that can heal with attempts left, it is pending
  again and the job is thrown back to the queue; otherwise it is failed, its retry counted, its reason
  kept and, when it can heal, its next retry scheduled. The row never stays in processing.
\<close>

theorem payment_settles:
  assumes "claim_payment env tid s = (Claimed tx, s1)" and "send_payment env e tx s1 = (out, s2)"
    and "processPayment env now id tid e final s = (res, s')"
  shows "\<exists>r. tx_by_id tid s' = Some r \<and> settled_as env now final tx out r
    \<and> (res \<noteq> None \<longleftrightarrow> (\<exists>err. out = Inl err \<and> cf_retryable (classifyCashbackFailure err) = Some True) \<and> \<not> final)
    \<and> tx_status r \<noteq> TxProcessing"
proof -
  note c = claimed_row [OF assms(1)]
  have row: "tx_by_id tid s2 = Some tx" using c(1) send_transactions [OF assms(2)] by (simp add: tx_by_id_def)
  have fin: "complete_payment env now e final tx out s2 = (res, s')"
    using assms by (simp add: processPayment_def)
  show ?thesis
  proof (cases out)
    case (Inr p)
    obtain a result where p: "p = (a, result)" by fastforce
    have "tx_by_id tid (save_row (sent_row result tx) tid s2) = Some (sent_row result tx tx)"
      using row c(2) by (subst tx_by_id_save) (auto simp: sent_row_def sent_transaction_def)
    moreover have "tx_status_of (rs_status result) \<noteq> TxProcessing" by (cases "rs_status result") auto
    ultimately show ?thesis
      using fin Inr p c(2)
      by (auto simp: complete_payment_def complete_sent_def settled_as_def Let_def split_beta sent_row_def sent_transaction_def
          split: if_splits)
  next
    case (Inl err)
    let ?f = "classifyCashbackFailure err"
    show ?thesis
    proof (cases "cf_retryable ?f = Some True \<and> \<not> final")
      case True
      then show ?thesis
        using fin Inl row c(2,3)
        by (auto simp: complete_payment_def complete_failed_def settled_as_def tx_by_id_def find_one_update_where Let_def)
    next
      case False
      have "tx_by_id tid (save_row (failed_row env now ?f tx) tid s2) = Some (failed_row env now ?f tx tx)"
        using row c(2) by (subst tx_by_id_save) (auto simp: failed_row_def failed_transaction_def Let_def)
      then show ?thesis
        using fin Inl False c(2)
        by (auto simp: complete_payment_def complete_failed_def settled_as_def Let_def split_beta failed_row_def failed_transaction_def)
    qed
  qed
qed

theorem payment_settles_witness:
  "\<exists>r. tx_by_id ''cbk_414141414100'' (snd (processPayment sample_paystack 1 id ''cbk_414141414100'' (sample_badge ''e1'') False after_event)) = Some r
     \<and> tx_status r \<noteq> TxProcessing"
proof -
  let ?tid = "''cbk_414141414100''"
  have "(case fst (claim_payment sample_paystack ?tid after_event) of Claimed _ \<Rightarrow> True | _ \<Rightarrow> False)" by code_simp
  then obtain tx s1 where c: "claim_payment sample_paystack ?tid after_event = (Claimed tx, s1)"
    by (cases "claim_payment sample_paystack ?tid after_event") (auto split: claim_result.splits)
  show ?thesis
    using payment_settles [OF c surjective_pairing surjective_pairing] by blast
qed

end
