(* ===== verification/System.thy ===== *)
theory System
  imports Loyalty_Properties Cashback_Properties
begin

text \<open>
  The services together: the badges a purchase unlocks in the loyalty service, announced through the
  outbox and the broker, and the cashback transactions they lead to. The broker delivers an event at least
  once and in no particular order, so the deliveries are any list that holds the same events.
\<close>

section \<open>From the outbox to the consumer\<close>

definition badge_unlocks :: "outbox \<Rightarrow> badge_unlocked_event list" where
  "badge_unlocks rows = List.map_filter (\<lambda>r. case ob_payload r of BadgeUnlockedEvent e \<Rightarrow> Some e | _ \<Rightarrow> None) rows"

definition deliver_badges :: "cashback_env \<Rightarrow> int \<Rightarrow> badge_unlocked_event list \<Rightarrow> cashback_state \<Rightarrow> cashback_state" where
  "deliver_badges env now es s = fold (\<lambda>e s. snd (handleBadgeUnlocked env now e s)) es s"

definition owner_of :: "badge_unlocked_event \<Rightarrow> string \<times> string" where
  "owner_of e = (snap_id (bu_user (payload e)), bu_badge_name (payload e))"

definition cashbacks :: "cashback_state \<Rightarrow> ((string \<times> string) \<times> int) set" where
  "cashbacks s = (\<lambda>r. ((tx_userId r, tx_badgeName r), tx_amountKobo r)) ` set (cs_transactions s)"

lemma deliver_step: "(cashback_step env hmac) (s, F) (snd (handleBadgeUnlocked env now e s), F)"
  by (rule cashback_step.event) (rule surjective_pairing)

lemma deliver_steps: "(cashback_step env hmac)\<^sup>*\<^sup>* (s, F) (deliver_badges env now es s, F)"
proof (induction es arbitrary: s)
  case (Cons e es)
  from converse_rtranclp_into_rtranclp [OF deliver_step Cons.IH] show ?case by (simp add: deliver_badges_def)
qed (simp add: deliver_badges_def)

lemma handle_draws: "cs_draws s \<le> cs_draws (snd (handleBadgeUnlocked env now e s))"
  by (auto simp: handleBadgeUnlocked_def draw_id_def add_job_def Let_def split: option.splits)

lemma deliver_draws: "cs_draws s \<le> cs_draws (deliver_badges env now es s)"
proof (induction es arbitrary: s)
  case (Cons e es)
  from order_trans [OF handle_draws Cons.IH] show ?case by (simp add: deliver_badges_def)
qed (simp add: deliver_badges_def)

lemma handle_processed:
  "set (cs_processed (snd (handleBadgeUnlocked env now e s))) \<subseteq> insert (eventId e) (set (cs_processed s))"
  by (auto simp: handleBadgeUnlocked_def draw_id_def add_job_def Let_def split: option.splits if_splits)

text \<open>One delivery adds the cashback of its user and badge when there is none, with the reward it names.\<close>

lemma handle_cashbacks:
  assumes "drawn_id env (cs_draws s) \<notin> tx_id ` set (cs_transactions s)"
    and "bu_rewardAmountKobo (payload e) = Some a" and "is_int4 a"
    and "eventId e \<in> set (cs_processed s) \<Longrightarrow> owner_of e \<in> fst ` cashbacks s"
  shows "cashbacks (snd (handleBadgeUnlocked env now e s)) =
     (if owner_of e \<in> fst ` cashbacks s then cashbacks s else insert (owner_of e, a) (cashbacks s))"
proof -
  let ?P = "\<lambda>r. tx_userId r = snap_id (bu_user (payload e)) \<and> tx_badgeName r = bu_badge_name (payload e)"
  have found: "find_one ?P (cs_transactions s) = None \<longleftrightarrow> owner_of e \<notin> fst ` cashbacks s"
    by (auto simp: find_one_None list_ex_iff cashbacks_def owner_of_def image_image image_iff)
  have up: "upsert tx_id r (cs_transactions s) = cs_transactions s @ [r]" if "tx_id r = drawn_id env (cs_draws s)" for r
    using assms(1) that by (intro upsert_fresh) auto
  show ?thesis
  proof (cases "owner_of e \<in> fst ` cashbacks s")
    case True
    then obtain x where "find_one ?P (cs_transactions s) = Some x" using found by (cases "find_one ?P (cs_transactions s)") auto
    with True show ?thesis
      by (auto simp: handleBadgeUnlocked_def draw_id_def add_job_def cashbacks_def Let_def)
  next
    case False
    then have "find_one ?P (cs_transactions s) = None" "eventId e \<notin> set (cs_processed s)" using found assms(4) by auto
    with False show ?thesis
      by (simp add: handleBadgeUnlocked_def draw_id_def add_job_def Let_def assms(2,3) up drawn_id_def)
        (simp add: cashbacks_def owner_of_def)
  qed
qed

lemma deliver_cashbacks:
  assumes "cashback_inv env (s, F)" and "inj_on (drawn_id env) {..<cs_draws (deliver_badges env now es s)}"
    and "\<And>e. e \<in> set es \<Longrightarrow> bu_rewardAmountKobo (payload e) = Some (reward (owner_of e)) \<and> is_int4 (reward (owner_of e))"
    and "inj_on eventId (set es)"
    and "\<And>e. e \<in> set es \<Longrightarrow> eventId e \<in> set (cs_processed s) \<Longrightarrow> owner_of e \<in> fst ` cashbacks s"
  shows "cashbacks (deliver_badges env now es s) =
     cashbacks s \<union> {(owner_of e, reward (owner_of e)) | e. e \<in> set es \<and> owner_of e \<notin> fst ` cashbacks s}"
  using assms
proof (induction es arbitrary: s)
  case Nil
  then show ?case by (simp add: deliver_badges_def)
next
  case (Cons e es)
  let ?s1 = "snd (handleBadgeUnlocked env now e s)"
  have run: "deliver_badges env now (e # es) s = deliver_badges env now es ?s1" by (simp add: deliver_badges_def)
  have inj: "inj_on (drawn_id env) {..<cs_draws ?s1}"
    using Cons.prems(2) deliver_draws [of ?s1 env now es] unfolding run by (auto intro: inj_on_subset)
  have inv: "cashback_inv env (?s1, F)"
    using event_inv [OF Cons.prems(1) surjective_pairing inj] by simp
  show ?case
  proof (cases "cs_draws s < cs_draws ?s1")
    case True
    have "drawn_id env (cs_draws s) \<notin> fst ` set (keys s)"
      using Cons.prems(1) fresh_draw [OF inj True] by (auto simp: cashback_inv_def)
    then have fresh: "drawn_id env (cs_draws s) \<notin> tx_id ` set (cs_transactions s)"
      by (auto simp: keys_def tx_key_def image_image)
    have one: "cashbacks ?s1 = (if owner_of e \<in> fst ` cashbacks s then cashbacks s
        else insert (owner_of e, reward (owner_of e)) (cashbacks s))"
      using Cons.prems(3) [of e] Cons.prems(5) [of e] by (intro handle_cashbacks [OF fresh]) auto
    then have owner: "owner_of e \<in> fst ` cashbacks ?s1" by auto
    have "cashbacks (deliver_badges env now es ?s1) =
       cashbacks ?s1 \<union> {(owner_of e, reward (owner_of e)) | e. e \<in> set es \<and> owner_of e \<notin> fst ` cashbacks ?s1}"
    proof (rule Cons.IH [OF inv])
      fix e' assume e': "e' \<in> set es" "eventId e' \<in> set (cs_processed ?s1)"
      show "owner_of e' \<in> fst ` cashbacks ?s1"
      proof (cases "eventId e' = eventId e")
        case True
        with inj_onD [OF Cons.prems(4), of e' e] e'(1) have "e' = e" by simp
        with owner show ?thesis by simp
      next
        case False
        with e'(2) handle_processed [of env now e s] have "eventId e' \<in> set (cs_processed s)" by auto
        with Cons.prems(5) [of e'] e'(1) show ?thesis using one by auto
      qed
    qed (use Cons.prems(2-4) run in \<open>auto intro: inj_on_subset\<close>)
    then show ?thesis unfolding run using one by auto
  next
    case False
    then have same: "?s1 = s" and p: "eventId e \<in> set (cs_processed s)"
      by (auto simp: handleBadgeUnlocked_def draw_id_def add_job_def Let_def split: option.splits if_splits)
    then show ?thesis
      unfolding run same using Cons.IH [OF Cons.prems(1)] Cons.prems(2-5) run same by (auto dest: inj_on_subset)
  qed
qed

section \<open>From a purchase to its cashbacks\<close>

lemma badge_unlocks_append: "badge_unlocks (xs @ ys) = badge_unlocks xs @ badge_unlocks ys"
  by (simp add: badge_unlocks_def List.map_filter_def)

lemma no_badge_unlocks: "badge_unlocks (map (\<lambda>e. outbox_row e now) (unlock_events rnd now event n cs)) = []"
  by (induction cs arbitrary: n) (auto simp: badge_unlocks_def List.map_filter_simps outbox_row_def achievement_event_def)

lemma badge_unlocks_events:
  "map BadgeUnlockedEvent (badge_unlocks (map (\<lambda>e. outbox_row e now) (badge_events rnd now event n bs))) = badge_events rnd now event n bs"
  by (induction bs arbitrary: n) (auto simp: badge_unlocks_def List.map_filter_simps outbox_row_def badge_event_def)

lemma badge_unlocks_payload:
  "map payload (badge_unlocks (map (\<lambda>e. outbox_row e now) (badge_events rnd now event n bs))) =
     map (\<lambda>b. \<lparr>bu_badge_name = bc_name b, bu_rewardAmountKobo = Some (bc_rewardAmountKobo b),
               bu_rewardCurrency = bc_rewardCurrency b, bu_user = pc_user (payload event)\<rparr>) bs"
  by (induction bs arbitrary: n) (auto simp: badge_unlocks_def List.map_filter_simps outbox_row_def badge_event_def)

text \<open>The events stored by a purchase for the badges \<open>bs\<close> it unlocks.\<close>

definition new_badges :: "string \<Rightarrow> loyalty_db \<Rightarrow> loyalty_db \<Rightarrow> badge_config set" where
  "new_badges u db db' = {b \<in> set (ld_badges db). bc_id b \<in> badge_ids u db' - badge_ids u db}"

lemma purchase_badge_events:
  assumes "sql_orders od" and "distinct (map ac_id (ld_achievements db))" and "distinct (map bc_id (ld_badges db))"
    and "purchase_transaction rnd od now event db = Inr (ids, db')"
    and "fresh_draws rnd (ld_draws db) (ld_draws db') db"
  obtains bs es where "badge_unlocks (drop (length (ld_outbox db)) (ld_outbox db')) = es"
    and "set bs = new_badges (pc_userId (payload event)) db db'"
    and "map payload es = map (\<lambda>b. \<lparr>bu_badge_name = bc_name b, bu_rewardAmountKobo = Some (bc_rewardAmountKobo b),
               bu_rewardCurrency = bc_rewardCurrency b, bu_user = pc_user (payload event)\<rparr>) bs"
    and "distinct (map eventId es)"
proof (rule transaction_rows [OF assms(1,2,4,5)])
  let ?u = "pc_userId (payload event)"
  fix cs :: "achievement_config list" and bs :: "badge_config list"
  let ?m = "ld_draws db + 2 * length cs"
  let ?es = "badge_unlocks (map (\<lambda>e. outbox_row e now) (badge_events rnd now event ?m bs))"
  assume db': "db' = rows_added rnd now event cs bs db"
    and bs: "bs = due_badges od ?u (db\<lparr>ld_user_achievements := ld_user_achievements db @ unlock_rows rnd now ?u (ld_draws db) cs\<rparr>)"
  have outbox: "badge_unlocks (drop (length (ld_outbox db)) (ld_outbox db')) = ?es"
    by (simp add: db' rows_added_def Let_def badge_unlocks_append no_badge_unlocks)
  have sub: "set bs \<subseteq> set (ld_badges db)" "bc_id ` set bs \<inter> badge_ids ?u db = {}"
    unfolding bs due_badges_def sql_orders_set(2) [OF assms(1)] set_filter
    by (auto simp: active_badges_def badge_ids_def badges_of_def)
  have ids': "badge_ids ?u db' = badge_ids ?u db \<union> bc_id ` set bs"
    unfolding db' by (rule rows_added_badges(1) [OF refl])
  have "b \<in> set bs" if "b \<in> set (ld_badges db)" "bc_id b \<in> bc_id ` set bs" for b
    using that sub(1) assms(3) by (auto simp: distinct_map dest: inj_onD)
  then have new: "set bs = new_badges ?u db db'" using sub unfolding new_badges_def ids' by auto
  have "map eventId ?es = map bumpa_event_id (map BadgeUnlockedEvent ?es)" by simp
  also have "\<dots> = drawn_ids EventId rnd (Suc ?m) (length bs)"
    unfolding badge_unlocks_events by (rule badge_event_ids)
  finally have "map eventId ?es = drawn_ids EventId rnd (Suc ?m) (length bs)" .
  moreover have "inj_on rnd {ld_draws db..<ld_draws db + 2 * length cs + 2 * length bs}"
    using assms(5) by (simp add: db' fresh_draws_def rows_added_def Let_def)
  ultimately have "distinct (map eventId ?es)" by (auto intro: drawn_ids_distinct)
  with that [OF outbox new badge_unlocks_payload] show ?thesis .
qed

lemma badge_payload_owners:
  assumes "map payload es = map (\<lambda>b. \<lparr>bu_badge_name = bc_name b, bu_rewardAmountKobo = Some (bc_rewardAmountKobo b),
               bu_rewardCurrency = bc_rewardCurrency b, bu_user = user\<rparr>) bs"
  shows "owner_of ` set es = (\<lambda>b. (snap_id user, bc_name b)) ` set bs"
    and "e \<in> set es \<Longrightarrow> \<exists>b \<in> set bs. owner_of e = (snap_id user, bc_name b)
           \<and> bu_rewardAmountKobo (payload e) = Some (bc_rewardAmountKobo b)"
proof -
  let ?p = "\<lambda>b. \<lparr>bu_badge_name = bc_name b, bu_rewardAmountKobo = Some (bc_rewardAmountKobo b),
               bu_rewardCurrency = bc_rewardCurrency b, bu_user = user\<rparr>"
  have payloads: "payload ` set es = ?p ` set bs" using arg_cong [OF assms, of set] by simp
  have "owner_of ` set es = (\<lambda>p. (snap_id (bu_user p), bu_badge_name p)) ` payload ` set es" by (simp add: image_image owner_of_def)
  then show "owner_of ` set es = (\<lambda>b. (snap_id user, bc_name b)) ` set bs" unfolding payloads by (simp add: image_image)
  assume "e \<in> set es"
  with payloads have "payload e \<in> ?p ` set bs" by blast
  then show "\<exists>b \<in> set bs. owner_of e = (snap_id user, bc_name b) \<and> bu_rewardAmountKobo (payload e) = Some (bc_rewardAmountKobo b)"
    by (auto simp: owner_of_def)
qed

lemma badge_cashbacks:
  assumes "sql_orders od" and "distinct (map ac_id (ld_achievements db))" and "distinct (map bc_id (ld_badges db))"
    and "purchase_transaction rnd od now event db = Inr (ids, db')"
    and "fresh_draws rnd (ld_draws db) (ld_draws db') db"
    and "distinct (map bc_name (ld_badges db))" and "\<forall>b \<in> set (ld_badges db). is_int4 (bc_rewardAmountKobo b)"
    and "set es = set (badge_unlocks (drop (length (ld_outbox db)) (ld_outbox db')))"
    and "(cashback_step env hmac)\<^sup>*\<^sup>* (s0, []) (s, F)" and "cs_transactions s0 = []" and "net_posts (cs_net s0) = []"
    and "inj_on (drawn_id env) {..<cs_draws (deliver_badges env now' es s)}"
    and "\<forall>e \<in> set es. eventId e \<notin> set (cs_processed s)"
  shows "cashbacks (deliver_badges env now' es s) = cashbacks s \<union>
      {((snap_id (pc_user (payload event)), bc_name b), bc_rewardAmountKobo b) | b.
         b \<in> new_badges (pc_userId (payload event)) db db'
         \<and> (snap_id (pc_user (payload event)), bc_name b) \<notin> fst ` cashbacks s}
    \<and> distinct (map (\<lambda>r. (tx_userId r, tx_badgeName r)) (cs_transactions (deliver_badges env now' es s)))"
proof (rule purchase_badge_events [OF assms(1-5)])
  let ?u = "pc_userId (payload event)" and ?U = "snap_id (pc_user (payload event))"
  fix bs es'
  assume es': "badge_unlocks (drop (length (ld_outbox db)) (ld_outbox db')) = es'"
    and new: "set bs = new_badges ?u db db'"
    and pay: "map payload es' = map (\<lambda>b. \<lparr>bu_badge_name = bc_name b, bu_rewardAmountKobo = Some (bc_rewardAmountKobo b),
               bu_rewardCurrency = bc_rewardCurrency b, bu_user = pc_user (payload event)\<rparr>) bs"
    and dist: "distinct (map eventId es')"
  define reward where "reward = (\<lambda>k :: string \<times> string. bc_rewardAmountKobo (the (List.find (\<lambda>b. bc_name b = snd k) (ld_badges db))))"
  have reward: "reward (U, bc_name b) = bc_rewardAmountKobo b" if "b \<in> set bs" for b U
    using find_key_unique [OF assms(6), of b] that new by (simp add: reward_def new_badges_def)
  have int4: "is_int4 (bc_rewardAmountKobo b)" if "b \<in> set bs" for b using assms(7) that new by (simp add: new_badges_def)
  have set_es: "set es = set es'" using assms(8) es' by simp
  note owners = badge_payload_owners(1) [OF pay, folded set_es] and each = badge_payload_owners(2) [OF pay, folded set_es]
  have steps: "(cashback_step env hmac)\<^sup>*\<^sup>* (s0, []) (deliver_badges env now' es s, F)"
    using assms(9) deliver_steps by (rule rtranclp_trans)
  have start: "cashback_inv env (s0, [])" by (rule start_inv_holds [OF assms(10,11)])
  have "inj_on (drawn_id env) {..<cs_draws s}"
    using assms(12) deliver_draws [of s env now' es] by (auto intro: inj_on_subset)
  then have inv: "cashback_inv env (s, F)" using steps_inv [OF assms(9) start] by simp
  have inv': "cashback_inv env (deliver_badges env now' es s, F)" using steps_inv [OF steps start] assms(12) by simp
  have "cashbacks (deliver_badges env now' es s) =
      cashbacks s \<union> {(owner_of e, reward (owner_of e)) | e. e \<in> set es \<and> owner_of e \<notin> fst ` cashbacks s}"
  proof (rule deliver_cashbacks [OF inv assms(12)])
    show "bu_rewardAmountKobo (payload e) = Some (reward (owner_of e)) \<and> is_int4 (reward (owner_of e))" if "e \<in> set es" for e
      using each [OF that] reward int4 by auto
    show "inj_on eventId (set es)" using dist set_es by (simp add: distinct_map)
  qed (use assms(13) in auto)
  also have "{(owner_of e, reward (owner_of e)) | e. e \<in> set es \<and> owner_of e \<notin> fst ` cashbacks s} =
      (\<lambda>k. (k, reward k)) ` {k \<in> owner_of ` set es. k \<notin> fst ` cashbacks s}" by blast
  also have "\<dots> = {((?U, bc_name b), bc_rewardAmountKobo b) | b. b \<in> new_badges ?u db db' \<and> (?U, bc_name b) \<notin> fst ` cashbacks s}"
    unfolding owners new [symmetric] using reward by force
  finally show ?thesis
    using inv' by (simp add: cashback_inv_def keys_def comp_def tx_key_def tx_owner_def)
qed

text \<open>
  C7. Badges turn into cashbacks, once each: take a purchase the loyalty service has processed and deliver
  the \<open>BadgeUnlocked\<close> events it stored to the cashback service, in any order and each any positive number
  of times. The cashback transactions are then those there were, and one for every badge the purchase
  unlocked that had none, for the user of the purchase and with the reward of the badge's configuration;
  no user has two for a badge.
\<close>

theorem unlocked_badges_become_cashbacks:
  assumes "sql_orders od" and "distinct (map ac_id (ld_achievements db))" and "distinct (map bc_id (ld_badges db))"
    and "purchase_transaction rnd od now event db = Inr (ids, db')"
    and "fresh_draws rnd (ld_draws db) (ld_draws db') db"
    and "distinct (map bc_name (ld_badges db))" and "\<forall>b \<in> set (ld_badges db). is_int4 (bc_rewardAmountKobo b)"
    and "set es = set (badge_unlocks (drop (length (ld_outbox db)) (ld_outbox db')))"
    and "(cashback_step env hmac)\<^sup>*\<^sup>* (s0, []) (s, F)" and "cs_transactions s0 = []" and "net_posts (cs_net s0) = []"
    and "inj_on (drawn_id env) {..<cs_draws (deliver_badges env now' es s)}"
    and "\<forall>e \<in> set es. eventId e \<notin> set (cs_processed s)"
  shows "cashbacks (deliver_badges env now' es s) = cashbacks s \<union>
      {((snap_id (pc_user (payload event)), bc_name b), bc_rewardAmountKobo b) | b.
         b \<in> new_badges (pc_userId (payload event)) db db'
         \<and> (snap_id (pc_user (payload event)), bc_name b) \<notin> fst ` cashbacks s}
    \<and> distinct (map (\<lambda>r. (tx_userId r, tx_badgeName r)) (cs_transactions (deliver_badges env now' es s)))"
  using assms by (rule badge_cashbacks)

lemma sample_system:
  "map bc_name (ld_badges sample_db) = [''Bronze'']" "map bc_rewardAmountKobo (ld_badges sample_db) = [30000]" "ld_outbox sample_db = []"
  "badge_ids ''usr_1'' sample_db = {}"
  by (simp_all add: sample_db_def badge_ids_def badges_of_def)

lemma deliver_draws_upper: "cs_draws (deliver_badges env now es s) \<le> cs_draws s + length es"
proof (induction es arbitrary: s)
  case (Cons e es)
  have "cs_draws (snd (handleBadgeUnlocked env now e s)) \<le> Suc (cs_draws s)"
    by (auto simp: handleBadgeUnlocked_def draw_id_def add_job_def Let_def split: option.splits)
  with Cons.IH [of "snd (handleBadgeUnlocked env now e s)"] show ?case by (simp add: deliver_badges_def)
qed (simp add: deliver_badges_def)

lemma sample_outcome:
  "case purchase_transaction sample_rnd sample_orders 9 (sample_purchase ''evt_1'' 500000) sample_db of
     Inr (ids, db') \<Rightarrow> length (badge_unlocks (ld_outbox db')) = 1 \<and> map ub_badgeId (badges_of ''usr_1'' db') = [''bdg_1'']
   | Inl _ \<Rightarrow> False"
  by code_simp

theorem unlocked_badges_become_cashbacks_witness:
  "\<exists>ids db' es. purchase_transaction sample_rnd sample_orders 9 (sample_purchase ''evt_1'' 500000) sample_db = Inr (ids, db')
     \<and> es = badge_unlocks (ld_outbox db') @ badge_unlocks (ld_outbox db')
     \<and> cashbacks (deliver_badges sample_paystack 10 es empty_cashback) = {((''usr_1'', ''Bronze''), 30000)}"
proof -
  obtain ids db' where tx: "purchase_transaction sample_rnd sample_orders 9 (sample_purchase ''evt_1'' 500000) sample_db = Inr (ids, db')"
    using sample_runs by blast
  let ?es = "badge_unlocks (ld_outbox db') @ badge_unlocks (ld_outbox db')"
  have out: "length (badge_unlocks (ld_outbox db')) = 1" "badge_ids ''usr_1'' db' = {''bdg_1''}"
    using sample_outcome by (simp_all add: tx badge_ids_def flip: set_map)
  have draws: "cs_draws (deliver_badges sample_paystack 10 ?es empty_cashback) \<le> 256"
    using deliver_draws_upper [of sample_paystack 10 ?es empty_cashback] out(1) by (simp add: empty_cashback_def)
  have new: "new_badges ''usr_1'' sample_db db' = set (ld_badges sample_db)"
  proof -
    have "\<forall>b \<in> set (ld_badges sample_db). bc_id b = ''bdg_1''" by (simp add: sample_db_def)
    then show ?thesis unfolding new_badges_def sample_system(4) out(2) by blast
  qed
  have user: "pc_userId (payload (sample_purchase ''evt_1'' 500000)) = ''usr_1''"
    "snap_id (pc_user (payload (sample_purchase ''evt_1'' 500000))) = ''usr_1''" by (simp_all add: sample_purchase_def)
  have names: "distinct (map bc_name (ld_badges sample_db))" by (simp add: sample_system)
  have int4: "\<forall>b \<in> set (ld_badges sample_db). is_int4 (bc_rewardAmountKobo b)" by (simp add: sample_db_def is_int4_def)
  have same: "set ?es = set (badge_unlocks (drop (length (ld_outbox sample_db)) (ld_outbox db')))" by (simp add: sample_system)
  have fresh: "fresh_draws sample_rnd (ld_draws sample_db) (ld_draws db') sample_db" unfolding sample_pk(3) by (rule sample_fresh)
  have empty: "cs_transactions empty_cashback = []" "net_posts (cs_net empty_cashback) = []"
    "\<forall>e \<in> set ?es. eventId e \<notin> set (cs_processed empty_cashback)" by (simp_all add: empty_cashback_def)
  note fact = unlocked_badges_become_cashbacks [OF sample_orders_ok(1) sample_pk(1,2) tx fresh names int4 same rtranclp.rtrancl_refl
      empty(1,2) sample_ids [OF draws] empty(3), unfolded user]
  have "cashbacks (deliver_badges sample_paystack 10 ?es empty_cashback) = cashbacks empty_cashback \<union>
      {((''usr_1'', bc_name b), bc_rewardAmountKobo b) | b.
         b \<in> new_badges ''usr_1'' sample_db db' \<and> (''usr_1'', bc_name b) \<notin> fst ` cashbacks empty_cashback}"
    by (rule conjunct1 [OF fact])
  also have "\<dots> = {((''usr_1'', ''Bronze''), 30000)}"
    unfolding new by (auto simp: cashbacks_def empty_cashback_def sample_db_def)
  finally show ?thesis using tx by blast
qed

end
