(* ===== verification/Admin_Properties.thy ===== *)
theory Admin_Properties
  imports Admin Loyalty_Properties
begin

text \<open>
  The admin API keeps the configuration sound: positions stay unique, every reference resolves, every
  stored rule is one the rule engine evaluates. The locale \<open>sort_positions\<close> is the contract of making
  room at a position, with the three tables as its instances.
\<close>

section \<open>Making room\<close>

definition distinct_positions :: "('r \<Rightarrow> 'g) \<Rightarrow> ('r \<Rightarrow> int) \<Rightarrow> 'r list \<Rightarrow> bool" where
  "distinct_positions scope pos t \<longleftrightarrow> inj_on (\<lambda>r. (scope r, pos r)) (set t)"

definition keeps_place :: "('r \<Rightarrow> string) \<Rightarrow> string option \<Rightarrow> 'r \<Rightarrow> bool" where
  "keeps_place key ex r \<longleftrightarrow> truthy ex \<and> key r = the ex"

locale sort_positions =
  fixes make_room :: "'g \<Rightarrow> int option \<Rightarrow> string option \<Rightarrow> 'r list \<Rightarrow> admin_error + 'r list"
    and key :: "'r \<Rightarrow> string" and scope :: "'r \<Rightarrow> 'g" and pos :: "'r \<Rightarrow> int" and set_pos :: "int \<Rightarrow> 'r \<Rightarrow> 'r"
  assumes shifted: "make_room g (Some n) ex t = Inr t' \<Longrightarrow>
      t' = map (\<lambda>r. if scope r = g \<and> n \<le> pos r \<and> \<not> keeps_place key ex r then set_pos (pos r + 1) r else r) t"
    and set_pos: "pos (set_pos m r) = m" "key (set_pos m r) = key r" "scope (set_pos m r) = scope r"
begin

lemma keys_kept: "make_room g (Some n) ex t = Inr t' \<Longrightarrow> map key t' = map key t"
  by (drule shifted) (simp add: set_pos)

text \<open>A row put at the position made free shares it with no other row of its scope.\<close>

lemma placed:
  assumes room: "make_room g (Some n) ex t = Inr t'" and distinct: "distinct_positions scope pos t"
    and x: "scope x = g" "pos x = n" and ex: "ex = None \<or> ex = Some (key x)"
  shows "distinct_positions scope pos (upsert key x t')"
proof -
  let ?f = "\<lambda>r. if scope r = g \<and> n \<le> pos r \<and> \<not> keeps_place key ex r then set_pos (pos r + 1) r else r"
  let ?p = "\<lambda>a. if scope a = g \<and> n \<le> pos a then pos a + 1 else pos a"
  have moved: "\<exists>a \<in> set t. r = ?f a \<and> scope r = scope a \<and> pos r = ?p a"
    if "r \<in> set (upsert key x t')" "r \<noteq> x" for r
  proof -
    have r: "r \<in> set t'" "key r \<noteq> key x" using that by (auto simp: in_upsert)
    then obtain a where a: "a \<in> set t" "r = ?f a" unfolding shifted [OF room] by auto
    have k: "key a = key r" and "scope r = scope a" unfolding a(2) by (simp_all add: set_pos)
    moreover have "\<not> keeps_place key ex a" using r(2) k ex by (auto simp: keeps_place_def truthy_def)
    then have "pos r = ?p a" unfolding a(2) by (simp add: set_pos)
    ultimately show ?thesis using a by blast
  qed
  have free: "(scope r, pos r) \<noteq> (g, n)" if "r \<in> set (upsert key x t')" "r \<noteq> x" for r
  proof -
    from moved [OF that] obtain a where a: "scope r = scope a" "pos r = ?p a" by blast
    show ?thesis by (cases "scope a = g \<and> n \<le> pos a") (use a in auto)
  qed
  have other: "r = s" if "r \<in> set (upsert key x t')" "s \<in> set (upsert key x t')" "r \<noteq> x" "s \<noteq> x" "(scope r, pos r) = (scope s, pos s)" for r s
  proof -
    from moved [OF that(1,3)] obtain a where a: "a \<in> set t" "r = ?f a" "scope r = scope a" "pos r = ?p a" by blast
    from moved [OF that(2,4)] obtain b where b: "b \<in> set t" "s = ?f b" "scope s = scope b" "pos s = ?p b" by blast
    have "scope a = scope b" using a(3) b(3) that(5) by simp
    moreover have "?p a = ?p b" unfolding a(4) [symmetric] b(4) [symmetric] using that(5) by simp
    ultimately have "(scope a, pos a) = (scope b, pos b)" by (cases "scope b = g"; cases "n \<le> pos a"; cases "n \<le> pos b") auto
    then have "a = b" using a(1) b(1) distinct by (simp add: distinct_positions_def inj_on_def)
    with a(2) b(2) show "r = s" by simp
  qed
  show ?thesis unfolding distinct_positions_def
  proof (rule inj_onI)
    fix r s assume rs: "r \<in> set (upsert key x t')" "s \<in> set (upsert key x t')" "(scope r, pos r) = (scope s, pos s)"
    consider "r = x" "s = x" | "r = x" "s \<noteq> x" | "r \<noteq> x" "s = x" | "r \<noteq> x" "s \<noteq> x" by blast
    then show "r = s" using free [of r] free [of s] other [of r s] rs x by cases auto
  qed
qed

text \<open>Rows that move keep their order.\<close>

lemma order_kept:
  assumes "make_room g (Some n) ex t = Inr t'" and "i < length t" "j < length t"
    and "scope (t ! i) = scope (t ! j)" and "\<not> keeps_place key ex (t ! i)" "\<not> keeps_place key ex (t ! j)"
  shows "pos (t' ! i) < pos (t' ! j) \<longleftrightarrow> pos (t ! i) < pos (t ! j)"
  using assms(2-) shifted [OF assms(1)] by (auto simp: set_pos)

end

lemma increment_Inr:
  "increment P get set_to t = Inr t' \<Longrightarrow> t' = map (\<lambda>r. if P r then set_to (get r + 1) r else r) t"
  by (auto simp: increment_def update_where_def split: if_splits)

lemma not_keeps_place: "(truthy ex \<longrightarrow> key r \<noteq> the ex) \<longleftrightarrow> \<not> keeps_place key ex r"
  by (auto simp: keeps_place_def)

lemma guarded: "(if \<not> ok then Inl err else x) = Inr y \<Longrightarrow> x = Inr y"
  by (simp split: if_splits)

lemma unit_true: "(() = g \<and> P) = P"
  by simp

interpretation group_positions: sort_positions "\<lambda>_ :: unit. makeRoomForGroupSortOrder" ag_key "\<lambda>_. ()" ag_sortOrder "\<lambda>m r. r\<lparr>ag_sortOrder := m\<rparr>"
proof
  fix g :: unit and n ex t t' assume "makeRoomForGroupSortOrder (Some n) ex t = Inr t'"
  then have "increment (\<lambda>r. n \<le> ag_sortOrder r \<and> \<not> keeps_place ag_key ex r) ag_sortOrder (\<lambda>m r. r\<lparr>ag_sortOrder := m\<rparr>) t = Inr t'"
    unfolding makeRoomForGroupSortOrder_def not_keeps_place option.case by (rule guarded)
  then show "t' = map (\<lambda>r. if () = g \<and> n \<le> ag_sortOrder r \<and> \<not> keeps_place ag_key ex r then r\<lparr>ag_sortOrder := ag_sortOrder r + 1\<rparr> else r) t"
    unfolding unit_true by (rule increment_Inr)
qed simp_all

interpretation badge_positions: sort_positions "\<lambda>_ :: unit. makeRoomForBadgeSortOrder" bc_id "\<lambda>_. ()" bc_sortOrder "\<lambda>m r. r\<lparr>bc_sortOrder := m\<rparr>"
proof
  fix g :: unit and n ex t t' assume "makeRoomForBadgeSortOrder (Some n) ex t = Inr t'"
  then have "increment (\<lambda>r. n \<le> bc_sortOrder r \<and> \<not> keeps_place bc_id ex r) bc_sortOrder (\<lambda>m r. r\<lparr>bc_sortOrder := m\<rparr>) t = Inr t'"
    unfolding makeRoomForBadgeSortOrder_def not_keeps_place option.case by (rule guarded)
  then show "t' = map (\<lambda>r. if () = g \<and> n \<le> bc_sortOrder r \<and> \<not> keeps_place bc_id ex r then r\<lparr>bc_sortOrder := bc_sortOrder r + 1\<rparr> else r) t"
    unfolding unit_true by (rule increment_Inr)
qed simp_all

interpretation achievement_positions: sort_positions makeRoomForAchievementSortOrder ac_id ac_groupKey ac_sortOrder "\<lambda>m r. r\<lparr>ac_sortOrder := m\<rparr>"
proof
  fix g and n ex t t' assume "makeRoomForAchievementSortOrder g (Some n) ex t = Inr t'"
  then have "increment (\<lambda>r. ac_groupKey r = g \<and> n \<le> ac_sortOrder r \<and> \<not> keeps_place ac_id ex r) ac_sortOrder (\<lambda>m r. r\<lparr>ac_sortOrder := m\<rparr>) t = Inr t'"
    unfolding makeRoomForAchievementSortOrder_def not_keeps_place option.case by (rule guarded)
  then show "t' = map (\<lambda>r. if ac_groupKey r = g \<and> n \<le> ac_sortOrder r \<and> \<not> keeps_place ac_id ex r then r\<lparr>ac_sortOrder := ac_sortOrder r + 1\<rparr> else r) t"
    by (rule increment_Inr)
qed simp_all

section \<open>Soundness of the configuration\<close>

definition groups_ok :: "loyalty_db \<Rightarrow> bool" where
  "groups_ok db \<longleftrightarrow> distinct (map ag_key (ld_groups db)) \<and> distinct_positions (\<lambda>_. ()) ag_sortOrder (ld_groups db)"

definition achievements_ok :: "loyalty_db \<Rightarrow> bool" where
  "achievements_ok db \<longleftrightarrow>
     distinct (map ac_id (ld_achievements db)) \<and> distinct_positions ac_groupKey ac_sortOrder (ld_achievements db) \<and>
     (\<forall>a \<in> set (ld_achievements db). ac_groupKey a \<in> ag_key ` set (ld_groups db) \<and> isValidAchievementRuleShape (ac_rule a)
        \<and> set (collectAchievementSetIds (ac_rule a)) \<subseteq> ac_id ` set (ld_achievements db))"

definition badges_ok :: "loyalty_db \<Rightarrow> bool" where
  "badges_ok db \<longleftrightarrow>
     distinct (map bc_id (ld_badges db)) \<and> distinct_positions (\<lambda>_. ()) bc_sortOrder (ld_badges db) \<and>
     (\<forall>b \<in> set (ld_badges db). set (bc_requiredAchievementIds b) \<subseteq> ac_id ` set (ld_achievements db)
        \<and> 1 \<le> bc_requiredAchievementCount b \<and> 1 \<le> bc_rewardAmountKobo b)"

definition config_ok :: "loyalty_db \<Rightarrow> bool" where
  "config_ok db \<longleftrightarrow> groups_ok db \<and> achievements_ok db \<and> badges_ok db"

text \<open>The routes of \<open>AdminConfigController\<close> that change something, with their bodies.\<close>

datatype admin_request =
    PostGroup json_object | PatchGroup string json_object
  | PostAchievement json_object | PatchAchievement string json_object
  | PostBadge json_object | PatchBadge string json_object

definition reject_invalid :: "'d option \<Rightarrow> ('d \<Rightarrow> admin_error + 'r \<times> loyalty_db) \<Rightarrow> admin_error + loyalty_db" where
  "reject_invalid dto run =
     (case dto of None \<Rightarrow> Inl Invalid | Some d \<Rightarrow> (case run d of Inl err \<Rightarrow> Inl err | Inr (_, db) \<Rightarrow> Inr db))"

fun handle_admin :: "(string \<Rightarrow> bool) \<Rightarrow> admin_request \<Rightarrow> loyalty_db \<Rightarrow> admin_error + loyalty_db" where
  "handle_admin isUrl (PostGroup body) db = reject_invalid (CreateAchievementGroupDto body) (\<lambda>d. createGroup d db)"
| "handle_admin isUrl (PatchGroup k body) db = reject_invalid (UpdateAchievementGroupDto body) (\<lambda>d. updateGroup k d db)"
| "handle_admin isUrl (PostAchievement body) db = reject_invalid (CreateAchievementConfigDto isUrl body) (\<lambda>d. createAchievement d db)"
| "handle_admin isUrl (PatchAchievement i body) db = reject_invalid (UpdateAchievementConfigDto isUrl body) (\<lambda>d. updateAchievement i d db)"
| "handle_admin isUrl (PostBadge body) db = reject_invalid (CreateBadgeConfigDto isUrl body) (\<lambda>d. createBadge d db)"
| "handle_admin isUrl (PatchBadge i body) db = reject_invalid (UpdateBadgeConfigDto isUrl body) (\<lambda>d. updateBadge i d db)"

fun admin_session :: "(string \<Rightarrow> bool) \<Rightarrow> admin_request list \<Rightarrow> loyalty_db \<Rightarrow> loyalty_db" where
  "admin_session isUrl [] db = db"
| "admin_session isUrl (r # rs) db =
     admin_session isUrl rs (case handle_admin isUrl r db of Inl _ \<Rightarrow> db | Inr db' \<Rightarrow> db')"

lemma reject_invalid_Inr:
  "reject_invalid dto run = Inr db \<longleftrightarrow> (\<exists>d x. dto = Some d \<and> run d = Inr (x, db))"
  by (auto simp: reject_invalid_def split: option.splits sum.splits)

text \<open>A row saved at the place it had.\<close>

lemma replaced_in_place:
  assumes "distinct_positions scope pos t" and "x \<in> set t" and "key y = key x" "scope y = scope x" "pos y = pos x"
  shows "distinct_positions scope pos (upsert key y t)"
  unfolding distinct_positions_def
proof (rule inj_onI)
  have other: "key r \<noteq> key x" "r \<in> set t" if "r \<in> set (upsert key y t)" "r \<noteq> y" for r
    using that assms(3) by (auto simp: in_upsert)
  have no: False if "r \<in> set (upsert key y t)" "r \<noteq> y" "(scope r, pos r) = (scope x, pos x)" for r
    using other [OF that(1,2)] assms(1,2) that(3) by (auto simp: distinct_positions_def inj_on_def)
  fix r s assume rs: "r \<in> set (upsert key y t)" "s \<in> set (upsert key y t)" "(scope r, pos r) = (scope s, pos s)"
  consider "r = y" "s = y" | "r = y" "s \<noteq> y" | "r \<noteq> y" "s = y" | "r \<noteq> y" "s \<noteq> y" by blast
  then show "r = s"
  proof cases
    case 4
    with other [of r] other [of s] rs assms(1) show ?thesis by (auto simp: distinct_positions_def inj_on_def)
  qed (use no [of r] no [of s] rs assms(4,5) in auto)
qed

subsection \<open>Groups\<close>

lemma upsert_image: "key ` set (upsert key x t) = insert (key x) (key ` set t)"
proof -
  have "set (map key (upsert key x t)) = insert (key x) (set (map key t))" unfolding upsert_keys by auto
  then show ?thesis by simp
qed

lemma groups_changed:
  assumes "groups_ok db" and "makeRoomForGroupSortOrder (Some (ag_sortOrder g)) ex (ld_groups db) = Inr t"
    and "ex = None \<or> ex = Some (ag_key g)"
  shows "groups_ok (db\<lparr>ld_groups := upsert ag_key g t\<rparr>)"
    and "ag_key ` set (upsert ag_key g t) = insert (ag_key g) (ag_key ` set (ld_groups db))"
proof -
  have keys: "map ag_key t = map ag_key (ld_groups db)" by (rule group_positions.keys_kept [OF assms(2)])
  then show "ag_key ` set (upsert ag_key g t) = insert (ag_key g) (ag_key ` set (ld_groups db))"
    by (metis upsert_image list.set_map)
  show "groups_ok (db\<lparr>ld_groups := upsert ag_key g t\<rparr>)"
    using group_positions.placed [OF assms(2) _ _ refl assms(3)] assms(1) upsert_distinct [of ag_key t g] keys
    by (simp add: groups_ok_def)
qed

text \<open>More groups and achievements keep what refers to them.\<close>

lemma achievements_ok_groups:
  "achievements_ok db \<Longrightarrow> ag_key ` set (ld_groups db) \<subseteq> ag_key ` set t \<Longrightarrow> achievements_ok (db\<lparr>ld_groups := t\<rparr>)"
  by (auto simp: achievements_ok_def)

lemma badges_ok_groups: "badges_ok (db\<lparr>ld_groups := t\<rparr>) = badges_ok db"
  by (simp add: badges_ok_def)

lemma badges_ok_achievements:
  "badges_ok db \<Longrightarrow> ac_id ` set (ld_achievements db) \<subseteq> ac_id ` set t \<Longrightarrow> badges_ok (db\<lparr>ld_achievements := t\<rparr>)"
  unfolding badges_ok_def by simp (meson subset_trans)

lemma createGroup_ok:
  assumes "config_ok db" and "createGroup dto db = Inr (g, db')"
  shows "config_ok db'"
proof -
  from assms(2) obtain t where t: "makeRoomForGroupSortOrder (Some (ag_sortOrder g)) None (ld_groups db) = Inr t"
    "db' = db\<lparr>ld_groups := upsert ag_key g t\<rparr>"
    by (auto simp: createGroup_def Let_def split: if_splits sum.splits)
  with groups_changed [OF _ t(1)] assms(1) show ?thesis
    by (auto simp: config_ok_def badges_ok_groups intro!: achievements_ok_groups)
qed

lemma updateGroup_ok:
  assumes "config_ok db" and "updateGroup k dto db = Inr (g', db')"
  shows "config_ok db'"
proof -
  from assms(2) obtain g t where g: "find_one (\<lambda>g. ag_key g = k) (ld_groups db) = Some g"
    and t: "(if is_defined (ug_sortOrder dto) \<and> nullish (ug_sortOrder dto) \<noteq> Some (ag_sortOrder g)
        then makeRoomForGroupSortOrder (nullish (ug_sortOrder dto)) (Some k) (ld_groups db) else Inr (ld_groups db)) = Inr t"
    and g': "ag_key g' = ag_key g" "ag_sortOrder g' = merged (ug_sortOrder dto) (ag_sortOrder g)"
    and null: "\<not> is_null (ug_sortOrder dto)" and db': "db' = db\<lparr>ld_groups := upsert ag_key g' t\<rparr>"
    unfolding updateGroup_def Let_def by (auto split: option.splits sum.splits if_splits)
  have k: "ag_key g = k" "g \<in> set (ld_groups db)" using find_one_Some [OF g] by auto
  have "groups_ok db' \<and> ag_key ` set (ld_groups db) \<subseteq> ag_key ` set (ld_groups db')"
  proof (cases "is_defined (ug_sortOrder dto) \<and> nullish (ug_sortOrder dto) \<noteq> Some (ag_sortOrder g)")
    case True
    then have "nullish (ug_sortOrder dto) = Some (ag_sortOrder g')" using null g'(2) by (cases "ug_sortOrder dto") auto
    with t True have "makeRoomForGroupSortOrder (Some (ag_sortOrder g')) (Some k) (ld_groups db) = Inr t" by simp
    with groups_changed [of db g' "Some k" t] assms(1) g'(1) k show ?thesis by (auto simp: config_ok_def db')
  next
    case False
    then have "ag_sortOrder g' = ag_sortOrder g" using g'(2) by (cases "ug_sortOrder dto") auto
    moreover have t': "t = ld_groups db" using t False by auto
    ultimately show ?thesis
      using assms(1) replaced_in_place [of "\<lambda>_. ()" ag_sortOrder "ld_groups db" g ag_key g'] k g'(1)
        upsert_distinct [of ag_key "ld_groups db" g'] upsert_image [of ag_key g' "ld_groups db"]
      by (auto simp: config_ok_def groups_ok_def db')
  qed
  with assms(1) show ?thesis
    unfolding config_ok_def db' by (auto simp: badges_ok_groups intro!: achievements_ok_groups)
qed

subsection \<open>Achievements\<close>

lemma assert_exist:
  "assertAchievementsExist ids label db = None \<longleftrightarrow> set ids \<subseteq> ac_id ` set (ld_achievements db)"
  by (auto simp: assertAchievementsExist_def Let_def filter_empty_conv)

text \<open>What a saved achievement must bring for the table to stay sound.\<close>

lemma save_achievement_ok:
  assumes ok: "config_ok db" and save: "save_achievement nulls a t db = Inr (a', db')"
    and rule: "isValidAchievementRuleShape (ac_rule a)" "set (collectAchievementSetIds (ac_rule a)) \<subseteq> ac_id ` set (ld_achievements db)"
    and pos: "distinct_positions ac_groupKey ac_sortOrder (upsert ac_id a t)"
    and t: "map ac_id t = map ac_id (ld_achievements db)"
      "(\<lambda>a. (ac_groupKey a, ac_rule a)) ` set t = (\<lambda>a. (ac_groupKey a, ac_rule a)) ` set (ld_achievements db)"
  shows "config_ok db'"
proof -
  have group: "ac_groupKey a \<in> ag_key ` set (ld_groups db)" and db': "db' = db\<lparr>ld_achievements := upsert ac_id a t\<rparr>"
    using save by (auto simp: save_achievement_def exists_row_def list_ex_iff split: if_splits intro: rev_image_eqI)
  have ids: "ac_id ` set (upsert ac_id a t) = insert (ac_id a) (ac_id ` set (ld_achievements db))"
    using t(1) by (metis upsert_image list.set_map)
  have old: "ac_groupKey r \<in> ag_key ` set (ld_groups db) \<and> isValidAchievementRuleShape (ac_rule r)
      \<and> set (collectAchievementSetIds (ac_rule r)) \<subseteq> ac_id ` set (ld_achievements db)" if "r \<in> set t" for r
  proof -
    from that t(2) obtain r' where "r' \<in> set (ld_achievements db)" "ac_groupKey r' = ac_groupKey r" "ac_rule r' = ac_rule r"
      by (metis (mono_tags, lifting) imageE image_eqI prod.inject)
    with ok show ?thesis by (metis config_ok_def achievements_ok_def)
  qed
  have new: "ac_groupKey r \<in> ag_key ` set (ld_groups db) \<and> isValidAchievementRuleShape (ac_rule r)
      \<and> set (collectAchievementSetIds (ac_rule r)) \<subseteq> ac_id ` set (upsert ac_id a t)" if "r \<in> set (upsert ac_id a t)" for r
  proof (cases "r = a")
    case True
    with group rule show ?thesis unfolding ids by auto
  next
    case False
    with that have "r \<in> set t" by (auto simp: in_upsert)
    with old show ?thesis unfolding ids by (meson subset_insertI2)
  qed
  have "distinct (map ac_id (upsert ac_id a t))"
    using upsert_distinct [of ac_id t a] t(1) ok by (simp add: config_ok_def achievements_ok_def)
  with new pos have "achievements_ok db'" by (simp add: achievements_ok_def db')
  moreover have "badges_ok db'" using ok ids unfolding db' by (intro badges_ok_achievements) (auto simp: config_ok_def)
  ultimately show ?thesis using ok by (simp add: config_ok_def groups_ok_def db')
qed

lemma achievement_room:
  assumes "makeRoomForAchievementSortOrder g (Some n) ex t = Inr t'"
  shows "map ac_id t' = map ac_id t"
    and "(\<lambda>a. (ac_groupKey a, ac_rule a)) ` set t' = (\<lambda>a. (ac_groupKey a, ac_rule a)) ` set t"
proof -
  show "map ac_id t' = map ac_id t" by (rule achievement_positions.keys_kept [OF assms])
  have "map (\<lambda>a. (ac_groupKey a, ac_rule a)) t' = map (\<lambda>a. (ac_groupKey a, ac_rule a)) t"
    unfolding achievement_positions.shifted [OF assms] by (simp add: comp_def if_distrib)
  from arg_cong [OF this, of set]
  show "(\<lambda>a. (ac_groupKey a, ac_rule a)) ` set t' = (\<lambda>a. (ac_groupKey a, ac_rule a)) ` set t" unfolding set_map .
qed

lemma createAchievement_ok:
  assumes ok: "config_ok db" and create: "createAchievement dto db = Inr (a', db')" and rule: "isValidAchievementRuleShape (ca_rule dto)"
  shows "config_ok db'"
proof -
  define a where "a = \<lparr>ac_id = ca_id dto, ac_name = ca_name dto, ac_description = field_or (ca_description dto) [],
    ac_groupKey = ca_groupKey dto, ac_sortOrder = ca_sortOrder dto, ac_rule = ca_rule dto,
    ac_imageUrl = nullish (ca_imageUrl dto), ac_active = field_or (ca_active dto) True\<rparr>"
  from create obtain t where
    refs: "assertAchievementsExist (collectAchievementSetIds (ca_rule dto)) ''rule.achievementIds'' db = None"
    and t: "makeRoomForAchievementSortOrder (ca_groupKey dto) (Some (ca_sortOrder dto)) None (ld_achievements db) = Inr t"
    and save: "save_achievement (is_null (ca_description dto)) a t db = Inr (a', db')"
    unfolding createAchievement_def a_def by (auto split: option.splits if_splits sum.splits)
  have a: "ac_groupKey a = ca_groupKey dto" "ac_sortOrder a = ca_sortOrder dto" "ac_rule a = ca_rule dto" by (simp_all add: a_def)
  have "distinct_positions ac_groupKey ac_sortOrder (upsert ac_id a t)"
    using achievement_positions.placed [OF t _ a(1,2)] ok by (simp add: config_ok_def achievements_ok_def)
  then show ?thesis
    using save_achievement_ok [OF ok save] achievement_room [OF t] rule refs a(3) by (simp add: assert_exist)
qed

text \<open>A field whose value is set, or whose old value is kept.\<close>

lemma merged_or: "\<not> is_null f \<Longrightarrow> merged f old = field_or f old"
  by (cases f) (simp_all add: field_or_def)

lemma updateAchievement_ok:
  assumes ok: "config_ok db" and update: "updateAchievement i dto db = Inr (a', db')"
    and rule: "\<And>r. xa_rule dto = Val r \<Longrightarrow> isValidAchievementRuleShape r"
  shows "config_ok db'"
proof -
  let ?nulls = "is_null (xa_name dto) \<or> is_null (xa_description dto) \<or> is_null (xa_groupKey dto) \<or>
    is_null (xa_sortOrder dto) \<or> is_null (xa_rule dto) \<or> is_null (xa_active dto)"
  let ?new = "\<lambda>a. a\<lparr>ac_name := merged (xa_name dto) (ac_name a), ac_description := merged (xa_description dto) (ac_description a),
    ac_groupKey := merged (xa_groupKey dto) (ac_groupKey a), ac_sortOrder := merged (xa_sortOrder dto) (ac_sortOrder a),
    ac_rule := merged (xa_rule dto) (ac_rule a), ac_imageUrl := merged_nullable (xa_imageUrl dto) (ac_imageUrl a),
    ac_active := merged (xa_active dto) (ac_active a)\<rparr>"
  from update obtain a t where
    refs: "(case xa_rule dto of Val r \<Rightarrow> assertAchievementsExist (collectAchievementSetIds r) ''rule.achievementIds'' db | _ \<Rightarrow> None) = None"
    and a: "find_one (\<lambda>a. ac_id a = i) (ld_achievements db) = Some a"
    and t: "(if field_or (xa_groupKey dto) (ac_groupKey a) \<noteq> ac_groupKey a \<or> field_or (xa_sortOrder dto) (ac_sortOrder a) \<noteq> ac_sortOrder a
      then makeRoomForAchievementSortOrder (field_or (xa_groupKey dto) (ac_groupKey a)) (Some (field_or (xa_sortOrder dto) (ac_sortOrder a)))
        (Some i) (ld_achievements db) else Inr (ld_achievements db)) = Inr t"
    and save: "save_achievement ?nulls (?new a) t db = Inr (a', db')"
    unfolding updateAchievement_def Let_def by (auto split: option.splits sum.splits)
  define b where "b = ?new a"
  note save = save [folded b_def]
  have i: "ac_id a = i" "a \<in> set (ld_achievements db)" using find_one_Some [OF a] by auto
  have "\<not> ?nulls" using save by (auto simp: save_achievement_def split: if_splits)
  then have b: "ac_id b = ac_id a" "ac_groupKey b = field_or (xa_groupKey dto) (ac_groupKey a)"
    "ac_sortOrder b = field_or (xa_sortOrder dto) (ac_sortOrder a)" "ac_rule b = merged (xa_rule dto) (ac_rule a)"
    by (simp_all add: b_def merged_or)
  have r: "isValidAchievementRuleShape (ac_rule b) \<and> set (collectAchievementSetIds (ac_rule b)) \<subseteq> ac_id ` set (ld_achievements db)"
    using ok i(2) refs rule b(4) by (cases "xa_rule dto") (auto simp: config_ok_def achievements_ok_def assert_exist)
  have ok': "distinct_positions ac_groupKey ac_sortOrder (ld_achievements db)" using ok by (simp add: config_ok_def achievements_ok_def)
  show ?thesis
  proof (cases "ac_groupKey b \<noteq> ac_groupKey a \<or> ac_sortOrder b \<noteq> ac_sortOrder a")
    case True
    with t b have room: "makeRoomForAchievementSortOrder (ac_groupKey b) (Some (ac_sortOrder b)) (Some i) (ld_achievements db) = Inr t" by simp
    have "distinct_positions ac_groupKey ac_sortOrder (upsert ac_id b t)"
      using achievement_positions.placed [OF room ok' refl refl] b(1) i(1) by simp
    then show ?thesis using save_achievement_ok [OF ok save] r achievement_room [OF room] by simp
  next
    case False
    with t b have "t = ld_achievements db" by simp
    moreover have "distinct_positions ac_groupKey ac_sortOrder (upsert ac_id b (ld_achievements db))"
      using replaced_in_place [OF ok' i(2), of ac_id b] b(1) False by simp
    ultimately show ?thesis using save_achievement_ok [OF ok save] r by simp
  qed
qed

subsection \<open>Badges\<close>

lemma save_badge_ok:
  assumes ok: "config_ok db" and save: "save_badge nulls b t db = Inr (b', db')"
    and b: "set (bc_requiredAchievementIds b) \<subseteq> ac_id ` set (ld_achievements db)" "1 \<le> bc_requiredAchievementCount b" "1 \<le> bc_rewardAmountKobo b"
    and pos: "distinct_positions (\<lambda>_. ()) bc_sortOrder (upsert bc_id b t)"
    and t: "map bc_id t = map bc_id (ld_badges db)"
      "(\<lambda>b. (bc_requiredAchievementIds b, bc_requiredAchievementCount b, bc_rewardAmountKobo b)) ` set t
        = (\<lambda>b. (bc_requiredAchievementIds b, bc_requiredAchievementCount b, bc_rewardAmountKobo b)) ` set (ld_badges db)"
  shows "config_ok db'"
proof -
  let ?p = "\<lambda>b. (bc_requiredAchievementIds b, bc_requiredAchievementCount b, bc_rewardAmountKobo b)"
  let ?ok = "\<lambda>b. set (bc_requiredAchievementIds b) \<subseteq> ac_id ` set (ld_achievements db)
      \<and> 1 \<le> bc_requiredAchievementCount b \<and> 1 \<le> bc_rewardAmountKobo b"
  have db': "db' = db\<lparr>ld_badges := upsert bc_id b t\<rparr>" using save by (auto simp: save_badge_def split: if_splits)
  have old: "?ok r" if "r \<in> set t" for r
  proof -
    have "?p r \<in> ?p ` set (ld_badges db)" using that t(2) by blast
    then obtain r' where "r' \<in> set (ld_badges db)" "?p r = ?p r'" by (rule imageE)
    moreover from this have "?ok r'" using ok by (simp add: config_ok_def badges_ok_def)
    ultimately show ?thesis by simp
  qed
  have "?ok r" if "r \<in> set (upsert bc_id b t)" for r
    using that old b by (auto simp: in_upsert)
  moreover have "distinct (map bc_id (upsert bc_id b t))"
    using upsert_distinct [of bc_id t b] t(1) ok by (simp add: config_ok_def badges_ok_def)
  ultimately have "badges_ok db'" using pos by (simp add: badges_ok_def db')
  then show ?thesis using ok by (simp add: config_ok_def groups_ok_def achievements_ok_def db')
qed

lemma badge_moved:
  "(let r = (if c then b\<lparr>bc_sortOrder := m\<rparr> else b) in (bc_requiredAchievementIds r, bc_requiredAchievementCount r, bc_rewardAmountKobo r))
   = (bc_requiredAchievementIds b, bc_requiredAchievementCount b, bc_rewardAmountKobo b)"
  by (cases c) simp_all

lemma badge_room:
  assumes "makeRoomForBadgeSortOrder (Some n) ex t = Inr t'"
  shows "map bc_id t' = map bc_id t"
    and "(\<lambda>b. (bc_requiredAchievementIds b, bc_requiredAchievementCount b, bc_rewardAmountKobo b)) ` set t'
        = (\<lambda>b. (bc_requiredAchievementIds b, bc_requiredAchievementCount b, bc_rewardAmountKobo b)) ` set t"
proof -
  show "map bc_id t' = map bc_id t" by (rule badge_positions.keys_kept [OF assms])
  let ?p = "\<lambda>b. (bc_requiredAchievementIds b, bc_requiredAchievementCount b, bc_rewardAmountKobo b)"
  have "map ?p t' = map ?p t"
    unfolding badge_positions.shifted [OF assms, of "()"] map_map comp_def by (rule map_cong [OF refl]) (rule badge_moved [unfolded Let_def])
  from arg_cong [OF this, of set] show "?p ` set t' = ?p ` set t" unfolding set_map .
qed

lemma createBadge_ok:
  assumes ok: "config_ok db" and create: "createBadge dto db = Inr (b', db')"
    and dto: "1 \<le> cb_requiredAchievementCount dto" "\<And>n. cb_rewardAmountKobo dto = Val n \<Longrightarrow> 1 \<le> n"
  shows "config_ok db'"
proof -
  define b where "b = \<lparr>bc_id = cb_id dto, bc_name = cb_name dto, bc_description = field_or (cb_description dto) [],
    bc_sortOrder = cb_sortOrder dto, bc_requiredAchievementCount = cb_requiredAchievementCount dto,
    bc_requiredAchievementIds = field_or (cb_requiredAchievementIds dto) [],
    bc_rewardAmountKobo = field_or (cb_rewardAmountKobo dto) 30000, bc_rewardCurrency = field_or (cb_rewardCurrency dto) ''NGN'',
    bc_imageUrl = nullish (cb_imageUrl dto), bc_active = field_or (cb_active dto) True\<rparr>"
  from create obtain t where
    refs: "assertAchievementsExist (field_or (cb_requiredAchievementIds dto) []) ''requiredAchievementIds'' db = None"
    and t: "makeRoomForBadgeSortOrder (Some (cb_sortOrder dto)) None (ld_badges db) = Inr t"
    and save: "save_badge (is_null (cb_description dto)) b t db = Inr (b', db')"
    unfolding createBadge_def b_def by (auto split: option.splits if_splits sum.splits)
  have b: "bc_sortOrder b = cb_sortOrder dto" "bc_requiredAchievementCount b = cb_requiredAchievementCount dto"
    "bc_requiredAchievementIds b = field_or (cb_requiredAchievementIds dto) []"
    by (simp_all add: b_def)
  have reward: "1 \<le> bc_rewardAmountKobo b"
    using dto(2) by (cases "cb_rewardAmountKobo dto") (auto simp: b_def field_or_def)
  have "distinct_positions (\<lambda>_. ()) bc_sortOrder (upsert bc_id b t)"
    using badge_positions.placed [OF t _ _ b(1)] ok by (simp add: config_ok_def badges_ok_def)
  then show ?thesis
    using save_badge_ok [OF ok save] badge_room [OF t] refs dto(1) b reward by (simp add: assert_exist)
qed

lemma updateBadge_ok:
  assumes ok: "config_ok db" and update: "updateBadge i dto db = Inr (b', db')"
    and dto: "\<And>n. xb_requiredAchievementCount dto = Val n \<Longrightarrow> 1 \<le> n" "\<And>n. xb_rewardAmountKobo dto = Val n \<Longrightarrow> 1 \<le> n"
  shows "config_ok db'"
proof -
  let ?nulls = "is_null (xb_name dto) \<or> is_null (xb_description dto) \<or> is_null (xb_sortOrder dto) \<or>
    is_null (xb_requiredAchievementCount dto) \<or> is_null (xb_rewardAmountKobo dto) \<or>
    is_null (xb_rewardCurrency dto) \<or> is_null (xb_active dto)"
  let ?new = "\<lambda>b. b\<lparr>bc_name := merged (xb_name dto) (bc_name b), bc_description := merged (xb_description dto) (bc_description b),
    bc_sortOrder := merged (xb_sortOrder dto) (bc_sortOrder b),
    bc_requiredAchievementCount := merged (xb_requiredAchievementCount dto) (bc_requiredAchievementCount b),
    bc_requiredAchievementIds := merged (xb_requiredAchievementIds dto) (bc_requiredAchievementIds b),
    bc_rewardAmountKobo := merged (xb_rewardAmountKobo dto) (bc_rewardAmountKobo b),
    bc_rewardCurrency := merged (xb_rewardCurrency dto) (bc_rewardCurrency b),
    bc_imageUrl := merged_nullable (xb_imageUrl dto) (bc_imageUrl b), bc_active := merged (xb_active dto) (bc_active b)\<rparr>"
  let ?moved = "\<lambda>a. is_defined (xb_sortOrder dto) \<and> nullish (xb_sortOrder dto) \<noteq> Some (bc_sortOrder a)"
  from update obtain a t where
    refs: "(case xb_requiredAchievementIds dto of Undefined \<Rightarrow> None | Null \<Rightarrow> Some NullIds
      | Val ids \<Rightarrow> assertAchievementsExist ids ''requiredAchievementIds'' db) = None"
    and a: "find_one (\<lambda>b. bc_id b = i) (ld_badges db) = Some a"
    and t: "(if ?moved a then makeRoomForBadgeSortOrder (nullish (xb_sortOrder dto)) (Some i) (ld_badges db) else Inr (ld_badges db)) = Inr t"
    and save: "save_badge ?nulls (?new a) t db = Inr (b', db')"
    unfolding updateBadge_def by (auto split: option.splits sum.splits)
  define b where "b = ?new a"
  note save = save [folded b_def]
  have i: "bc_id a = i" "a \<in> set (ld_badges db)" using find_one_Some [OF a] by auto
  have nn: "\<not> ?nulls" using save by (auto simp: save_badge_def split: if_splits)
  have b: "bc_id b = bc_id a" "bc_sortOrder b = merged (xb_sortOrder dto) (bc_sortOrder a)" by (simp_all add: b_def)
  have old: "set (bc_requiredAchievementIds a) \<subseteq> ac_id ` set (ld_achievements db)" "1 \<le> bc_requiredAchievementCount a" "1 \<le> bc_rewardAmountKobo a"
    using ok i(2) by (auto simp: config_ok_def badges_ok_def)
  have ids: "set (bc_requiredAchievementIds b) \<subseteq> ac_id ` set (ld_achievements db)"
    using old(1) refs by (cases "xb_requiredAchievementIds dto") (simp_all add: b_def assert_exist)
  have count: "1 \<le> bc_requiredAchievementCount b"
    using old(2) dto(1) by (cases "xb_requiredAchievementCount dto") (simp_all add: b_def)
  have reward: "1 \<le> bc_rewardAmountKobo b"
    using old(3) dto(2) by (cases "xb_rewardAmountKobo dto") (simp_all add: b_def)
  have ok': "distinct_positions (\<lambda>_. ()) bc_sortOrder (ld_badges db)" using ok by (simp add: config_ok_def badges_ok_def)
  show ?thesis
  proof (cases "?moved a")
    case True
    then have "nullish (xb_sortOrder dto) = Some (bc_sortOrder b)" using nn b(2) by (cases "xb_sortOrder dto") auto
    with t True have room: "makeRoomForBadgeSortOrder (Some (bc_sortOrder b)) (Some i) (ld_badges db) = Inr t" by simp
    have "distinct_positions (\<lambda>_. ()) bc_sortOrder (upsert bc_id b t)"
      using badge_positions.placed [OF room ok' _ refl] b(1) i(1) by simp
    then show ?thesis using save_badge_ok [OF ok save ids count reward] badge_room [OF room] by simp
  next
    case False
    then have "bc_sortOrder b = bc_sortOrder a" using b(2) by (cases "xb_sortOrder dto") auto
    then have "distinct_positions (\<lambda>_. ()) bc_sortOrder (upsert bc_id b (ld_badges db))"
      using replaced_in_place [OF ok' i(2), of bc_id b] b(1) by simp
    moreover have "t = ld_badges db" using t False by (simp split: if_splits)
    ultimately show ?thesis using save_badge_ok [OF ok save ids count reward] by simp
  qed
qed

subsection \<open>Requests\<close>

lemma opt_field_Val: "opt_field check kvs k = Some (Val x) \<Longrightarrow> \<exists>v. check v = Some x"
  by (auto simp: opt_field_def split: option.splits json.splits)

lemma required_Some: "required check kvs k = Some x \<Longrightarrow> \<exists>v. check v = Some x"
  by (auto simp: required_def Option.bind_eq_Some_conv)

lemma positive_int_pos: "positive_int v = Some n \<Longrightarrow> 1 \<le> n"
  by (auto simp: positive_int_def split: json.splits jsnum.splits if_splits)

lemma opt_positive: "opt_field positive_int kvs k = Some f \<Longrightarrow> f = Val n \<Longrightarrow> 1 \<le> n"
  by (auto dest!: opt_field_Val positive_int_pos)

lemma required_positive: "required positive_int kvs k = Some n \<Longrightarrow> 1 \<le> n"
  by (auto dest!: required_Some positive_int_pos)

lemma rule_shape_valid: "rule_shape v = Some r \<Longrightarrow> isValidAchievementRuleShape r"
  by (auto simp: rule_shape_def split: json.splits if_splits)

lemma achievement_dto_rules:
  "CreateAchievementConfigDto isUrl kvs = Some d \<Longrightarrow> isValidAchievementRuleShape (ca_rule d)"
  "UpdateAchievementConfigDto isUrl kvs = Some d' \<Longrightarrow> xa_rule d' = Val r \<Longrightarrow> isValidAchievementRuleShape r"
proof -
  assume "CreateAchievementConfigDto isUrl kvs = Some d"
  then have "required rule_shape kvs ''rule'' = Some (ca_rule d)"
    unfolding CreateAchievementConfigDto_def by (auto split: option.splits if_splits)
  then show "isValidAchievementRuleShape (ca_rule d)" by (auto dest!: required_Some rule_shape_valid)
next
  assume "UpdateAchievementConfigDto isUrl kvs = Some d'" "xa_rule d' = Val r"
  then have "opt_field rule_shape kvs ''rule'' = Some (Val r)"
    unfolding UpdateAchievementConfigDto_def by (auto split: option.splits if_splits)
  then show "isValidAchievementRuleShape r" by (auto dest!: opt_field_Val rule_shape_valid)
qed

lemma badge_dto_amounts:
  "CreateBadgeConfigDto isUrl kvs = Some d \<Longrightarrow> 1 \<le> cb_requiredAchievementCount d \<and> (\<forall>n. cb_rewardAmountKobo d = Val n \<longrightarrow> 1 \<le> n)"
  "UpdateBadgeConfigDto isUrl kvs = Some d' \<Longrightarrow>
     (\<forall>n. xb_requiredAchievementCount d' = Val n \<longrightarrow> 1 \<le> n) \<and> (\<forall>n. xb_rewardAmountKobo d' = Val n \<longrightarrow> 1 \<le> n)"
proof -
  assume "CreateBadgeConfigDto isUrl kvs = Some d"
  then have "required positive_int kvs ''requiredAchievementCount'' = Some (cb_requiredAchievementCount d)"
    "opt_field positive_int kvs ''rewardAmountKobo'' = Some (cb_rewardAmountKobo d)"
    unfolding CreateBadgeConfigDto_def by (auto split: option.splits if_splits)
  then show "1 \<le> cb_requiredAchievementCount d \<and> (\<forall>n. cb_rewardAmountKobo d = Val n \<longrightarrow> 1 \<le> n)"
    using required_positive opt_positive by blast
next
  assume "UpdateBadgeConfigDto isUrl kvs = Some d'"
  then have "opt_field positive_int kvs ''requiredAchievementCount'' = Some (xb_requiredAchievementCount d')"
    "opt_field positive_int kvs ''rewardAmountKobo'' = Some (xb_rewardAmountKobo d')"
    unfolding UpdateBadgeConfigDto_def by (auto split: option.splits if_splits)
  then show "(\<forall>n. xb_requiredAchievementCount d' = Val n \<longrightarrow> 1 \<le> n) \<and> (\<forall>n. xb_rewardAmountKobo d' = Val n \<longrightarrow> 1 \<le> n)"
    using opt_positive by blast
qed

lemma handle_admin_ok:
  assumes "config_ok db" and "handle_admin isUrl r db = Inr db'"
  shows "config_ok db'"
proof (cases r)
  case (PostGroup body)
  with assms createGroup_ok show ?thesis by (auto simp: reject_invalid_Inr)
next
  case (PatchGroup k body)
  with assms updateGroup_ok show ?thesis by (auto simp: reject_invalid_Inr)
next
  case (PostAchievement body)
  with assms createAchievement_ok achievement_dto_rules(1) show ?thesis by (fastforce simp: reject_invalid_Inr)
next
  case (PatchAchievement i body)
  with assms updateAchievement_ok achievement_dto_rules(2) show ?thesis by (fastforce simp: reject_invalid_Inr)
next
  case (PostBadge body)
  with assms createBadge_ok badge_dto_amounts(1) show ?thesis by (fastforce simp: reject_invalid_Inr)
next
  case (PatchBadge i body)
  with assms updateBadge_ok badge_dto_amounts(2) show ?thesis by (fastforce simp: reject_invalid_Inr)
qed

lemma admin_session_ok: "config_ok db \<Longrightarrow> config_ok (admin_session isUrl rs db)"
  by (induction rs arbitrary: db) (auto split: sum.split dest: handle_admin_ok)

section \<open>Properties\<close>

text \<open>A rule the shape check accepts is answered by the engine.\<close>

lemma valid_rule_answers: "isValidAchievementRuleShape j \<Longrightarrow> \<exists>b. evaluate j ctx = Inr b"
  using valid_shape_rule_of(1) [of j] evaluate_rule_of(1) [of j] by auto

lemma catalog_resolves:
  assumes "sql_orders od" and "set (bc_requiredAchievementIds b) \<subseteq> ac_id ` set (ld_achievements db)"
  shows "map ac_id (snd (toBadgeCatalogItem (by_group od (ld_achievements db)) b)) = bc_requiredAchievementIds b"
proof -
  let ?m = "\<lambda>i. map_of (rev (map (\<lambda>a. (ac_id a, a)) (by_group od (ld_achievements db)))) i"
  have "\<exists>a. ?m i = Some a \<and> ac_id a = i" if "i \<in> set (bc_requiredAchievementIds b)" for i
  proof -
    have "i \<in> fst ` set (rev (map (\<lambda>a. (ac_id a, a)) (by_group od (ld_achievements db))))"
      using that assms(2) sql_orders_set(1) [OF assms(1)] by (auto simp: image_image)
    then obtain a where a: "?m i = Some a" by (metis map_of_eq_None_iff not_None_eq)
    from map_of_SomeD [OF this] have "ac_id a = i" by auto
    with a show ?thesis by blast
  qed
  then have "map ac_id (List.map_filter ?m is) = is" if "set is \<subseteq> set (bc_requiredAchievementIds b)" for "is"
    using that by (induction "is") (force simp: List.map_filter_def)+
  then show ?thesis by (simp add: toBadgeCatalogItem_def)
qed

text \<open>
  C10. Whatever the admin API is sent, a sound configuration stays sound: keys are unique, no two groups,
  no two badges and no two achievements of a group share a position, every achievement has a group,
  every achievement a rule or a badge refers to exists, counts and rewards are positive. So the engine
  answers every stored rule, and the catalog shows every achievement a badge requires.
\<close>

theorem admin_session_sound:
  assumes "config_ok db" and "sql_orders od"
  shows "config_ok (admin_session isUrl rs db)
    \<and> list_all (\<lambda>a. \<not> isl (evaluate (ac_rule a) ctx)) (ld_achievements (admin_session isUrl rs db))
    \<and> list_all (\<lambda>(b, as). map ac_id as = bc_requiredAchievementIds b) (snd (snd (getCatalog by_sort od (admin_session isUrl rs db))))"
proof -
  let ?db = "admin_session isUrl rs db"
  have ok: "config_ok ?db" using assms(1) by (rule admin_session_ok)
  have "list_all (\<lambda>a. \<not> isl (evaluate (ac_rule a) ctx)) (ld_achievements ?db)"
    unfolding list_all_iff
  proof
    fix a assume "a \<in> set (ld_achievements ?db)"
    with ok have "isValidAchievementRuleShape (ac_rule a)" by (simp add: config_ok_def achievements_ok_def)
    then show "\<not> isl (evaluate (ac_rule a) ctx)" using valid_rule_answers [of "ac_rule a" ctx] by auto
  qed
  moreover have "list_all (\<lambda>(b, as). map ac_id as = bc_requiredAchievementIds b) (snd (snd (getCatalog by_sort od ?db)))"
    unfolding list_all_iff
  proof
    fix p assume "p \<in> set (snd (snd (getCatalog by_sort od ?db)))"
    then obtain b where b: "p = toBadgeCatalogItem (by_group od (ld_achievements ?db)) b" "b \<in> set (ld_badges ?db)"
      using sql_orders_set(2) [OF assms(2)] by (auto simp: getCatalog_def Let_def)
    with ok have "set (bc_requiredAchievementIds b) \<subseteq> ac_id ` set (ld_achievements ?db)" by (simp add: config_ok_def badges_ok_def)
    from catalog_resolves [OF assms(2) this] show "case p of (b, as) \<Rightarrow> map ac_id as = bc_requiredAchievementIds b"
      by (simp add: b(1) toBadgeCatalogItem_def)
  qed
  ultimately show ?thesis using ok by simp
qed

definition empty_loyalty :: loyalty_db where
  "empty_loyalty = \<lparr>ld_groups = [], ld_achievements = [], ld_badges = [], ld_projections = [], ld_stats = [],
     ld_user_achievements = [], ld_user_badges = [], ld_processed = [], ld_outbox = [], ld_draws = 0\<rparr>"

lemma seeded_groups_ok: "groups_ok (snd (seed empty_loyalty))"
  by code_simp

lemma seeded_achievements_ok: "achievements_ok (snd (seed empty_loyalty))"
  by code_simp

lemma seeded_badges_ok: "badges_ok (snd (seed empty_loyalty))"
  by code_simp

lemma seeded_ok: "config_ok (snd (seed empty_loyalty))"
  by (simp add: config_ok_def seeded_groups_ok seeded_achievements_ok seeded_badges_ok)

definition elite_request :: admin_request where
  "elite_request = PostBadge [(''id'', JStr ''bdg_vip''), (''name'', JStr ''Vip''), (''sortOrder'', JNum (Fin 1)),
     (''requiredAchievementCount'', JNum (Fin 1)), (''requiredAchievementIds'', JArr [JStr ''ach_big_spender''])]"

theorem admin_session_sound_witness:
  "config_ok (admin_session (\<lambda>_. True) [elite_request] (snd (seed empty_loyalty)))
   \<and> map (\<lambda>b. (bc_id b, bc_sortOrder b)) (ld_badges (admin_session (\<lambda>_. True) [elite_request] (snd (seed empty_loyalty))))
     = [(''bdg_beginner'', 2), (''bdg_intermediate'', 3), (''bdg_advanced'', 4), (''bdg_elite'', 5), (''bdg_vip'', 1)]"
proof
  show "config_ok (admin_session (\<lambda>_. True) [elite_request] (snd (seed empty_loyalty)))"
    using admin_session_sound [OF seeded_ok sample_orders_ok(1)] by blast
  show "map (\<lambda>b. (bc_id b, bc_sortOrder b)) (ld_badges (admin_session (\<lambda>_. True) [elite_request] (snd (seed empty_loyalty))))
     = [(''bdg_beginner'', 2), (''bdg_intermediate'', 3), (''bdg_advanced'', 4), (''bdg_elite'', 5), (''bdg_vip'', 1)]"
    by code_simp
qed

text \<open>
  C26. A badge created at a position is inserted there: it comes before exactly the badges that were at
  this position or later, and the order of the others does not change.
\<close>

theorem badge_inserted_at_position:
  assumes "createBadge dto db = Inr (b, db')" and "x \<in> set (ld_badges db)" and "y \<in> set (ld_badges db)"
  shows "\<exists>x' \<in> set (ld_badges db'). \<exists>y' \<in> set (ld_badges db'). bc_id x' = bc_id x \<and> bc_id y' = bc_id y
    \<and> (bc_sortOrder x' < bc_sortOrder y' \<longleftrightarrow> bc_sortOrder x < bc_sortOrder y)
    \<and> (bc_sortOrder b < bc_sortOrder x' \<longleftrightarrow> cb_sortOrder dto \<le> bc_sortOrder x) \<and> bc_sortOrder b = cb_sortOrder dto"
proof -
  from assms(1) obtain t where new: "\<not> exists_row (\<lambda>b. bc_id b = cb_id dto) (ld_badges db)"
    and t: "makeRoomForBadgeSortOrder (Some (cb_sortOrder dto)) None (ld_badges db) = Inr t"
    and b: "bc_sortOrder b = cb_sortOrder dto" "bc_id b = cb_id dto" "ld_badges db' = upsert bc_id b t"
    unfolding createBadge_def by (auto simp: save_badge_def split: option.splits if_splits sum.splits)
  define f where "f r = (if cb_sortOrder dto \<le> bc_sortOrder r then r\<lparr>bc_sortOrder := bc_sortOrder r + 1\<rparr> else r)" for r :: badge_config
  have "t = map f (ld_badges db)"
    using badge_positions.shifted [OF t, of "()"] by (simp add: f_def keeps_place_def truthy_def)
  moreover have f: "bc_id (f r) = bc_id r" "bc_sortOrder (f r) = (if cb_sortOrder dto \<le> bc_sortOrder r then bc_sortOrder r + 1 else bc_sortOrder r)" for r
    by (simp_all add: f_def)
  ultimately have "f r \<in> set (ld_badges db')" if "r \<in> set (ld_badges db)" for r
    using that new b by (auto simp: in_upsert exists_row_def list_ex_iff)
  then show ?thesis
    using assms(2,3) b(1) f by (intro bexI [of _ "f x"] bexI [of _ "f y"]) auto
qed

definition vip_dto :: create_badge_dto where
  "vip_dto = \<lparr>cb_id = ''bdg_vip'', cb_name = ''Vip'', cb_description = Undefined, cb_sortOrder = 2,
     cb_requiredAchievementCount = 1, cb_requiredAchievementIds = Undefined, cb_rewardAmountKobo = Undefined,
     cb_rewardCurrency = Undefined, cb_imageUrl = Undefined, cb_active = Undefined\<rparr>"

lemma vip_created: "\<exists>b db'. createBadge vip_dto (snd (seed empty_loyalty)) = Inr (b, db')"
proof -
  have "\<not> isl (createBadge vip_dto (snd (seed empty_loyalty)))" by code_simp
  then show ?thesis by (cases "createBadge vip_dto (snd (seed empty_loyalty))") auto
qed

theorem badge_inserted_at_position_witness:
  "\<exists>b db'. createBadge vip_dto (snd (seed empty_loyalty)) = Inr (b, db')
     \<and> (\<exists>x' \<in> set (ld_badges db'). \<exists>y' \<in> set (ld_badges db'). bc_id x' = ''bdg_beginner'' \<and> bc_id y' = ''bdg_intermediate''
          \<and> bc_sortOrder x' < bc_sortOrder y' \<and> \<not> bc_sortOrder b < bc_sortOrder x')"
proof -
  let ?db = "snd (seed empty_loyalty)"
  from vip_created obtain b db' where c: "createBadge vip_dto ?db = Inr (b, db')" by blast
  have rows: "DEFAULT_BADGES ! 0 \<in> set (ld_badges ?db)" "DEFAULT_BADGES ! 1 \<in> set (ld_badges ?db)"
    by (simp_all add: seed_def empty_loyalty_def missing_rows_def DEFAULT_BADGES_def DEFAULT_ACHIEVEMENTS_def)
  have "bc_id (DEFAULT_BADGES ! 0) = ''bdg_beginner''" "bc_id (DEFAULT_BADGES ! 1) = ''bdg_intermediate''"
    "bc_sortOrder (DEFAULT_BADGES ! 0) = 1" "bc_sortOrder (DEFAULT_BADGES ! 1) = 2" "cb_sortOrder vip_dto = 2"
    by (simp_all add: DEFAULT_BADGES_def vip_dto_def)
  with badge_inserted_at_position [OF c rows] show ?thesis
    by (intro exI [of _ b] exI [of _ db'] conjI c) fastforce
qed

text \<open>
  Seeding never changes or removes a row, and a second start inserts nothing.
\<close>

theorem seed_idempotent:
  assumes "seed db = (None, db')"
  shows "seed db' = (None, db') \<and> (\<exists>gs as bs. ld_groups db' = ld_groups db @ gs \<and> ld_achievements db' = ld_achievements db @ as
    \<and> ld_badges db' = ld_badges db @ bs)"
proof -
  have none: "missing_rows key d (t @ missing_rows key d t) = []" for key :: "'r \<Rightarrow> string" and d t
    by (auto simp: missing_rows_def filter_empty_conv)
  from assms have db': "db' = db\<lparr>ld_groups := ld_groups db @ missing_rows ag_key DEFAULT_ACHIEVEMENT_GROUPS (ld_groups db),
      ld_achievements := ld_achievements db @ missing_rows ac_id DEFAULT_ACHIEVEMENTS (ld_achievements db),
      ld_badges := ld_badges db @ missing_rows bc_id DEFAULT_BADGES (ld_badges db)\<rparr>"
    unfolding seed_def Let_def by (auto split: if_splits)
  then show ?thesis by (simp add: seed_def none)
qed

theorem seed_idempotent_witness: "seed (snd (seed empty_loyalty)) = (None, snd (seed empty_loyalty))"
proof -
  have "fst (seed empty_loyalty) = None" by code_simp
  then have "seed empty_loyalty = (None, snd (seed empty_loyalty))" by (metis prod.collapse)
  from seed_idempotent [OF this] show ?thesis by simp
qed

text \<open>
  The \<open>active\<close> filter of the lists cannot ask for inactive entries: the text of the query is
  converted by \<open>Boolean(...)\<close>, so \<open>active=false\<close>, like every non-empty value, lists the active ones.
\<close>

theorem active_filter_only_true:
  assumes "ListConfigQueryDto [(''active'', value)] = Some q" and "value \<noteq> []"
  shows "cq_active q = Some True \<and> (orders (\<lambda>a b. bc_sortOrder a \<le> bc_sortOrder b) (by_badge_sort od) \<longrightarrow>
    list_all bc_active (fst (listBadges od q db)))"
proof -
  have q: "cq_active q = Some True" using assms by (auto simp: ListConfigQueryDto_def ListAchievementConfigQueryDto_def opt_param_def)
  have "bc_active b" if "orders (\<lambda>a b. bc_sortOrder a \<le> bc_sortOrder b) (by_badge_sort od)" "b \<in> set (fst (listBadges od q db))" for b
  proof -
    from that(2) have "b \<in> set (by_badge_sort od (filter (buildBadgeWhere q) (ld_badges db)))"
      by (auto simp: listBadges_def paginate_def skip_take_def Let_def dest: in_set_takeD in_set_dropD)
    with orders_set [OF that(1)] q show ?thesis by (auto simp: buildBadgeWhere_def)
  qed
  with q show ?thesis by (auto simp: list_all_iff)
qed

theorem active_filter_only_true_witness:
  "map_option cq_active (ListConfigQueryDto [(''active'', ''false'')]) = Some (Some True)"
proof -
  obtain q where q: "ListConfigQueryDto [(''active'', ''false'')] = Some q"
    by (simp add: ListConfigQueryDto_def ListAchievementConfigQueryDto_def opt_param_def)
  with active_filter_only_true [OF q] show ?thesis by simp
qed

end
