(* ===== verification/Default_Catalog.thy ===== *)
theory Default_Catalog
  imports Loyalty_Properties Admin_Properties
begin

text \<open>
  What the configuration that the loyalty service seeds on its first start means to a customer:
  the achievements and badges as thresholds on the number of purchases and the amount spent.
\<close>

definition default_achievement_ids :: "int \<Rightarrow> int \<Rightarrow> string set" where
  "default_achievement_ids n m =
     {i. (i = ''ach_first_purchase'' \<and> 1 \<le> n) \<or> (i = ''ach_5_purchases'' \<and> 5 \<le> n) \<or> (i = ''ach_10_purchases'' \<and> 10 \<le> n)
       \<or> (i = ''ach_big_spender'' \<and> 10000000 \<le> m) \<or> (i = ''ach_loyal_shopper'' \<and> 5 \<le> n \<and> 2500000 \<le> m)
       \<or> (i = ''ach_power_customer'' \<and> (10 \<le> n \<and> 2500000 \<le> m \<or> 5 \<le> n \<and> 10000000 \<le> m))}"

definition default_badge_ids :: "int \<Rightarrow> int \<Rightarrow> string set" where
  "default_badge_ids n m =
     {i. (i = ''bdg_beginner'' \<and> 1 \<le> n) \<or> (i = ''bdg_intermediate'' \<and> 5 \<le> n \<and> 2500000 \<le> m)
       \<or> (i = ''bdg_advanced'' \<and> 10 \<le> n \<and> 10000000 \<le> m) \<or> (i = ''bdg_elite'' \<and> 10 \<le> n \<and> 10000000 \<le> m)}"

lemma evaluate_rule_json: "wf_rule r \<Longrightarrow> evaluate (rule_json r) ctx = Inr (meets r ctx)"
  using rule_of_json evaluate_rule_of(1) by blast

definition default_rules :: "(string \<times> achievement_rule) list" where
  "default_rules =
     [(''ach_first_purchase'', CountRule 1), (''ach_5_purchases'', CountRule 5), (''ach_10_purchases'', CountRule 10),
      (''ach_big_spender'', SumRule 10000000),
      (''ach_loyal_shopper'', CombinationRule [CountRule 5, SumRule 2500000, AchievementSetRule [''ach_first_purchase'', ''ach_5_purchases''] None]),
      (''ach_power_customer'', AchievementSetRule [''ach_first_purchase'', ''ach_5_purchases'', ''ach_10_purchases'', ''ach_big_spender'',
         ''ach_loyal_shopper''] (Some 4))]"

lemma default_rules_ok: "map (\<lambda>a. (ac_id a, ac_rule a)) DEFAULT_ACHIEVEMENTS = map (\<lambda>(i, r). (i, rule_json r)) default_rules"
    "list_all (\<lambda>(i, r). wf_rule r) default_rules" "list_all ac_active DEFAULT_ACHIEVEMENTS" "distinct (map ac_id DEFAULT_ACHIEVEMENTS)"
  by (simp_all add: DEFAULT_ACHIEVEMENTS_def default_rules_def del: rule_json.simps)

lemma default_step:
  "unlock_step stats (set DEFAULT_ACHIEVEMENTS) E S = E \<union> {i. list_ex (\<lambda>(j, r). i = j \<and> meets r (stats_context stats S)) default_rules}"
proof -
  have "{ac_id a |a. a \<in> set DEFAULT_ACHIEVEMENTS \<and> evaluate (ac_rule a) (stats_context stats S) = Inr True} =
      fst ` {p \<in> set (map (\<lambda>a. (ac_id a, ac_rule a)) DEFAULT_ACHIEVEMENTS). evaluate (snd p) (stats_context stats S) = Inr True}"
    by force
  also have "\<dots> = {i. list_ex (\<lambda>(j, r). i = j \<and> meets r (stats_context stats S)) default_rules}"
    unfolding default_rules_ok(1) using default_rules_ok(2) by (force simp: list_ex_iff list_all_iff evaluate_rule_json)
  finally show ?thesis by (simp add: unlock_step_def)
qed

lemma default_meets:
  "{i. list_ex (\<lambda>(j, r). i = j \<and> meets r (stats_context stats S)) default_rules} =
   {i. (i = ''ach_first_purchase'' \<and> 1 \<le> st_purchaseCount stats) \<or> (i = ''ach_5_purchases'' \<and> 5 \<le> st_purchaseCount stats)
     \<or> (i = ''ach_10_purchases'' \<and> 10 \<le> st_purchaseCount stats) \<or> (i = ''ach_big_spender'' \<and> 10000000 \<le> st_totalSpendKobo stats)
     \<or> (i = ''ach_loyal_shopper'' \<and> 5 \<le> st_purchaseCount stats \<and> 2500000 \<le> st_totalSpendKobo stats
          \<and> ''ach_first_purchase'' \<in> S \<and> ''ach_5_purchases'' \<in> S)
     \<or> (i = ''ach_power_customer'' \<and> 4 \<le> length (filter (\<lambda>i. i \<in> S)
            [''ach_first_purchase'', ''ach_5_purchases'', ''ach_10_purchases'', ''ach_big_spender'', ''ach_loyal_shopper'']))}"
proof -
  have num: "(1 :: rat) \<le> of_int x \<longleftrightarrow> 1 \<le> x" "(numeral w :: rat) \<le> of_int x \<longleftrightarrow> numeral w \<le> x" for x w
    by (metis of_int_1 of_int_le_iff) (metis of_int_numeral of_int_le_iff)
  have four: "(4 :: rat) \<le> of_nat k \<longleftrightarrow> 4 \<le> k" for k by (metis of_nat_numeral of_nat_le_iff)
  show ?thesis
    by (rule Collect_cong) (simp add: default_rules_def stats_context_def num four Let_def del: filter.simps, auto)
qed

lemma default_closed:
  assumes "E \<subseteq> default_achievement_ids (st_purchaseCount stats) (st_totalSpendKobo stats)"
  shows "earned stats (set DEFAULT_ACHIEVEMENTS) E \<subseteq> default_achievement_ids (st_purchaseCount stats) (st_totalSpendKobo stats)"
proof (rule earned_least)
  show "unlock_step stats (set DEFAULT_ACHIEVEMENTS) E (default_achievement_ids (st_purchaseCount stats) (st_totalSpendKobo stats))
      \<subseteq> default_achievement_ids (st_purchaseCount stats) (st_totalSpendKobo stats)"
    unfolding default_step default_meets using assms by (auto simp: default_achievement_ids_def split: if_splits)
qed

lemma default_reached:
  "default_achievement_ids (st_purchaseCount stats) (st_totalSpendKobo stats) \<subseteq> earned stats (set DEFAULT_ACHIEVEMENTS) E"
proof -
  let ?X = "earned stats (set DEFAULT_ACHIEVEMENTS) E"
  have rule: "i \<in> ?X" if "case map_of default_rules i of Some r \<Rightarrow> meets r (stats_context stats ?X) | None \<Rightarrow> False" for i
    using equalityD2 [OF earned_unfold [of stats "set DEFAULT_ACHIEVEMENTS" E, unfolded default_step]] that
    by (auto simp: list_ex_iff split: option.splits dest!: map_of_SomeD)
  have num: "(1 :: rat) \<le> of_int x \<longleftrightarrow> 1 \<le> x" "(numeral w :: rat) \<le> of_int x \<longleftrightarrow> numeral w \<le> x" for x w
    by (metis of_int_1 of_int_le_iff) (metis of_int_numeral of_int_le_iff)
  have base: "1 \<le> st_purchaseCount stats \<Longrightarrow> ''ach_first_purchase'' \<in> ?X" "5 \<le> st_purchaseCount stats \<Longrightarrow> ''ach_5_purchases'' \<in> ?X"
    "10 \<le> st_purchaseCount stats \<Longrightarrow> ''ach_10_purchases'' \<in> ?X" "10000000 \<le> st_totalSpendKobo stats \<Longrightarrow> ''ach_big_spender'' \<in> ?X"
    by (rule rule; simp add: default_rules_def stats_context_def num)+
  then have loyal: "5 \<le> st_purchaseCount stats \<Longrightarrow> 2500000 \<le> st_totalSpendKobo stats \<Longrightarrow> ''ach_loyal_shopper'' \<in> ?X"
    by (intro rule) (auto simp: default_rules_def stats_context_def num)
  have "''ach_power_customer'' \<in> ?X" if "10 \<le> st_purchaseCount stats \<and> 2500000 \<le> st_totalSpendKobo stats
      \<or> 5 \<le> st_purchaseCount stats \<and> 10000000 \<le> st_totalSpendKobo stats"
    by (rule rule) (use that base loyal in \<open>auto simp: default_rules_def stats_context_def\<close>)
  with base loyal show ?thesis by (auto simp: default_achievement_ids_def)
qed

lemma default_badges_ok: "distinct (map bc_id DEFAULT_BADGES)" "list_all bc_active DEFAULT_BADGES"
  "list_all (\<lambda>b. bc_requiredAchievementCount b = int (length (bc_requiredAchievementIds b)) \<and> distinct (bc_requiredAchievementIds b)) DEFAULT_BADGES"
  by (simp_all add: DEFAULT_BADGES_def)

lemma required_count_follows:
  assumes "set ids \<subseteq> ua_achievementId ` set rows" and "distinct ids"
  shows "length ids \<le> length rows"
  using card_mono [OF _ assms(1)] card_image_le [of "set rows" ua_achievementId] card_length [of rows] distinct_card [OF assms(2)]
  by simp

lemma default_badge_meets:
  assumes "b \<in> set DEFAULT_BADGES" and "ua_achievementId ` set rows = S"
  shows "meetsBadgeRequirement b (int (length rows)) S \<longleftrightarrow> set (bc_requiredAchievementIds b) \<subseteq> S"
  using assms default_badges_ok(3) required_count_follows [of "bc_requiredAchievementIds b" rows]
  by (auto simp: meetsBadgeRequirement_def list_all_iff)

lemma default_ids_mem:
  "''ach_first_purchase'' \<in> default_achievement_ids n m \<longleftrightarrow> 1 \<le> n" "''ach_5_purchases'' \<in> default_achievement_ids n m \<longleftrightarrow> 5 \<le> n"
  "''ach_10_purchases'' \<in> default_achievement_ids n m \<longleftrightarrow> 10 \<le> n" "''ach_big_spender'' \<in> default_achievement_ids n m \<longleftrightarrow> 10000000 \<le> m"
  "''ach_loyal_shopper'' \<in> default_achievement_ids n m \<longleftrightarrow> 5 \<le> n \<and> 2500000 \<le> m"
  "''ach_power_customer'' \<in> default_achievement_ids n m \<longleftrightarrow> 10 \<le> n \<and> 2500000 \<le> m \<or> 5 \<le> n \<and> 10000000 \<le> m"
  by (simp_all add: default_achievement_ids_def)

lemma default_badge_mem:
  "''bdg_beginner'' \<in> default_badge_ids n m \<longleftrightarrow> 1 \<le> n" "''bdg_intermediate'' \<in> default_badge_ids n m \<longleftrightarrow> 5 \<le> n \<and> 2500000 \<le> m"
  "''bdg_advanced'' \<in> default_badge_ids n m \<longleftrightarrow> 10 \<le> n \<and> 10000000 \<le> m" "''bdg_elite'' \<in> default_badge_ids n m \<longleftrightarrow> 10 \<le> n \<and> 10000000 \<le> m"
  by (simp_all add: default_badge_ids_def)

lemma default_badge_thresholds:
  "list_all (\<lambda>b. set (bc_requiredAchievementIds b) \<subseteq> default_achievement_ids n m \<longleftrightarrow> bc_id b \<in> default_badge_ids n m) DEFAULT_BADGES"
  by (simp add: DEFAULT_BADGES_def default_ids_mem default_badge_mem) linarith

lemma default_badge_ids_known: "default_badge_ids n m \<subseteq> bc_id ` set DEFAULT_BADGES"
  by (simp add: DEFAULT_BADGES_def default_badge_ids_def) blast

lemma transaction_badge_ids:
  assumes "sql_orders od" and "distinct (map ac_id (ld_achievements db))"
    and "purchase_transaction rnd od now event db = Inr (ids, db')"
    and "fresh_draws rnd (ld_draws db) (ld_draws db') db"
  shows "badge_ids (pc_userId (payload event)) db' \<subseteq> badge_ids (pc_userId (payload event)) db \<union> bc_id ` set (ld_badges db)"
proof (rule transaction_rows [OF assms])
  let ?u = "pc_userId (payload event)"
  fix cs :: "achievement_config list" and bs :: "badge_config list"
  assume db': "db' = rows_added rnd now event cs bs db"
    and bs: "bs = due_badges od ?u (db\<lparr>ld_user_achievements := ld_user_achievements db @ unlock_rows rnd now ?u (ld_draws db) cs\<rparr>)"
  have "set bs \<subseteq> set (ld_badges db)"
    unfolding bs due_badges_def set_filter sql_orders_set(2) [OF assms(1)] by (auto simp: active_badges_def)
  then show ?thesis unfolding db' rows_added_badges(1) [OF refl] by blast
qed

lemma default_holdings:
  assumes "sql_orders od" and "ld_achievements db = DEFAULT_ACHIEVEMENTS" and "ld_badges db = DEFAULT_BADGES"
    and "purchase_transaction rnd od now event db = Inr (ids, db')"
    and "fresh_draws rnd (ld_draws db) (ld_draws db') db"
    and "n = st_purchaseCount (after_counting event db)" and "m = st_totalSpendKobo (after_counting event db)"
    and "achievement_ids (pc_userId (payload event)) db \<subseteq> default_achievement_ids n m"
    and "badge_ids (pc_userId (payload event)) db \<subseteq> default_badge_ids n m"
  shows "achievement_ids (pc_userId (payload event)) db' = default_achievement_ids n m
    \<and> badge_ids (pc_userId (payload event)) db' = default_badge_ids n m"
proof -
  let ?u = "pc_userId (payload event)"
  have active: "active_achievements db = DEFAULT_ACHIEVEMENTS"
    using default_rules_ok(3) by (simp add: active_achievements_def assms(2) filter_id_conv list_all_iff)
  have pk: "distinct (map ac_id (ld_achievements db))" "distinct (map bc_id (ld_badges db))"
    using default_rules_ok(4) default_badges_ok(1) by (simp_all add: assms(2,3))
  have ach: "achievement_ids ?u db' = default_achievement_ids n m"
    using transaction_achievements(1) [OF assms(1) pk(1) assms(4,5)] default_reached default_closed assms(8)
    unfolding active assms(6,7) by (metis subset_antisym)
  have rows: "ua_achievementId ` set (achievements_of ?u db') = default_achievement_ids n m"
    using ach by (simp add: achievement_ids_def)
  have iff: "bc_id b \<in> badge_ids ?u db' \<longleftrightarrow> bc_id b \<in> badge_ids ?u db \<or> set (bc_requiredAchievementIds b) \<subseteq> default_achievement_ids n m"
    if "b \<in> set DEFAULT_BADGES" for b
    using transaction_badges [OF assms(1) pk(1) assms(4,5) pk(2), of b] default_badge_meets [OF that rows] that default_badges_ok(2)
    by (simp add: assms(3) ach list_all_iff)
  have "badge_ids ?u db' \<subseteq> badge_ids ?u db \<union> bc_id ` set DEFAULT_BADGES"
    using transaction_badge_ids [OF assms(1) pk(1) assms(4,5)] by (simp add: assms(3))
  then have "badge_ids ?u db' \<subseteq> bc_id ` set DEFAULT_BADGES" using assms(9) default_badge_ids_known by blast
  moreover have "bc_id b \<in> badge_ids ?u db' \<longleftrightarrow> bc_id b \<in> default_badge_ids n m" if "b \<in> set DEFAULT_BADGES" for b
    using iff [OF that] that default_badge_thresholds assms(9) by (auto simp: list_all_iff)
  ultimately have "badge_ids ?u db' = default_badge_ids n m" using default_badge_ids_known by blast
  with ach show ?thesis ..
qed

text \<open>
  C18. The seeded programme, as the customer sees it: when the configuration is the default one and the user
  holds nothing the counters do not justify, then after a purchase that brings the counters to \<open>n\<close>
  purchases and \<open>m\<close> kobo the user holds exactly the achievements and badges of these thresholds: Beginner
  from the first purchase on, Intermediate with 5 purchases and 25,000 naira, Advanced and Elite with 10
  purchases and 100,000 naira.
\<close>

theorem default_programme:
  assumes "sql_orders od" and "ld_achievements db = DEFAULT_ACHIEVEMENTS" and "ld_badges db = DEFAULT_BADGES"
    and "purchase_transaction rnd od now event db = Inr (ids, db')"
    and "fresh_draws rnd (ld_draws db) (ld_draws db') db"
    and "n = st_purchaseCount (after_counting event db)" and "m = st_totalSpendKobo (after_counting event db)"
    and "achievement_ids (pc_userId (payload event)) db \<subseteq> default_achievement_ids n m"
    and "badge_ids (pc_userId (payload event)) db \<subseteq> default_badge_ids n m"
  shows "achievement_ids (pc_userId (payload event)) db' = default_achievement_ids n m
    \<and> badge_ids (pc_userId (payload event)) db' = default_badge_ids n m"
  using assms by (rule default_holdings)

definition seeded :: loyalty_db where
  "seeded = snd (seed empty_loyalty)"

lemma seeded_tables:
  "ld_achievements seeded = DEFAULT_ACHIEVEMENTS" "ld_badges seeded = DEFAULT_BADGES" "ld_user_achievements seeded = []"
  "ld_user_badges seeded = []" "ld_outbox seeded = []" "ld_stats seeded = []" "ld_draws seeded = 0"
  by (simp_all add: seeded_def seed_def empty_loyalty_def missing_rows_def list_ex_iff Let_def)

lemma seeded_counts:
  "st_purchaseCount (after_counting (sample_purchase ''evt_1'' 500000) seeded) = 1"
  "st_totalSpendKobo (after_counting (sample_purchase ''evt_1'' 500000) seeded) = 500000"
  by (simp_all add: after_counting_def count_purchase_def stats_of_def sample_purchase_def seeded_tables find_one_def)

lemma seeded_fresh: "fresh_draws sample_rnd 0 n seeded"
  using sample_fresh [of n] by (simp add: fresh_draws_def seeded_tables)

lemma seeded_runs: "\<exists>ids db'. purchase_transaction sample_rnd od 9 (sample_purchase ''evt_1'' 500000) seeded = Inr (ids, db')"
  using seeded_counts by (simp add: purchase_transaction_def after_counting_def Let_def is_int4_def split: prod.splits)

theorem default_programme_witness:
  "\<exists>ids db'. purchase_transaction sample_rnd sample_orders 9 (sample_purchase ''evt_1'' 500000) seeded = Inr (ids, db')
     \<and> achievement_ids ''usr_1'' db' = {''ach_first_purchase''} \<and> badge_ids ''usr_1'' db' = {''bdg_beginner''}"
proof -
  obtain ids db' where tx: "purchase_transaction sample_rnd sample_orders 9 (sample_purchase ''evt_1'' 500000) seeded = Inr (ids, db')"
    using seeded_runs by blast
  have fresh: "fresh_draws sample_rnd (ld_draws seeded) (ld_draws db') seeded"
    unfolding seeded_tables(7) by (rule seeded_fresh)
  have none: "achievement_ids u seeded \<subseteq> A" "badge_ids u seeded \<subseteq> B" for u A B
    by (simp_all add: achievement_ids_def achievements_of_def badge_ids_def badges_of_def seeded_tables)
  note fact = default_programme [OF sample_orders_ok(1) seeded_tables(1,2) tx fresh seeded_counts [symmetric] none]
  have "default_achievement_ids 1 500000 = {''ach_first_purchase''}" "default_badge_ids 1 500000 = {''bdg_beginner''}"
    by (simp_all add: default_achievement_ids_def default_badge_ids_def)
  with fact tx show ?thesis unfolding sample_user by simp
qed

end
