(* ===== verification/Cashback_Retries.thy ===== *)
theory Cashback_Retries
  imports Cashback_Properties
begin

text \<open>
  Webhooks, retries and the transaction list: the signature check, what a webhook changes and how often,
  the scan for retries, the retry delays, and the runs in which the saved row is not the truth.
\<close>

section \<open>Webhooks\<close>

definition signed :: "(string \<Rightarrow> string \<Rightarrow> string) \<Rightarrow> string option \<Rightarrow> string option \<Rightarrow> string option \<Rightarrow> bool" where
  "signed hmac secret rawBody signature \<longleftrightarrow>
     truthy secret \<and> rawBody \<noteq> None \<and> truthy signature \<and> from_hex (the signature) = hmac (the secret) (the rawBody)"

lemma verifySignature_signed: "verifySignature hmac secret raw sig = None \<longleftrightarrow> signed hmac secret raw sig"
  by (auto simp: verifySignature_def signed_def from_to_hex Let_def)

lemma verifySignature_unauthorized: "verifySignature hmac secret raw sig = Some err \<Longrightarrow> \<exists>m. err = Unauthorized m"
  by (auto simp: verifySignature_def Let_def split: if_splits)

text \<open>
  C6. A webhook is acted on exactly when it is signed: its signature decodes to the HMAC of the raw
  body under the configured secret. Otherwise it is answered as unauthorized and nothing changes,
  also when no secret is configured or the raw body is missing.
\<close>

theorem webhook_authenticated:
  "if signed hmac (ce_secretKey env) raw sig
   then \<forall>m. fst (handleWebhook env hmac now raw body sig s) \<noteq> Some (Unauthorized m)
   else (\<exists>m. handleWebhook env hmac now raw body sig s = (Some (Unauthorized m), s))"
proof (cases "signed hmac (ce_secretKey env) raw sig")
  case True
  then have "verifySignature hmac (ce_secretKey env) raw sig = None" by (simp add: verifySignature_signed)
  with True show ?thesis
    by (auto simp: handleWebhook_def map_prod_def split_beta split: sum.splits if_splits)
next
  case False
  then obtain err where "verifySignature hmac (ce_secretKey env) raw sig = Some err"
    using verifySignature_signed by (metis not_None_eq)
  with False verifySignature_unauthorized show ?thesis by (fastforce simp: handleWebhook_def)
qed

text \<open>The row a webhook changed is found again under the same reference, changed.\<close>

lemma find_reference_saved:
  assumes "distinct (map tx_id t)" and "find_one (\<lambda>r. tx_providerReference r = Some ref) t = Some tx"
    and "tx_id tx' = tx_id tx" and "tx_providerReference tx' = tx_providerReference tx"
  shows "find_one (\<lambda>r. tx_providerReference r = Some ref) (update_where (\<lambda>r. tx_id r = tx_id tx') (\<lambda>_. tx') t) = Some tx'"
proof -
  have tx: "tx \<in> set t" "tx_providerReference tx = Some ref" using find_one_Some [OF assms(2)] by auto
  have same: "r = tx" if "r \<in> set t" "tx_id r = tx_id tx'" for r
    using assms(1,3) tx(1) that by (auto simp: distinct_map inj_on_def)
  have "update_where (\<lambda>r. tx_id r = tx_id tx') (\<lambda>_. tx') t = update_where (\<lambda>r. r = tx) (\<lambda>_. tx') t"
    using same assms(3) by (auto simp: update_where_def)
  moreover have "find_one (\<lambda>r. tx_providerReference r = k) (update_where (\<lambda>r. r = tx) (\<lambda>_. tx') u)
      = map_option (\<lambda>r. if r = tx then tx' else r) (find_one (\<lambda>r. tx_providerReference r = k) u)" for u k
    by (rule find_one_update_where) (simp add: assms(4))
  ultimately show ?thesis using assms(2) by simp
qed

lemma record_transactions:
  "cs_transactions (record_outcome env now tx st s) = update_where (\<lambda>r. tx_id r = tx_id tx) (\<lambda>_. tx) (cs_transactions s)"
  by (simp add: record_outcome_def publish_ids_def saveCashbackProcessedEvent_def draw_id_def save_row_def Let_def
      split_beta split: option.split)

text \<open>Both transitions have one shape: look the row up by reference, stop if it is there already, record.\<close>

definition mark_transfer ::
  "tx_status \<Rightarrow> payment_status \<Rightarrow> (cashback_transaction \<Rightarrow> cashback_transaction) \<Rightarrow> cashback_env \<Rightarrow> int \<Rightarrow> json_object
     \<Rightarrow> cashback_state \<Rightarrow> thrown option \<times> cashback_state" where
  "mark_transfer target announced g env now data s =
     (case readRequiredString ''Paystack webhook'' data ''reference'' of
        Inl err \<Rightarrow> (Some err, s)
      | Inr reference \<Rightarrow>
          (case tx_by_reference reference s of
             None \<Rightarrow> (None, s)
           | Some tx \<Rightarrow> if tx_status tx = target then (None, s) else (None, record_outcome env now (g tx) announced s)))"

lemma mark_shapes:
  "markTransferSuccessful env now data = mark_transfer TxSuccessful Successful
     (\<lambda>tx. tx\<lparr>tx_status := TxSuccessful, tx_failureReason := None, tx_failureCode := None, tx_retryable := None\<rparr>) env now data"
  "markTransferFailed env now data = mark_transfer TxFailed Failed
     (\<lambda>tx. let failure = classifyCashbackFailure (PlainError (failure_reason_of data)) in
       tx\<lparr>tx_status := TxFailed, tx_failureReason := Some (cf_message failure), tx_failureCode := cf_code failure,
          tx_retryable := cf_retryable failure\<rparr>) env now data"
  by (rule ext, simp add: markTransferSuccessful_def markTransferFailed_def mark_transfer_def Let_def
      split: sum.split option.split)+

lemma mark_transfer_again:
  assumes "distinct (map tx_id (cs_transactions s))"
    and "\<And>tx. tx_id (g tx) = tx_id tx" "\<And>tx. tx_providerReference (g tx) = tx_providerReference tx" "\<And>tx. tx_status (g tx) = target"
  shows "mark_transfer target st g env now' data (snd (mark_transfer target st g env now data s)) = mark_transfer target st g env now data s"
proof -
  have "tx_by_reference ref (record_outcome env now (g tx) st s) = Some (g tx)" if "tx_by_reference ref s = Some tx" for ref tx
    using find_reference_saved [OF assms(1), of ref tx "g tx"] that assms(2,3) by (simp add: tx_by_reference_def record_transactions)
  with assms(4) show ?thesis by (auto simp: mark_transfer_def split: sum.splits option.splits)
qed

lemma mark_again:
  assumes "distinct (map tx_id (cs_transactions s))"
  shows "markTransferSuccessful env now' data (snd (markTransferSuccessful env now data s)) = markTransferSuccessful env now data s"
    and "markTransferFailed env now' data (snd (markTransferFailed env now data s)) = markTransferFailed env now data s"
  unfolding mark_shapes by (intro mark_transfer_again assms; simp add: Let_def)+

text \<open>
  Paystack repeats webhooks until they are acknowledged; a repeated webhook gets the same answer
  and changes nothing, so the outcome is recorded and announced once.
\<close>

theorem webhook_repeat_ignored:
  assumes "distinct (map tx_id (cs_transactions s))" and "handleWebhook env hmac now raw body sig s = (res, s')"
  shows "handleWebhook env hmac now' raw body sig s' = (res, s')"
proof (cases "verifySignature hmac (ce_secretKey env) raw sig")
  case (Some err)
  from assms(2) have "res = Some err \<and> s' = s" by (simp add: handleWebhook_def Some)
  then show ?thesis by (simp add: handleWebhook_def Some)
next
  case None
  show ?thesis
  proof (cases "parseEvent body")
    case (Inl err)
    with None assms(2) show ?thesis by (simp add: handleWebhook_def)
  next
    case (Inr p)
    obtain event data where p: "p = (event, data)" by fastforce
    show ?thesis
      using None Inr p assms(2) mark_again [OF assms(1), of env now' data now]
      by (auto simp: handleWebhook_def map_prod_def split_beta split: if_splits)
  qed
qed

section \<open>The saved row and the truth\<close>

text \<open>
  \<open>processPayment\<close> saves the row it read before the provider call over whatever was stored
  meanwhile: when Paystack accepted the transfer, the row is pending afterwards, even if a webhook has
  recorded its success (or failure) between the call and the save.
\<close>

theorem webhook_outcome_overwritten:
  assumes "claim_payment env tid s = (Claimed tx, s1)" and "send_payment env e tx s1 = (Inr (account, result), s2)"
    and "rs_status result = Pending" and "tx_by_id tid (between s2) = Some stored"
  shows "\<exists>r. tx_by_id tid (snd (processPayment env now between tid e final s)) = Some r \<and> tx_status r = TxPending"
proof -
  note c = claimed_row [OF assms(1)]
  have "tx_by_id tid (save_row (sent_row result tx) tid (between s2)) = Some (sent_row result tx stored)"
    using assms(4) c(2) by (subst tx_by_id_save) (auto simp: sent_row_def sent_transaction_def)
  with assms c(2) show ?thesis
    by (auto simp: processPayment_def complete_payment_def complete_sent_def Let_def split_beta sent_row_def sent_transaction_def)
qed

text \<open>
  A transfer that Paystack has accepted leaves its transaction in the very state a worker claims:
  the next job for it (a second \<open>BadgeUnlocked\<close> event for the badge, or a stalled job) claims it again
  and orders another transfer under a new reference.
\<close>

theorem accepted_payment_claimed_again:
  assumes "claim_payment env tid s = (Claimed tx, s1)" and "send_payment env e tx s1 = (Inr (account, result), s2)"
    and "rs_status result = Pending"
  shows "\<exists>tx' s''. claim_payment env tid (snd (processPayment env now id tid e final s)) = (Claimed tx', s'')"
proof -
  note c = claimed_row [OF assms(1)]
  have "tx_by_id tid s2 = Some tx" using c(1) send_transactions [OF assms(2)] by (simp add: tx_by_id_def)
  then have "tx_by_id tid (save_row (sent_row result tx) tid s2) = Some (sent_row result tx tx)"
    using c(2) by (subst tx_by_id_save) (auto simp: sent_row_def sent_transaction_def)
  with assms c(2) obtain r where r: "tx_by_id tid (snd (processPayment env now id tid e final s)) = Some r" "tx_status r = TxPending"
    by (auto simp: processPayment_def complete_payment_def complete_sent_def Let_def split_beta sent_row_def sent_transaction_def)
  let ?s = "snd (processPayment env now id tid e final s)"
  have "payable tid (cs_transactions ?s)"
    using r by (auto simp: tx_by_id_def payable_def exists_row_def list_ex_iff dest: find_one_Some)
  then have "fst (claim_row ref tid (cs_transactions ?s))" for ref by (simp add: payment_claim.claim_wins)
  with r show ?thesis by (simp add: claim_payment_def draw_id_def Let_def split_beta)
qed

definition sample_hmac :: "string \<Rightarrow> string \<Rightarrow> string" where
  "sample_hmac secret body = ''H'' @ secret @ body"

definition sample_webhook :: "string \<Rightarrow> json_object" where
  "sample_webhook ref = [(''event'', JStr ''transfer.success''), (''data'', JObj [(''reference'', JStr ref)])]"

definition deliver_success :: "cashback_state \<Rightarrow> cashback_state" where
  "deliver_success s = snd (handleWebhook sample_paystack sample_hmac 2 (Some ''raw'')
     (sample_webhook ''paystack_cbk_414141414101'') (Some (to_hex (sample_hmac ''sk'' ''raw''))) s)"

definition claimed_sample :: cashback_transaction where
  "claimed_sample = (case claim_payment sample_paystack ''cbk_414141414100'' after_event of (Claimed tx, _) \<Rightarrow> tx)"

definition after_send :: cashback_state where
  "after_send = snd (send_payment sample_paystack (sample_badge ''e1'') claimed_sample
     (snd (claim_payment sample_paystack ''cbk_414141414100'' after_event)))"

lemma sample_claim:
  "claim_payment sample_paystack ''cbk_414141414100'' after_event
     = (Claimed claimed_sample, snd (claim_payment sample_paystack ''cbk_414141414100'' after_event))"
  by code_simp

definition accepted_sample :: "payout_account \<times> payment_result" where
  "accepted_sample = (case send_payment sample_paystack (sample_badge ''e1'') claimed_sample
     (snd (claim_payment sample_paystack ''cbk_414141414100'' after_event)) of (Inr p, _) \<Rightarrow> p)"

lemma sample_accepted:
  "\<not> isl (fst (send_payment sample_paystack (sample_badge ''e1'') claimed_sample
     (snd (claim_payment sample_paystack ''cbk_414141414100'' after_event))))"
  "rs_status (snd accepted_sample) = Pending"
  by code_simp+

lemma sample_sent:
  "send_payment sample_paystack (sample_badge ''e1'') claimed_sample
     (snd (claim_payment sample_paystack ''cbk_414141414100'' after_event))
   = (Inr (fst accepted_sample, snd accepted_sample), after_send)"
  using sample_accepted(1) unfolding accepted_sample_def after_send_def
  by (auto split: prod.splits sum.splits)

lemma webhook_success_row:
  assumes "tx_by_reference ref s = Some tx" and "tx_by_id (tx_id tx) s = Some tx" and "ref \<noteq> []"
  shows "map_option tx_status (tx_by_id (tx_id tx) (snd (markTransferSuccessful env now [(''reference'', JStr ref)] s))) = Some TxSuccessful"
proof (cases "tx_status tx = TxSuccessful")
  case True
  with assms show ?thesis by (simp add: markTransferSuccessful_def readRequiredString_def readString_def)
next
  case False
  let ?tx = "tx\<lparr>tx_status := TxSuccessful, tx_failureReason := None, tx_failureCode := None, tx_retryable := None\<rparr>"
  have "tx_by_id (tx_id tx) (record_outcome env now ?tx Successful s) = Some ?tx"
    using assms(2) find_one_replace [of tx_id "tx_id tx" ?tx "cs_transactions s"]
    by (auto simp: tx_by_id_def record_transactions find_one_def list_ex_iff dest: find_SomeD)
  with False assms show ?thesis by (simp add: markTransferSuccessful_def readRequiredString_def readString_def)
qed

lemma deliver_success_marks:
  "handleWebhook sample_paystack sample_hmac 2 (Some ''raw'') (sample_webhook ''paystack_cbk_414141414101'')
     (Some (to_hex (sample_hmac ''sk'' ''raw''))) s
   = map_prod (map_option WebhookFailure) id
       (markTransferSuccessful sample_paystack 2 [(''reference'', JStr ''paystack_cbk_414141414101'')] s)"
proof -
  have "to_hex (sample_hmac ''sk'' ''raw'') \<noteq> []" by (simp add: to_hex_def sample_hmac_def hex_byte_def)
  then have "verifySignature sample_hmac (ce_secretKey sample_paystack) (Some ''raw'') (Some (to_hex (sample_hmac ''sk'' ''raw''))) = None"
    by (simp add: verifySignature_signed signed_def from_to_hex truthy_def sample_paystack_def)
  moreover have "parseEvent (sample_webhook ref) = Inr (''transfer.success'', [(''reference'', JStr ref)])" for ref
    by (simp add: parseEvent_def sample_webhook_def readRequiredString_def readString_def readRequiredObject_def)
  ultimately show ?thesis by (simp add: handleWebhook_def)
qed

lemma sample_rows:
  "tx_by_reference ''paystack_cbk_414141414101'' after_send = Some claimed_sample"
  "tx_by_id ''cbk_414141414100'' after_send = Some claimed_sample" "tx_id claimed_sample = ''cbk_414141414100''"
  by code_simp+

lemma sample_webhook_success:
  "map_option tx_status (tx_by_id ''cbk_414141414100'' (deliver_success after_send)) = Some TxSuccessful"
  using webhook_success_row [of _ after_send claimed_sample] sample_rows
  by (simp add: deliver_success_def deliver_success_marks)

theorem webhook_outcome_overwritten_witness:
  "map_option tx_status (tx_by_id ''cbk_414141414100'' (deliver_success after_send)) = Some TxSuccessful
   \<and> (\<exists>r. tx_by_id ''cbk_414141414100''
        (snd (processPayment sample_paystack 3 deliver_success ''cbk_414141414100'' (sample_badge ''e1'') False after_event)) = Some r
      \<and> tx_status r = TxPending)"
  using sample_webhook_success webhook_outcome_overwritten [OF sample_claim sample_sent sample_accepted(2), of deliver_success]
  by (cases "tx_by_id ''cbk_414141414100'' (deliver_success after_send)") auto

lemma two_transfers:
  "map transfer_reference (transfers (cs_net (run_job sample_paystack 4 id (sample_job ''e2'')
        (snd (handleBadgeUnlocked sample_paystack 3 (sample_badge ''e2'') after_payment)))))
     = [Some ''paystack_cbk_414141414101'', Some ''paystack_cbk_414141414104'']"
  by code_simp

theorem accepted_payment_claimed_again_witness:
  "(\<exists>tx' s''. claim_payment sample_paystack ''cbk_414141414100''
      (snd (processPayment sample_paystack 1 id ''cbk_414141414100'' (sample_badge ''e1'') False after_event)) = (Claimed tx', s''))
   \<and> map transfer_reference (transfers (cs_net (run_job sample_paystack 4 id (sample_job ''e2'')
        (snd (handleBadgeUnlocked sample_paystack 3 (sample_badge ''e2'') after_payment)))))
     = [Some ''paystack_cbk_414141414101'', Some ''paystack_cbk_414141414104'']"
  using accepted_payment_claimed_again [OF sample_claim sample_sent sample_accepted(2), of 1 False]
    two_transfers by simp

theorem webhook_repeat_ignored_witness:
  "handleWebhook sample_paystack sample_hmac 9 (Some ''raw'') (sample_webhook ''paystack_cbk_414141414101'')
     (Some (to_hex (sample_hmac ''sk'' ''raw''))) (deliver_success after_payment) = (None, deliver_success after_payment)"
proof (rule webhook_repeat_ignored)
  show "distinct (map tx_id (cs_transactions after_payment))" by code_simp
  show "handleWebhook sample_paystack sample_hmac 2 (Some ''raw'') (sample_webhook ''paystack_cbk_414141414101'')
     (Some (to_hex (sample_hmac ''sk'' ''raw''))) after_payment = (None, deliver_success after_payment)"
    by (simp add: deliver_success_def deliver_success_marks markTransferSuccessful_def readRequiredString_def readString_def
        split: option.split)
qed

text \<open>
  Changed bank details are not paid to: once an account has a recipient code, a payment for an
  event with other (non-empty) bank details is still ordered to the old recipient.
\<close>

theorem old_recipient_paid:
  assumes "getProvider (ce_provider env) = Paystack" and "truthy (ce_secretKey env)"
    and "find_one (\<lambda>a. pa_userId a = snap_id (bu_user (payload e))) (cs_accounts s) = Some account"
    and "pa_providerRecipientCode account = Some old"
    and "truthy (nullish (snap_bankAccountNumber (bu_user (payload e))))" and "truthy (nullish (snap_bankCode (bu_user (payload e))))"
  shows "\<exists>request. transfers (cs_net (snd (send_payment env e tx s))) = transfers (cs_net s) @ [transfer_body request old]
    \<and> cr_bankAccountNumber request = nullish (snap_bankAccountNumber (bu_user (payload e)))"
proof -
  let ?u = "bu_user (payload e)"
  define a where "a = account\<lparr>pa_userName := snap_name ?u, pa_bankAccountNumber := the (nullish (snap_bankAccountNumber ?u)),
    pa_bankCode := the (nullish (snap_bankCode ?u)), pa_provider := getProvider (ce_provider env)\<rparr>"
  let ?r = "payment_request_for e tx a"
  have bank: "cr_bankAccountNumber ?r = nullish (snap_bankAccountNumber ?u)" "truthy (cr_bankAccountNumber ?r)" "truthy (cr_bankCode ?r)"
    "cr_providerRecipientCode ?r = Some old"
    using assms(4-6) by (auto simp: payment_request_for_def a_def truthy_def split: option.splits)
  have up: "upsertPayoutAccount env e s = (Inr a, s\<lparr>cs_accounts := upsert pa_id a (cs_accounts s)\<rparr>)"
    using assms by (simp add: upsertPayoutAccount_def a_def Let_def)
  obtain x net where x: "initiateTransfer (ce_responses env) (ce_parse env) ?r old (cs_net s) = (x, net)" by fastforce
  have "provider_send env ?r (cs_net s) = (case x of Inl err \<Rightarrow> (Inl err, net)
      | Inr reference \<Rightarrow> (Inr \<lparr>rs_provider = Paystack, rs_reference = reference, rs_status = Pending,
          rs_providerRecipientCode = Some old\<rparr>, net))"
    using assms(1,2) bank x by (simp add: provider_send_def sendCashback_def paystack_sendCashback_def split: sum.split)
  then have "cs_net (snd (send_payment env e tx s)) = net" by (simp add: send_payment_def up split: sum.split)
  moreover have "transfers net = transfers (cs_net s) @ [transfer_body ?r old]"
    using initiate_transfers [of "ce_responses env" "ce_parse env" ?r old "cs_net s"] x by simp
  ultimately show ?thesis using bank(1) by auto
qed

section \<open>Retries\<close>

definition bank_ready :: "payout_account list \<Rightarrow> cashback_transaction \<Rightarrow> bool" where
  "bank_ready accounts tx \<longleftrightarrow>
     (case find_one (\<lambda>a. pa_userId a = tx_userId tx) accounts of
        None \<Rightarrow> False
      | Some a \<Rightarrow> pa_bankAccountNumber a \<noteq> [] \<and> pa_bankCode a \<noteq> [])"

definition requeued :: "cashback_transaction \<Rightarrow> cashback_transaction" where
  "requeued r = r\<lparr>tx_status := TxPending, tx_failureReason := None, tx_nextRetryAt := None\<rparr>"

lemma buildRetryEvent_keeps:
  assumes "buildRetryEvent env now tx a s = (e, s')"
  shows "cs_transactions s' = cs_transactions s" and "cs_accounts s' = cs_accounts s" and "cs_jobs s' = cs_jobs s"
  using assms by (auto simp: buildRetryEvent_def draw_id_def Let_def split: option.splits)

lemma candidate_effect:
  assumes "distinct (map tx_id (cs_transactions s))" and "tx \<in> set (cs_transactions s)" and "tx_status tx = TxFailed"
    and "retry_candidate env now tx (n, s) = (n', s')"
  shows "cs_transactions s' = update_where (\<lambda>r. r = tx \<and> bank_ready (cs_accounts s) tx) requeued (cs_transactions s)"
    and "cs_accounts s' = cs_accounts s" and "n' = (if bank_ready (cs_accounts s) tx then n + 1 else n)"
    and "map job_transactionId (cs_jobs s') = map job_transactionId (cs_jobs s) @ (if bank_ready (cs_accounts s) tx then [tx_id tx] else [])"
proof -
  have same: "update_where (\<lambda>r. tx_id r = tx_id tx \<and> tx_status r = TxFailed) requeued (cs_transactions s)
      = update_where (\<lambda>r. r = tx) requeued (cs_transactions s)"
    using assms(1-3) by (auto simp: update_where_def distinct_map inj_on_def)
  have found: "tx_by_id (tx_id tx) s = Some tx" unfolding tx_by_id_def by (rule find_one_key) (use assms in auto)
  have eff: "cs_transactions s' = (if bank_ready (cs_accounts s) tx then update_where (\<lambda>r. r = tx) requeued (cs_transactions s) else cs_transactions s)
      \<and> cs_accounts s' = cs_accounts s \<and> n' = (if bank_ready (cs_accounts s) tx then n + 1 else n)
      \<and> map job_transactionId (cs_jobs s') = map job_transactionId (cs_jobs s) @ (if bank_ready (cs_accounts s) tx then [tx_id tx] else [])"
  proof (cases "bank_ready (cs_accounts s) tx")
    case False
    with assms(4) show ?thesis by (auto simp: retry_candidate_def bank_ready_def split: option.splits if_splits)
  next
    case True
    then obtain a where a: "find_one (\<lambda>a. pa_userId a = tx_userId tx) (cs_accounts s) = Some a"
      "pa_bankAccountNumber a \<noteq> []" "pa_bankCode a \<noteq> []" by (auto simp: bank_ready_def split: option.splits)
    obtain e s1 where e: "buildRetryEvent env now tx a s = (e, s1)" by fastforce
    note k = buildRetryEvent_keeps [OF e]
    have "retryPayment (tx_id tx) e s1 = (None, add_job (tx_id tx) e (s1\<lparr>cs_transactions := update_where (\<lambda>r. r = tx) requeued (cs_transactions s)\<rparr>))"
      using found k(1) assms(3) same by (simp add: retryPayment_def tx_by_id_def requeued_def [abs_def])
    with a e assms(4) True k show ?thesis by (auto simp: retry_candidate_def add_job_def)
  qed
  show "cs_transactions s' = update_where (\<lambda>r. r = tx \<and> bank_ready (cs_accounts s) tx) requeued (cs_transactions s)"
    using eff by (auto simp: update_where_def)
  show "cs_accounts s' = cs_accounts s" and "n' = (if bank_ready (cs_accounts s) tx then n + 1 else n)"
    and "map job_transactionId (cs_jobs s') = map job_transactionId (cs_jobs s) @ (if bank_ready (cs_accounts s) tx then [tx_id tx] else [])"
    using eff by auto
qed

lemma fold_candidates:
  assumes "distinct (map tx_id (cs_transactions s))" and "set txs \<subseteq> set (cs_transactions s)" and "distinct txs"
    and "\<forall>tx \<in> set txs. tx_status tx = TxFailed" and "fold (retry_candidate env now) txs (n, s) = (n', s')"
  shows "cs_transactions s' = update_where (\<lambda>r. r \<in> set txs \<and> bank_ready (cs_accounts s) r) requeued (cs_transactions s)
    \<and> n' = n + length (filter (bank_ready (cs_accounts s)) txs)
    \<and> map job_transactionId (cs_jobs s') = map job_transactionId (cs_jobs s) @ map tx_id (filter (bank_ready (cs_accounts s)) txs)"
  using assms
proof (induction txs arbitrary: n s)
  case Nil
  then show ?case by (simp add: update_where_def)
next
  case (Cons tx txs)
  obtain n1 s1 where c: "retry_candidate env now tx (n, s) = (n1, s1)" by fastforce
  note eff = candidate_effect [OF Cons.prems(1) _ _ c]
  have tx: "tx \<in> set (cs_transactions s)" "tx_status tx = TxFailed" using Cons.prems by auto
  have d: "distinct (map tx_id (cs_transactions s1))"
    using Cons.prems(1) eff(1) [OF tx] by (simp add: map_update_where requeued_def)
  have sub: "set txs \<subseteq> set (cs_transactions s1)"
  proof
    fix x assume "x \<in> set txs"
    then have "x \<in> set (cs_transactions s)" "x \<noteq> tx" using Cons.prems(2,3) by auto
    then show "x \<in> set (cs_transactions s1)" unfolding eff(1) [OF tx] in_update_where by (intro bexI [of _ x]) auto
  qed
  have rest: "fold (retry_candidate env now) txs (n1, s1) = (n', s')" using Cons.prems(5) c by simp
  have IH: "cs_transactions s' = update_where (\<lambda>r. r \<in> set txs \<and> bank_ready (cs_accounts s) r) requeued (cs_transactions s1)
    \<and> n' = n1 + length (filter (bank_ready (cs_accounts s)) txs)
    \<and> map job_transactionId (cs_jobs s') = map job_transactionId (cs_jobs s1) @ map tx_id (filter (bank_ready (cs_accounts s)) txs)"
    using Cons.IH [OF d sub _ _ rest] Cons.prems(3,4) eff(2) [OF tx] by simp
  have "requeued tx \<notin> set txs" using Cons.prems(4) by (auto simp: requeued_def)
  then have "update_where (\<lambda>r. r \<in> set txs \<and> bank_ready (cs_accounts s) r) requeued (cs_transactions s1)
      = update_where (\<lambda>r. r \<in> set (tx # txs) \<and> bank_ready (cs_accounts s) r) requeued (cs_transactions s)"
    unfolding eff(1) [OF tx] by (auto simp: update_where_def)
  with IH eff(3,4) [OF tx] show ?case by simp
qed

text \<open>
  C22. One scan for retries moves exactly the transactions that are due (failed, retryable, below the
  retry limit, past their retry time) and whose user has bank details back to pending, queues one job
  for each in order, counts them, and leaves every other transaction as it is; a scan that finds
  another one running does nothing.
\<close>

theorem retry_scan_effect:
  assumes "distinct (map tx_id (cs_transactions s))" and "retryEligibleFailedTransactions env now s = (n, s')"
  shows "if cs_scanRunning s then n = 0 \<and> s' = s
    else (let due = (\<lambda>r. eligible env now r \<and> bank_ready (cs_accounts s) r) in
      cs_transactions s' = update_where due requeued (cs_transactions s)
      \<and> n = length (filter due (cs_transactions s))
      \<and> map job_transactionId (cs_jobs s') = map job_transactionId (cs_jobs s) @ map tx_id (filter due (cs_transactions s)))"
proof (cases "cs_scanRunning s")
  case True
  with assms(2) show ?thesis by (simp add: retryEligibleFailedTransactions_def)
next
  case False
  let ?txs = "filter (eligible env now) (cs_transactions s)" and ?s = "s\<lparr>cs_scanRunning := True\<rparr>"
  obtain m t where f: "fold (retry_candidate env now) ?txs (0, ?s) = (m, t)" by fastforce
  have t: "n = m" "s' = t\<lparr>cs_scanRunning := False\<rparr>"
    using assms(2) False f by (auto simp: retryEligibleFailedTransactions_def Let_def)
  have "distinct ?txs" using assms(1) by (simp add: distinct_map)
  moreover have "\<forall>tx \<in> set ?txs. tx_status tx = TxFailed" by (auto simp: eligible_def)
  ultimately have "cs_transactions t = update_where (\<lambda>r. r \<in> set ?txs \<and> bank_ready (cs_accounts s) r) requeued (cs_transactions s)
    \<and> m = length (filter (bank_ready (cs_accounts s)) ?txs)
    \<and> map job_transactionId (cs_jobs t) = map job_transactionId (cs_jobs s) @ map tx_id (filter (bank_ready (cs_accounts s)) ?txs)"
    using fold_candidates [OF _ _ _ _ f] assms(1) by simp
  moreover have "update_where (\<lambda>r. r \<in> set ?txs \<and> bank_ready (cs_accounts s) r) requeued (cs_transactions s)
      = update_where (\<lambda>r. eligible env now r \<and> bank_ready (cs_accounts s) r) requeued (cs_transactions s)"
    by (simp add: update_where_def)
  ultimately show ?thesis
    using False t by (simp add: Let_def)
qed

definition sample_tx :: cashback_transaction where
  "sample_tx = \<lparr>tx_id = ''cbk_1'', tx_userId = ''usr_1'', tx_badgeName = ''Bronze'', tx_amountKobo = 30000, tx_status = TxFailed,
       tx_provider = Paystack, tx_providerReference = Some ''r1'', tx_providerRecipientCode = None,
       tx_correlationId = Some ''c1'', tx_failureReason = Some ''timeout'', tx_failureCode = Some ProviderUnavailable,
       tx_retryable = Some True, tx_retryCount = 1, tx_nextRetryAt = Some 60000, tx_createdAt = 0\<rparr>"

definition failed_sample :: cashback_state where
  "failed_sample = empty_cashback\<lparr>cs_transactions :=
     [sample_tx],
     cs_accounts := [\<lparr>pa_id = ''poa_1'', pa_userId = ''usr_1'', pa_userName = ''Ada'', pa_bankAccountNumber = ''0123456789'',
       pa_bankCode = ''058'', pa_provider = Paystack, pa_providerRecipientCode = Some ''RCP_0''\<rparr>]\<rparr>"

theorem retry_scan_effect_witness:
  "map tx_status (cs_transactions (snd (retryEligibleFailedTransactions sample_paystack 60000 failed_sample))) = [TxPending]
   \<and> fst (retryEligibleFailedTransactions sample_paystack 60000 failed_sample) = 1"
proof -
  have due: "eligible sample_paystack 60000 r \<and> bank_ready (cs_accounts failed_sample) r"
    if "r \<in> set (cs_transactions failed_sample)" for r
    using that by (simp add: failed_sample_def sample_tx_def eligible_def bank_ready_def sample_paystack_def find_one_def)
  have "\<not> cs_scanRunning failed_sample" "distinct (map tx_id (cs_transactions failed_sample))"
    "length (cs_transactions failed_sample) = 1"
    by (simp_all add: failed_sample_def empty_cashback_def)
  then show ?thesis
    using retry_scan_effect [of failed_sample sample_paystack 60000, OF _ surjective_pairing] due
    by (auto simp: Let_def update_where_def requeued_def comp_def length_Suc_conv)
qed

theorem old_recipient_paid_witness:
  "\<exists>request. transfers (cs_net (snd (send_payment sample_paystack (sample_badge ''e1'') sample_tx failed_sample)))
     = transfers (cs_net failed_sample) @ [transfer_body request ''RCP_0'']
     \<and> cr_bankAccountNumber request = Some ''0123456789''"
  using old_recipient_paid [of sample_paystack "sample_badge ''e1''" failed_sample _ "''RCP_0''" sample_tx]
  by (simp add: sample_paystack_def sample_badge_def failed_sample_def getProvider_def truthy_def find_one_def)

text \<open>
  The delay before the next automatic retry is positive, never more than an hour, doubles from the
  configured base until it reaches the hour, and never shrinks with the number of retries.
\<close>

theorem auto_retry_delay:
  assumes "0 < ce_baseDelayMs env"
  shows "autoRetryDelayMs env (Suc n) = min (ce_baseDelayMs env * 2 ^ n) 3600000
    \<and> 0 < autoRetryDelayMs env n \<and> autoRetryDelayMs env n \<le> 3600000
    \<and> (m \<le> n \<longrightarrow> autoRetryDelayMs env m \<le> autoRetryDelayMs env n)
    \<and> (\<exists>k. \<forall>j \<ge> k. autoRetryDelayMs env j = 3600000)"
proof -
  obtain b where b: "ce_baseDelayMs env = int (Suc b)" using assms by (metis Suc_pred' zero_less_imp_eq_int)
  then have env: "env = env\<lparr>ce_baseDelayMs := int (Suc b)\<rparr>" by simp
  have pred: "autoRetryDelayMs env k = autoRetryDelayMs env (Suc (k - 1))" for k by (simp add: autoRetryDelayMs_def)
  have "m \<le> n \<longrightarrow> autoRetryDelayMs env m \<le> autoRetryDelayMs env n"
    using auto_retry.delay_mono [where env = env and b = b and m = "m - 1" and n = "n - 1"] env pred by (metis diff_le_mono)
  moreover obtain k where "\<forall>j \<ge> k. autoRetryDelayMs env (Suc j) = 3600000"
    using auto_retry.reaches_cap [where env = env and b = b] env by auto
  then have "\<forall>j \<ge> Suc k. autoRetryDelayMs env j = 3600000" using Suc_le_D by auto
  ultimately show ?thesis
    using auto_retry.delay_closed [where env = env and b = b and n = n]
      auto_retry.delay_pos [where env = env and b = b and n = "n - 1"] auto_retry.delay_le_cap [where env = env and b = b and n = "n - 1"] env pred b
    by metis
qed

theorem auto_retry_delay_witness:
  "autoRetryDelayMs sample_paystack 3 = 240000 \<and> autoRetryDelayMs sample_paystack 1 \<le> autoRetryDelayMs sample_paystack 3"
  using auto_retry_delay [of sample_paystack 2 0] auto_retry_delay [of sample_paystack 3 1] by (simp add: sample_paystack_def)

section \<open>The transaction list\<close>

lemma where_ignores_page: "buildTransactionWhere (q\<lparr>lq_page := p, lq_limit := l\<rparr>) = buildTransactionWhere q"
  by (simp add: buildTransactionWhere_def fun_eq_iff Let_def split: option.split)

text \<open>
  Walking the pages of the transaction list up to the reported number of pages yields every
  transaction that matches the filters exactly once, newest first, whatever the page size, as long as
  the database orders rows with equal timestamps the same way each time.
\<close>

theorem cashback_pages_complete:
  assumes "orders newest_first ord" and "0 < l"
  shows "let pages = concat (map (\<lambda>p. fst (listTransactions ord (q\<lparr>lq_page := Some p, lq_limit := Some l\<rparr>) s))
        [1..<Suc (pm_totalPages (snd (listTransactions ord (q\<lparr>lq_page := None, lq_limit := Some l\<rparr>) s)))])
    in mset pages = mset (filter (buildTransactionWhere q) (cs_transactions s)) \<and> sorted_wrt newest_first pages"
proof -
  let ?rows = "ord (filter (buildTransactionWhere q) (cs_transactions s))"
  have "pm_totalPages (snd (listTransactions ord (q\<lparr>lq_page := None, lq_limit := Some l\<rparr>) s)) = total_pages (length ?rows) l"
    by (simp add: listTransactions_def where_ignores_page paginate_def)
  moreover have "fst (listTransactions ord (q\<lparr>lq_page := Some p, lq_limit := Some l\<rparr>) s) = fst (paginate (Some p) (Some l) ?rows)" for p
    by (simp add: listTransactions_def where_ignores_page)
  ultimately show ?thesis using pages_concat [OF assms(2), of ?rows] assms(1) by (simp add: orders_def)
qed

lemma newest_sort: "orders newest_first (sort_key (\<lambda>r. - tx_createdAt r))"
proof -
  have "sorted_wrt newest_first (sort_key (\<lambda>r. - tx_createdAt r) t)" for t
    using sorted_sort_key [of "\<lambda>r. - tx_createdAt r" t] by (simp add: sorted_map newest_first_def [abs_def])
  then show ?thesis by (simp add: orders_def)
qed

theorem cashback_pages_complete_witness:
  "mset (concat (map (\<lambda>p. fst (listTransactions (sort_key (\<lambda>r. - tx_createdAt r))
        \<lparr>lq_page = Some p, lq_limit = Some 1, lq_userId = None, lq_status = Some TxFailed, lq_search = None\<rparr> failed_sample))
      [1..<Suc (pm_totalPages (snd (listTransactions (sort_key (\<lambda>r. - tx_createdAt r))
        \<lparr>lq_page = None, lq_limit = Some 1, lq_userId = None, lq_status = Some TxFailed, lq_search = None\<rparr> failed_sample)))]))
   = {#sample_tx#}"
  using cashback_pages_complete [OF newest_sort, of 1
      "\<lparr>lq_page = None, lq_limit = None, lq_userId = None, lq_status = Some TxFailed, lq_search = None\<rparr>" failed_sample]
  by (simp add: Let_def failed_sample_def buildTransactionWhere_def Let_def sample_tx_def truthy_def)

text \<open>
  A search undoes the user filter: asked for one user's transactions with a search, the list also
  returns the transactions of every other user whose identifier contains the search text.
\<close>

theorem search_ignores_user_filter:
  assumes "r \<in> set (cs_transactions s)" and "truthy (lq_search q)" and "ilike (the (lq_search q)) (tx_userId r)" and "lq_status q = None"
    and "orders newest_first ord" and "length (cs_transactions s) \<le> l"
  shows "r \<in> set (fst (listTransactions ord (q\<lparr>lq_page := None, lq_limit := Some l\<rparr>) s))"
proof -
  let ?rows = "filter (buildTransactionWhere q) (cs_transactions s)"
  have "length (ord ?rows) \<le> l"
    using orders_length [OF assms(5), of ?rows] length_filter_le [of "buildTransactionWhere q" "cs_transactions s"] assms(6) by linarith
  then have "fst (listTransactions ord (q\<lparr>lq_page := None, lq_limit := Some l\<rparr>) s) = ord ?rows"
    by (simp add: listTransactions_def where_ignores_page paginate_def skip_take_def)
  moreover have "r \<in> set ?rows" using assms(1-4) by (simp add: buildTransactionWhere_def)
  ultimately show ?thesis using orders_set [OF assms(5), of ?rows] by simp
qed

theorem search_ignores_user_filter_witness:
  "sample_tx \<in> set (fst (listTransactions (sort_key (\<lambda>r. - tx_createdAt r))
     \<lparr>lq_page = None, lq_limit = Some 20, lq_userId = Some ''usr_2'', lq_status = None, lq_search = Some ''usr''\<rparr> failed_sample))
   \<and> tx_userId sample_tx = ''usr_1''"
proof -
  have "ilike ''usr'' ''usr_1''" by code_simp
  then show ?thesis
    using search_ignores_user_filter [of sample_tx failed_sample
        "\<lparr>lq_page = None, lq_limit = None, lq_userId = Some ''usr_2'', lq_status = None, lq_search = Some ''usr''\<rparr>" _ 20, OF _ _ _ _ newest_sort]
    by (simp add: failed_sample_def sample_tx_def truthy_def)
qed

end
