(* ===== verification/Logging.thy ===== *)
theory Logging
  imports Js_Prelude
begin

text \<open>
  \<open>packages/logger-sdk\<close>: the redaction of request bodies before they are logged and the JSON lines of the
  logger. \<open>JSON.stringify\<close> is the argument \<open>stringify\<close>; writing to the standard output is not modelled.
\<close>

section \<open>Redaction\<close>

definition REDACTED_KEYS :: "string list" where
  "REDACTED_KEYS = [''bankAccountNumber'', ''bankCode'', ''password'', ''secretKey'', ''authorization'', ''x-api-key'']"

fun redact :: "json \<Rightarrow> json" where
  "redact (JArr xs) = JArr (map redact xs)"
| "redact (JObj kvs) = JObj (map (\<lambda>(k, v). (k, if k \<in> set REDACTED_KEYS then JStr ''[redacted]'' else redact v)) kvs)"
| "redact v = v"

definition formatBody :: "(json \<Rightarrow> string) \<Rightarrow> json option \<Rightarrow> string" where
  "formatBody stringify body =
     (case body of
        Some (JObj (kv # kvs)) \<Rightarrow> '' '' @ stringify (redact (JObj (kv # kvs)))
      | Some (JArr (x # xs)) \<Rightarrow> '' '' @ stringify (redact (JArr (x # xs)))
      | _ \<Rightarrow> [])"

section \<open>Lines\<close>

datatype log_context = NoContext | TextContext string | ObjectContext json_object

definition normalizeContext :: "string \<Rightarrow> log_context \<Rightarrow> json_object" where
  "normalizeContext service context =
     (case context of
        NoContext \<Rightarrow> [(''service'', JStr service)]
      | TextContext c \<Rightarrow> [(''service'', JStr service), (''context'', JStr c)]
      | ObjectContext kvs \<Rightarrow> kvs)"

text \<open>Spreading an object: a later value of a name replaces the earlier one in its place.\<close>

fun set_prop :: "string \<Rightarrow> json \<Rightarrow> json_object \<Rightarrow> json_object" where
  "set_prop k v [] = [(k, v)]"
| "set_prop k v ((k', v') # kvs) = (if k' = k then (k, v) # kvs else (k', v') # set_prop k v kvs)"

definition log_write :: "(json \<Rightarrow> string) \<Rightarrow> string \<Rightarrow> string \<Rightarrow> string \<Rightarrow> string \<Rightarrow> json_object \<Rightarrow> string" where
  "log_write stringify service timestamp level message context =
     stringify (JObj (set_prop ''service'' (JStr service)
       (foldl (\<lambda>o' (k, v). set_prop k v o')
          [(''level'', JStr level), (''message'', JStr message), (''timestamp'', JStr timestamp)] context))) @ ''\<newline>''"

definition log_error :: "(json \<Rightarrow> string) \<Rightarrow> string \<Rightarrow> string \<Rightarrow> string \<Rightarrow> string option \<Rightarrow> log_context \<Rightarrow> string" where
  "log_error stringify service timestamp message trace context =
     log_write stringify service timestamp ''error'' message
       (case trace of
          Some t \<Rightarrow> set_prop ''trace'' (JStr t) (normalizeContext service context)
        | None \<Rightarrow> filter (\<lambda>(k, _). k \<noteq> ''trace'') (normalizeContext service context))"

definition log_message :: "(json \<Rightarrow> string) \<Rightarrow> string \<Rightarrow> string \<Rightarrow> string \<Rightarrow> string \<Rightarrow> log_context \<Rightarrow> string" where
  "log_message stringify service timestamp level message context =
     log_write stringify service timestamp level message (normalizeContext service context)"

text \<open>\<open>RequestLoggingMiddleware\<close>: the message for an incoming request.\<close>

definition request_line :: "(json \<Rightarrow> string) \<Rightarrow> string \<Rightarrow> string \<Rightarrow> json option \<Rightarrow> string" where
  "request_line stringify verb originalUrl body = ''--> '' @ verb @ '' '' @ originalUrl @ formatBody stringify body"

text \<open>
  The message when the response has been sent, and the messages of a request: \<open>finish\<close> is the time and the
  status of the response, \<open>None\<close> when the connection ends without one. \<open>num_text\<close> is the text of an integer.
\<close>

definition response_line :: "(int \<Rightarrow> string) \<Rightarrow> string \<Rightarrow> string \<Rightarrow> int \<Rightarrow> int \<Rightarrow> string" where
  "response_line num_text verb originalUrl statusCode durationMs =
     ''<-- '' @ verb @ '' '' @ originalUrl @ '' '' @ num_text statusCode @ '' '' @ num_text durationMs @ ''ms''"

definition logged_messages ::
  "(json \<Rightarrow> string) \<Rightarrow> (int \<Rightarrow> string) \<Rightarrow> string \<Rightarrow> string \<Rightarrow> json option \<Rightarrow> int \<Rightarrow> (int \<times> int) option \<Rightarrow> string list" where
  "logged_messages stringify num_text verb originalUrl body startedAt finish =
     request_line stringify verb originalUrl body #
     (case finish of
        Some (now, statusCode) \<Rightarrow> [response_line num_text verb originalUrl statusCode (now - startedAt)]
      | None \<Rightarrow> [])"

section \<open>What a log line can show\<close>

text \<open>Other values under the redacted names, at any depth.\<close>

fun with_secrets :: "(string \<Rightarrow> json \<Rightarrow> json) \<Rightarrow> json \<Rightarrow> json" where
  "with_secrets f (JArr xs) = JArr (map (with_secrets f) xs)"
| "with_secrets f (JObj kvs) = JObj (map (\<lambda>(k, v). (k, if k \<in> set REDACTED_KEYS then f k v else with_secrets f v)) kvs)"
| "with_secrets f v = v"

lemma redact_with_secrets: "redact (with_secrets f v) = redact v"
  by (induction v rule: redact.induct) (auto simp: split_def)

definition has_entries :: "json \<Rightarrow> bool" where
  "has_entries v \<longleftrightarrow> (case v of JObj kvs \<Rightarrow> kvs \<noteq> [] | JArr xs \<Rightarrow> xs \<noteq> [] | _ \<Rightarrow> False)"

lemma formatBody_Some: "formatBody stringify (Some v) = (if has_entries v then '' '' @ stringify (redact v) else [])"
  by (auto simp: formatBody_def has_entries_def split: json.splits list.splits simp del: redact.simps)

lemma has_entries_with_secrets: "has_entries (with_secrets f v) = has_entries v"
  by (cases v) (simp_all add: has_entries_def)


end
