(* ===== verification/Config.thy ===== *)
theory Config
  imports Js_Prelude
begin

text \<open>
  The \<open>config/env.ts\<close> of the four applications: the schema of the environment variables, its validation,
  and the readers. The process environment is an argument. A schema lists each variable with its check in
  the order of the source; \<open>z.coerce.number()\<close> applies \<open>Number\<close> and admits finite numbers, \<open>int\<close> admits
  the integers up to \<open>2 ^ 53 - 1\<close> in magnitude, as documented for the schema library. The readers validate
  the whole environment before they read from it, as in the source.
\<close>

section \<open>Schemas\<close>

type_synonym process_env = "string \<Rightarrow> string option"

datatype env_check =
    StringMin1 | StringMin1_Default string | StringOptional | OneOf "string list" string
  | PositiveInt int | NonnegativeInt int

datatype env_value = EnvText string | EnvNumber int

definition MAX_SAFE_INTEGER :: int where "MAX_SAFE_INTEGER = 2 ^ 53 - 1"

text \<open>\<open>z.coerce.number().int()\<close> on a text.\<close>

definition coerce_int :: "string \<Rightarrow> int option" where
  "coerce_int raw =
     (case string_to_number raw of
        Fin q \<Rightarrow> if of_int (floor q) = q \<and> \<bar>floor q\<bar> \<le> MAX_SAFE_INTEGER then Some (floor q) else None
      | _ \<Rightarrow> None)"

text \<open>The value of a variable under its check: \<open>None\<close> when it fails, \<open>Some None\<close> when it is optional and not set.\<close>

fun parse_entry :: "env_check \<Rightarrow> string option \<Rightarrow> env_value option option" where
  "parse_entry StringMin1 v = (case v of Some s \<Rightarrow> if s \<noteq> [] then Some (Some (EnvText s)) else None | None \<Rightarrow> None)"
| "parse_entry (StringMin1_Default d) v =
     (case v of Some s \<Rightarrow> if s \<noteq> [] then Some (Some (EnvText s)) else None | None \<Rightarrow> Some (Some (EnvText d)))"
| "parse_entry StringOptional v = Some (map_option EnvText v)"
| "parse_entry (OneOf xs d) v =
     (case v of Some s \<Rightarrow> if s \<in> set xs then Some (Some (EnvText s)) else None | None \<Rightarrow> Some (Some (EnvText d)))"
| "parse_entry (PositiveInt d) v =
     (case v of
        Some s \<Rightarrow> (case coerce_int s of Some i \<Rightarrow> if 0 < i then Some (Some (EnvNumber i)) else None | None \<Rightarrow> None)
      | None \<Rightarrow> Some (Some (EnvNumber d)))"
| "parse_entry (NonnegativeInt d) v =
     (case v of
        Some s \<Rightarrow> (case coerce_int s of Some i \<Rightarrow> if 0 \<le> i then Some (Some (EnvNumber i)) else None | None \<Rightarrow> None)
      | None \<Rightarrow> Some (Some (EnvNumber d)))"

type_synonym env_schema = "(string \<times> env_check) list"

definition gateway_schema :: env_schema where
  "gateway_schema =
     [(''API_GATEWAY_PORT'', PositiveInt 3000), (''GATEWAY_BODY_LIMIT'', StringMin1_Default ''100kb''),
      (''GATEWAY_CORS_ORIGINS'', StringOptional), (''GATEWAY_DOCS_ENABLED'', OneOf [''true'', ''false''] ''true''),
      (''PURCHASE_SERVICE_HOST'', StringMin1_Default ''localhost''), (''PURCHASE_SERVICE_PORT'', PositiveInt 3001),
      (''LOYALTY_SERVICE_HOST'', StringMin1_Default ''localhost''), (''LOYALTY_SERVICE_PORT'', PositiveInt 3002),
      (''CASHBACK_SERVICE_HOST'', StringMin1_Default ''localhost''), (''CASHBACK_SERVICE_PORT'', PositiveInt 3004),
      (''MICROSERVICE_HTTP_TIMEOUT_MS'', PositiveInt 5000), (''ADMIN_API_KEY'', StringOptional)]"

text \<open>The entries the three services share, up to the port and the name of the database.\<close>

definition service_schema :: "string \<Rightarrow> int \<Rightarrow> string \<Rightarrow> env_schema" where
  "service_schema portKey port databaseKey =
     [(''NODE_ENV'', OneOf [''development'', ''test'', ''production''] ''development''),
      (''RABBITMQ_HOST'', StringMin1), (''RABBITMQ_PORT'', PositiveInt 5672), (''RABBITMQ_USER'', StringMin1),
      (''RABBITMQ_PASSWORD'', StringMin1), (''REDIS_HOST'', StringMin1), (''REDIS_PORT'', PositiveInt 6379),
      (''OUTBOX_BATCH_SIZE'', PositiveInt 20), (''OUTBOX_MAX_ATTEMPTS'', PositiveInt 5), (''OUTBOX_LOCK_TTL_MS'', PositiveInt 5000),
      (''OUTBOX_POLL_INTERVAL_MS'', PositiveInt 30000), (portKey, PositiveInt port), (''DATABASE_HOST'', StringMin1),
      (''DATABASE_PORT'', PositiveInt 5432), (''DATABASE_USER'', StringMin1), (''DATABASE_PASSWORD'', StringMin1),
      (databaseKey, StringMin1)]"

definition purchase_schema :: env_schema where
  "purchase_schema = service_schema ''PURCHASE_SERVICE_PORT'' 3001 ''PURCHASE_DATABASE_NAME''"

definition loyalty_schema :: env_schema where
  "loyalty_schema = service_schema ''LOYALTY_SERVICE_PORT'' 3002 ''LOYALTY_DATABASE_NAME''"

definition cashback_schema :: env_schema where
  "cashback_schema = service_schema ''CASHBACK_SERVICE_PORT'' 3004 ''CASHBACK_DATABASE_NAME'' @
     [(''PAYMENT_PROVIDER'', OneOf [''mock'', ''paystack''] ''mock''), (''PAYSTACK_SECRET_KEY'', StringOptional),
      (''CASHBACK_AMOUNT_KOBO'', PositiveInt 30000), (''CASHBACK_RETRY_INTERVAL_MS'', PositiveInt 60000),
      (''CASHBACK_RETRY_BASE_DELAY_MS'', PositiveInt 300000), (''CASHBACK_MAX_AUTO_RETRIES'', NonnegativeInt 5)]"

section \<open>Readers\<close>

datatype config_error = InvalidEnv | MissingEnv string | NotNumeric string

definition validateConfig :: "env_schema \<Rightarrow> process_env \<Rightarrow> config_error + (string \<times> env_value option) list" where
  "validateConfig schema env =
     (if list_all (\<lambda>(k, c). parse_entry c (env k) \<noteq> None) schema
      then Inr (map (\<lambda>(k, c). (k, the (parse_entry c (env k)))) schema) else Inl InvalidEnv)"

definition validateEnv :: "env_schema \<Rightarrow> process_env \<Rightarrow> config_error option" where
  "validateEnv schema env = (case validateConfig schema env of Inl e \<Rightarrow> Some e | Inr _ \<Rightarrow> None)"

definition getRequiredEnv :: "env_schema \<Rightarrow> string \<Rightarrow> process_env \<Rightarrow> config_error + string" where
  "getRequiredEnv schema name env =
     (case validateEnv schema env of
        Some e \<Rightarrow> Inl e
      | None \<Rightarrow> if truthy (env name) then Inr (the (env name)) else Inl (MissingEnv name))"

definition getNumberEnv :: "env_schema \<Rightarrow> string \<Rightarrow> rat \<Rightarrow> process_env \<Rightarrow> config_error + rat" where
  "getNumberEnv schema name fallback env =
     (case validateEnv schema env of
        Some e \<Rightarrow> Inl e
      | None \<Rightarrow>
          if \<not> truthy (env name) then Inr fallback
          else (case string_to_number (the (env name)) of Fin q \<Rightarrow> Inr q | _ \<Rightarrow> Inl (NotNumeric name)))"

definition getStringEnv :: "env_schema \<Rightarrow> string \<Rightarrow> string \<Rightarrow> process_env \<Rightarrow> config_error + string" where
  "getStringEnv schema name fallback env =
     (case validateEnv schema env of
        Some e \<Rightarrow> Inl e
      | None \<Rightarrow> Inr (case env name of Some s \<Rightarrow> s | None \<Rightarrow> fallback))"

definition getBooleanEnv :: "env_schema \<Rightarrow> string \<Rightarrow> bool \<Rightarrow> process_env \<Rightarrow> config_error + bool" where
  "getBooleanEnv schema name fallback env =
     (case validateEnv schema env of
        Some e \<Rightarrow> Inl e
      | None \<Rightarrow> Inr (if truthy (env name) then the (env name) = ''true'' else fallback))"

fun split_on :: "char \<Rightarrow> string \<Rightarrow> string list" where
  "split_on sep [] = [[]]"
| "split_on sep (c # s) = (if c = sep then [] # split_on sep s else (c # hd (split_on sep s)) # tl (split_on sep s))"

definition getCsvEnv :: "env_schema \<Rightarrow> string \<Rightarrow> process_env \<Rightarrow> config_error + string list" where
  "getCsvEnv schema name env =
     (case validateEnv schema env of
        Some e \<Rightarrow> Inl e
      | None \<Rightarrow> Inr (filter (\<lambda>v. v \<noteq> []) (map trim (split_on (CHR '','') (case env name of Some s \<Rightarrow> s | None \<Rightarrow> [])))))"

text \<open>\<open>num_text\<close> is the text of a number.\<close>

definition getServiceBaseUrl ::
  "(rat \<Rightarrow> string) \<Rightarrow> string \<Rightarrow> string \<Rightarrow> string \<Rightarrow> rat \<Rightarrow> process_env \<Rightarrow> config_error + string" where
  "getServiceBaseUrl num_text hostEnv portEnv fallbackHost fallbackPort env =
     (case validateEnv gateway_schema env of
        Some e \<Rightarrow> Inl e
      | None \<Rightarrow>
          (case getNumberEnv gateway_schema portEnv fallbackPort env of
             Inl e \<Rightarrow> Inl e
           | Inr port \<Rightarrow> Inr (''http://'' @ (case env hostEnv of Some h \<Rightarrow> h | None \<Rightarrow> fallbackHost) @ '':'' @ num_text port)))"

record connection_config =
  cc_host :: string
  cc_port :: rat
  cc_username :: string
  cc_password :: string
  cc_database :: "string option"

text \<open>The properties of a configuration object are computed in order; the first error is thrown.\<close>

definition getPostgresConfig :: "env_schema \<Rightarrow> string \<Rightarrow> process_env \<Rightarrow> config_error + connection_config" where
  "getPostgresConfig schema databaseNameEnv env =
     (case getRequiredEnv schema ''DATABASE_HOST'' env of Inl e \<Rightarrow> Inl e | Inr host \<Rightarrow>
     (case getNumberEnv schema ''DATABASE_PORT'' 5432 env of Inl e \<Rightarrow> Inl e | Inr port \<Rightarrow>
     (case getRequiredEnv schema ''DATABASE_USER'' env of Inl e \<Rightarrow> Inl e | Inr user \<Rightarrow>
     (case getRequiredEnv schema ''DATABASE_PASSWORD'' env of Inl e \<Rightarrow> Inl e | Inr password \<Rightarrow>
     (case getRequiredEnv schema databaseNameEnv env of Inl e \<Rightarrow> Inl e | Inr database \<Rightarrow>
        Inr \<lparr>cc_host = host, cc_port = port, cc_username = user, cc_password = password, cc_database = Some database\<rparr>)))))"

definition getRabbitMqConfig :: "env_schema \<Rightarrow> process_env \<Rightarrow> config_error + connection_config" where
  "getRabbitMqConfig schema env =
     (case getRequiredEnv schema ''RABBITMQ_HOST'' env of Inl e \<Rightarrow> Inl e | Inr host \<Rightarrow>
     (case getNumberEnv schema ''RABBITMQ_PORT'' 5672 env of Inl e \<Rightarrow> Inl e | Inr port \<Rightarrow>
     (case getRequiredEnv schema ''RABBITMQ_USER'' env of Inl e \<Rightarrow> Inl e | Inr user \<Rightarrow>
     (case getRequiredEnv schema ''RABBITMQ_PASSWORD'' env of Inl e \<Rightarrow> Inl e | Inr password \<Rightarrow>
        Inr \<lparr>cc_host = host, cc_port = port, cc_username = user, cc_password = password, cc_database = None\<rparr>))))"

definition getRedisConfig :: "env_schema \<Rightarrow> process_env \<Rightarrow> config_error + string \<times> rat" where
  "getRedisConfig schema env =
     (case getRequiredEnv schema ''REDIS_HOST'' env of Inl e \<Rightarrow> Inl e | Inr host \<Rightarrow>
     (case getNumberEnv schema ''REDIS_PORT'' 6379 env of Inl e \<Rightarrow> Inl e | Inr port \<Rightarrow> Inr (host, port)))"

record outbox_runtime_config =
  or_batchSize :: rat
  or_maxAttempts :: rat
  or_lockTtlMs :: rat
  or_pollIntervalMs :: rat

definition getOutboxRuntimeConfig :: "env_schema \<Rightarrow> process_env \<Rightarrow> config_error + outbox_runtime_config" where
  "getOutboxRuntimeConfig schema env =
     (case getNumberEnv schema ''OUTBOX_BATCH_SIZE'' 20 env of Inl e \<Rightarrow> Inl e | Inr batch \<Rightarrow>
     (case getNumberEnv schema ''OUTBOX_MAX_ATTEMPTS'' 5 env of Inl e \<Rightarrow> Inl e | Inr limit \<Rightarrow>
     (case getNumberEnv schema ''OUTBOX_LOCK_TTL_MS'' 5000 env of Inl e \<Rightarrow> Inl e | Inr ttl \<Rightarrow>
     (case getNumberEnv schema ''OUTBOX_POLL_INTERVAL_MS'' 30000 env of Inl e \<Rightarrow> Inl e | Inr poll \<Rightarrow>
        Inr \<lparr>or_batchSize = batch, or_maxAttempts = limit, or_lockTtlMs = ttl, or_pollIntervalMs = poll\<rparr>))))"

record cashback_retry_config =
  rc_scanIntervalMs :: rat
  rc_baseDelayMs :: rat
  rc_maxAutoRetries :: rat

definition getCashbackRetryConfig :: "process_env \<Rightarrow> config_error + cashback_retry_config" where
  "getCashbackRetryConfig env =
     (case getNumberEnv cashback_schema ''CASHBACK_RETRY_INTERVAL_MS'' 60000 env of Inl e \<Rightarrow> Inl e | Inr scanIntervalMs \<Rightarrow>
     (case getNumberEnv cashback_schema ''CASHBACK_RETRY_BASE_DELAY_MS'' 300000 env of Inl e \<Rightarrow> Inl e | Inr baseDelayMs \<Rightarrow>
     (case getNumberEnv cashback_schema ''CASHBACK_MAX_AUTO_RETRIES'' 5 env of Inl e \<Rightarrow> Inl e | Inr maxAutoRetries \<Rightarrow>
        Inr \<lparr>rc_scanIntervalMs = scanIntervalMs, rc_baseDelayMs = baseDelayMs, rc_maxAutoRetries = maxAutoRetries\<rparr>)))"

text \<open>Everything a service reads; the three files hold the same functions over their own schema.\<close>

type_synonym service_config =
  "(config_error + connection_config) \<times> (config_error + connection_config) \<times> (config_error + string \<times> rat) \<times>
   (config_error + outbox_runtime_config)"

definition read_config :: "env_schema \<Rightarrow> string \<Rightarrow> process_env \<Rightarrow> service_config" where
  "read_config schema databaseNameEnv env = (getPostgresConfig schema databaseNameEnv env, getRabbitMqConfig schema env,
     getRedisConfig schema env, getOutboxRuntimeConfig schema env)"

definition purchase_config :: "process_env \<Rightarrow> service_config" where
  "purchase_config = read_config purchase_schema ''PURCHASE_DATABASE_NAME''"

definition loyalty_config :: "process_env \<Rightarrow> service_config" where
  "loyalty_config = read_config loyalty_schema ''LOYALTY_DATABASE_NAME''"

definition cashback_config :: "process_env \<Rightarrow> service_config" where
  "cashback_config = read_config cashback_schema ''CASHBACK_DATABASE_NAME''"

section \<open>A validated environment\<close>

lemma validateEnv_None: "validateEnv schema env = None \<longleftrightarrow> list_all (\<lambda>(k, c). parse_entry c (env k) \<noteq> None) schema"
  by (simp add: validateEnv_def validateConfig_def)

lemma validateEnv_Some: "validateEnv schema env = Some e \<Longrightarrow> e = InvalidEnv"
  by (auto simp: validateEnv_def validateConfig_def split: if_splits sum.splits)

lemma validated_entry: "validateEnv schema env = None \<Longrightarrow> (k, c) \<in> set schema \<Longrightarrow> parse_entry c (env k) \<noteq> None"
  by (auto simp: validateEnv_None list_all_iff)

lemma required_ok:
  assumes "validateEnv schema env = None" and "(k, StringMin1) \<in> set schema"
  shows "\<exists>s. s \<noteq> [] \<and> env k = Some s \<and> getRequiredEnv schema k env = Inr s"
  using assms(1) validated_entry [OF assms]
  by (auto simp: getRequiredEnv_def truthy_def split: option.splits if_splits)

lemma positive_ok:
  assumes "validateEnv schema env = None" and "(k, PositiveInt d) \<in> set schema" and "0 < d"
  shows "\<exists>i > 0. getNumberEnv schema k (of_int d) env = Inr (of_int i) \<and> parse_entry (PositiveInt d) (env k) = Some (Some (EnvNumber i))"
proof (cases "env k")
  case None
  with assms show ?thesis by (auto simp: getNumberEnv_def truthy_def)
next
  case (Some s)
  with validated_entry [OF assms(1,2)] obtain i where i: "coerce_int s = Some i" "0 < i"
    by (auto split: option.splits if_splits)
  have "s \<noteq> []"
  proof
    assume "s = []"
    with i show False by (auto simp: coerce_int_def string_to_number_def trim_def split: if_splits)
  qed
  moreover have "string_to_number s = Fin (of_int i)"
    using i(1) by (auto simp: coerce_int_def split: jsnum.splits if_splits)
  ultimately show ?thesis using assms(1) Some i by (auto simp: getNumberEnv_def truthy_def)
qed

lemma required_in:
  "(''DATABASE_HOST'', StringMin1) \<in> set (service_schema p n d)" "(''DATABASE_USER'', StringMin1) \<in> set (service_schema p n d)"
  "(''DATABASE_PASSWORD'', StringMin1) \<in> set (service_schema p n d)" "(d, StringMin1) \<in> set (service_schema p n d)"
  "(''RABBITMQ_HOST'', StringMin1) \<in> set (service_schema p n d)" "(''RABBITMQ_USER'', StringMin1) \<in> set (service_schema p n d)"
  "(''RABBITMQ_PASSWORD'', StringMin1) \<in> set (service_schema p n d)" "(''REDIS_HOST'', StringMin1) \<in> set (service_schema p n d)"
  by (simp_all add: service_schema_def)

lemma positive_in:
  "(''DATABASE_PORT'', PositiveInt 5432) \<in> set (service_schema p n d)" "(''RABBITMQ_PORT'', PositiveInt 5672) \<in> set (service_schema p n d)"
  "(''REDIS_PORT'', PositiveInt 6379) \<in> set (service_schema p n d)" "(''OUTBOX_BATCH_SIZE'', PositiveInt 20) \<in> set (service_schema p n d)"
  "(''OUTBOX_MAX_ATTEMPTS'', PositiveInt 5) \<in> set (service_schema p n d)" "(''OUTBOX_LOCK_TTL_MS'', PositiveInt 5000) \<in> set (service_schema p n d)"
  "(''OUTBOX_POLL_INTERVAL_MS'', PositiveInt 30000) \<in> set (service_schema p n d)"
  by (simp_all add: service_schema_def)

lemma retry_in:
  "(''CASHBACK_RETRY_INTERVAL_MS'', PositiveInt 60000) \<in> set cashback_schema"
  "(''CASHBACK_RETRY_BASE_DELAY_MS'', PositiveInt 300000) \<in> set cashback_schema"
  "(''CASHBACK_MAX_AUTO_RETRIES'', NonnegativeInt 5) \<in> set cashback_schema"
  by (simp_all add: cashback_schema_def)

lemma nonnegative_ok:
  assumes "validateEnv schema env = None" and "(k, NonnegativeInt d) \<in> set schema" and "0 \<le> d"
  shows "\<exists>i \<ge> 0. getNumberEnv schema k (of_int d) env = Inr (of_int i)"
proof (cases "truthy (env k)")
  case True
  then obtain s where s: "env k = Some s" "s \<noteq> []" by (auto simp: truthy_def split: option.splits)
  with validated_entry [OF assms(1,2)] obtain i where "coerce_int s = Some i" "0 \<le> i"
    by (auto split: option.splits if_splits)
  moreover from this have "string_to_number s = Fin (of_int i)"
    by (auto simp: coerce_int_def split: jsnum.splits if_splits)
  ultimately show ?thesis using assms(1) s True by (auto simp: getNumberEnv_def)
qed (use assms in \<open>auto simp: getNumberEnv_def\<close>)

lemma invalid_readers:
  assumes "validateEnv schema env = Some e"
  shows "getRequiredEnv schema k env = Inl InvalidEnv" "getNumberEnv schema k f env = Inl InvalidEnv"
  using assms validateEnv_Some [OF assms] by (simp_all add: getRequiredEnv_def getNumberEnv_def)

definition positive_number :: "rat \<Rightarrow> bool" where
  "positive_number q \<longleftrightarrow> (\<exists>i > 0. q = of_int i)"

text \<open>What a service asks of a schema: the variables its readers name, under the checks they rely on.\<close>

lemma postgres_ok:
  assumes "validateEnv schema env = None" and "set (service_schema p n d) \<subseteq> set schema"
  shows "\<exists>c. getPostgresConfig schema d env = Inr c \<and> positive_number (cc_port c) \<and> cc_host c \<noteq> [] \<and> cc_username c \<noteq> []"
proof -
  note req = required_ok [OF assms(1) subsetD [OF assms(2)]] and num = positive_ok [OF assms(1) subsetD [OF assms(2)]]
  from req [OF required_in(1)] req [OF required_in(2)] req [OF required_in(3)] req [OF required_in(4)] num [OF positive_in(1)]
  show ?thesis by (auto simp: getPostgresConfig_def positive_number_def)
qed

lemma rabbit_redis_ok:
  assumes "validateEnv schema env = None" and "set (service_schema p n d) \<subseteq> set schema"
  shows "\<exists>c. getRabbitMqConfig schema env = Inr c \<and> positive_number (cc_port c) \<and> cc_host c \<noteq> [] \<and> cc_username c \<noteq> []"
    and "\<exists>host port. getRedisConfig schema env = Inr (host, port) \<and> positive_number port \<and> host \<noteq> []"
proof -
  note req = required_ok [OF assms(1) subsetD [OF assms(2)]] and num = positive_ok [OF assms(1) subsetD [OF assms(2)]]
  from req [OF required_in(5)] req [OF required_in(6)] req [OF required_in(7)] num [OF positive_in(2)]
  show "\<exists>c. getRabbitMqConfig schema env = Inr c \<and> positive_number (cc_port c) \<and> cc_host c \<noteq> [] \<and> cc_username c \<noteq> []"
    by (auto simp: getRabbitMqConfig_def positive_number_def)
  from req [OF required_in(8)] num [OF positive_in(3)]
  show "\<exists>host port. getRedisConfig schema env = Inr (host, port) \<and> positive_number port \<and> host \<noteq> []"
    by (auto simp: getRedisConfig_def positive_number_def)
qed

lemma outbox_config_ok:
  assumes "validateEnv schema env = None" and "set (service_schema p n d) \<subseteq> set schema"
  shows "\<exists>c. getOutboxRuntimeConfig schema env = Inr c \<and> positive_number (or_batchSize c) \<and> positive_number (or_maxAttempts c)
    \<and> positive_number (or_lockTtlMs c) \<and> positive_number (or_pollIntervalMs c)"
proof -
  note num = positive_ok [OF assms(1) subsetD [OF assms(2)]]
  from num [OF positive_in(4)] num [OF positive_in(5)] num [OF positive_in(6)] num [OF positive_in(7)]
  show ?thesis by (auto simp: getOutboxRuntimeConfig_def positive_number_def)
qed

lemma retry_config_ok:
  assumes "validateEnv cashback_schema env = None"
  shows "\<exists>c i. getCashbackRetryConfig env = Inr c \<and> positive_number (rc_scanIntervalMs c) \<and> positive_number (rc_baseDelayMs c)
    \<and> 0 \<le> i \<and> rc_maxAutoRetries c = of_int i"
  using positive_ok [OF assms retry_in(1)] positive_ok [OF assms retry_in(2)] nonnegative_ok [OF assms retry_in(3)]
  by (auto simp: getCashbackRetryConfig_def positive_number_def)

lemma invalid_configs:
  assumes "validateEnv schema env = Some e"
  shows "getPostgresConfig schema d env = Inl InvalidEnv" "getRabbitMqConfig schema env = Inl InvalidEnv"
    "getRedisConfig schema env = Inl InvalidEnv" "getOutboxRuntimeConfig schema env = Inl InvalidEnv"
    "schema = cashback_schema \<Longrightarrow> getCashbackRetryConfig env = Inl InvalidEnv"
  using invalid_readers [OF assms]
  by (simp_all add: getPostgresConfig_def getRabbitMqConfig_def getRedisConfig_def getOutboxRuntimeConfig_def getCashbackRetryConfig_def)

text \<open>The services with their schema.\<close>

definition services :: "(env_schema \<times> (process_env \<Rightarrow> service_config)) list" where
  "services = [(purchase_schema, purchase_config), (loyalty_schema, loyalty_config), (cashback_schema, cashback_config)]"

lemma services_read:
  assumes "(schema, config) \<in> set services"
  obtains p n d where "set (service_schema p n d) \<subseteq> set schema" and "config = read_config schema d"
proof -
  have "set (service_schema ''CASHBACK_SERVICE_PORT'' 3004 ''CASHBACK_DATABASE_NAME'') \<subseteq> set cashback_schema"
    by (auto simp: cashback_schema_def)
  moreover have "set (service_schema ''PURCHASE_SERVICE_PORT'' 3001 ''PURCHASE_DATABASE_NAME'') \<subseteq> set purchase_schema"
    "set (service_schema ''LOYALTY_SERVICE_PORT'' 3002 ''LOYALTY_DATABASE_NAME'') \<subseteq> set loyalty_schema"
    by (simp_all add: purchase_schema_def loyalty_schema_def)
  moreover have "(schema, config) = (purchase_schema, purchase_config) \<or> (schema, config) = (loyalty_schema, loyalty_config)
      \<or> (schema, config) = (cashback_schema, cashback_config)" using assms by (simp add: services_def)
  ultimately show thesis using that purchase_config_def loyalty_config_def cashback_config_def by blast
qed

text \<open>
  C39. The environment is checked as a whole, and then nothing can be missing: when the validation of a
  service's environment succeeds, every configuration object it reads later exists, with non-empty hosts and
  users, and ports, batch size, attempt limit, lock lifetime, intervals and delays that are positive
  integers, the number of automatic retries a natural number. When the validation fails, every reader
  throws, also one whose own variables are fine.
\<close>

theorem config_all_or_nothing:
  assumes "(schema, config) \<in> set services"
  shows "if validateEnv schema env = None
    then (\<exists>pg mq host port ob. config env = (Inr pg, Inr mq, Inr (host, port), Inr ob)
            \<and> list_all positive_number [cc_port pg, cc_port mq, port, or_batchSize ob, or_maxAttempts ob, or_lockTtlMs ob, or_pollIntervalMs ob]
            \<and> [] \<notin> {cc_host pg, cc_username pg, cc_host mq, cc_username mq, host})
      \<and> (schema = cashback_schema \<longrightarrow> (\<exists>rc i. getCashbackRetryConfig env = Inr rc
            \<and> list_all positive_number [rc_scanIntervalMs rc, rc_baseDelayMs rc] \<and> 0 \<le> i \<and> rc_maxAutoRetries rc = of_int i))
    else config env = (Inl InvalidEnv, Inl InvalidEnv, Inl InvalidEnv, Inl InvalidEnv)
      \<and> (schema = cashback_schema \<longrightarrow> getCashbackRetryConfig env = Inl InvalidEnv)"
proof -
  obtain p n d where sub: "set (service_schema p n d) \<subseteq> set schema" and config: "config = read_config schema d"
    by (rule services_read [OF assms])
  show ?thesis
  proof (cases "validateEnv schema env")
    case None
    note ok = postgres_ok [OF None sub] rabbit_redis_ok [OF None sub] outbox_config_ok [OF None sub]
    have "schema = cashback_schema \<longrightarrow> (\<exists>rc i. getCashbackRetryConfig env = Inr rc
        \<and> list_all positive_number [rc_scanIntervalMs rc, rc_baseDelayMs rc] \<and> 0 \<le> i \<and> rc_maxAutoRetries rc = of_int i)"
      using retry_config_ok [of env] None by fastforce
    with ok None show ?thesis by (fastforce simp: config read_config_def)
  next
    case (Some e)
    with invalid_configs [OF Some] show ?thesis by (simp add: config read_config_def)
  qed
qed

definition sample_env :: process_env where
  "sample_env = map_of
     [(''RABBITMQ_HOST'', ''mq''), (''RABBITMQ_USER'', ''u''), (''RABBITMQ_PASSWORD'', ''p''), (''REDIS_HOST'', ''redis''),
      (''DATABASE_HOST'', ''db''), (''DATABASE_USER'', ''u''), (''DATABASE_PASSWORD'', ''p''), (''CASHBACK_DATABASE_NAME'', ''cashback'')]"

theorem config_all_or_nothing_witness:
  "validateEnv cashback_schema sample_env = None \<and> (\<exists>c. getCashbackRetryConfig sample_env = Inr c \<and> positive_number (rc_baseDelayMs c))
   \<and> cashback_config (sample_env(''RABBITMQ_USER'' := None)) = (Inl InvalidEnv, Inl InvalidEnv, Inl InvalidEnv, Inl InvalidEnv)"
proof -
  have mem: "(cashback_schema, cashback_config) \<in> set services" by (simp add: services_def)
  have ok: "validateEnv cashback_schema sample_env = None" by code_simp
  have bad: "validateEnv cashback_schema (sample_env(''RABBITMQ_USER'' := None)) \<noteq> None" by code_simp
  show ?thesis
    using config_all_or_nothing [OF mem, of sample_env] config_all_or_nothing [OF mem, of "sample_env(''RABBITMQ_USER'' := None)"] ok bad
    by auto
qed

text \<open>
  An empty \<open>CASHBACK_MAX_AUTO_RETRIES\<close> passes the validation as 0, which switches the automatic retries off,
  but is read as the default of 5.
\<close>

lemma empty_retry_limit_read_as_default:
  assumes "validateEnv cashback_schema env = None" and "env ''CASHBACK_MAX_AUTO_RETRIES'' = Some []"
  shows "parse_entry (NonnegativeInt 5) (env ''CASHBACK_MAX_AUTO_RETRIES'') = Some (Some (EnvNumber 0))"
    and "getNumberEnv cashback_schema ''CASHBACK_MAX_AUTO_RETRIES'' 5 env = Inr 5"
  using assms by (simp_all add: getNumberEnv_def truthy_def coerce_int_def string_to_number_def trim_def MAX_SAFE_INTEGER_def)

section \<open>The list of allowed origins\<close>

fun csv :: "string list \<Rightarrow> string" where
  "csv [] = []"
| "csv [x] = x"
| "csv (x # y # ys) = x @ CHR '','' # csv (y # ys)"

lemma split_on_none: "sep \<notin> set x \<Longrightarrow> split_on sep x = [x]"
  by (induction x) auto

lemma split_on_first: "sep \<notin> set x \<Longrightarrow> split_on sep (x @ sep # rest) = x # split_on sep rest"
  by (induction x) auto

lemma split_on_csv:
  "xs \<noteq> [] \<Longrightarrow> list_all (\<lambda>x. CHR '','' \<notin> set x) xs \<Longrightarrow> split_on (CHR '','') (csv xs) = xs"
  by (induction xs rule: csv.induct) (auto simp: split_on_none split_on_first)

text \<open>
  The origins come back as they were written: a list of non-empty entries without commas and outer
  blanks, joined by commas, is read as that list.
\<close>

theorem origins_roundtrip:
  assumes "validateEnv gateway_schema env = None"
    and "list_all (\<lambda>x. x \<noteq> [] \<and> CHR '','' \<notin> set x \<and> trim x = x) xs"
    and "env ''GATEWAY_CORS_ORIGINS'' = Some (csv xs)"
  shows "getCsvEnv gateway_schema ''GATEWAY_CORS_ORIGINS'' env = Inr xs"
proof (cases "xs = []")
  case True
  with assms show ?thesis by (simp add: getCsvEnv_def trim_def)
next
  case False
  then have "split_on (CHR '','') (csv xs) = xs" using assms(2) by (intro split_on_csv) (auto simp: list_all_iff)
  moreover have "map trim xs = xs" using assms(2) by (intro map_idI) (auto simp: list_all_iff)
  moreover have "filter (\<lambda>v. v \<noteq> []) xs = xs" using assms(2) by (auto simp: list_all_iff intro: filter_True)
  ultimately show ?thesis using assms(1,3) by (simp add: getCsvEnv_def)
qed

theorem origins_roundtrip_witness:
  "getCsvEnv gateway_schema ''GATEWAY_CORS_ORIGINS'' [''GATEWAY_CORS_ORIGINS'' \<mapsto> ''https://a.ng,https://b.ng''] =
     Inr [''https://a.ng'', ''https://b.ng'']"
proof (rule origins_roundtrip)
  show "validateEnv gateway_schema [''GATEWAY_CORS_ORIGINS'' \<mapsto> ''https://a.ng,https://b.ng''] = None" by code_simp
  show "list_all (\<lambda>x. x \<noteq> [] \<and> CHR '','' \<notin> set x \<and> trim x = x) [''https://a.ng'', ''https://b.ng'']" by code_simp
  show "[''GATEWAY_CORS_ORIGINS'' \<mapsto> ''https://a.ng,https://b.ng''] ''GATEWAY_CORS_ORIGINS'' = Some (csv [''https://a.ng'', ''https://b.ng''])"
    by code_simp
qed

end
