(* ===== verification/Migrations.thy ===== *)
theory Migrations
  imports Loyalty_Schema
begin

text \<open>
  The \<open>migrations\<close> of the purchase, loyalty and cashback service and the tables their \<open>entities\<close> declare. A
  migration is the list of the statements its \<open>up\<close> or \<open>down\<close> issues; \<open>perform\<close> runs a statement on the
  schema of a PostgreSQL database and fails where the server or the query runner does. Only \<open>AddAchievementGroups\<close> also writes rows: the statement \<open>InsertGroups\<close> stands for its query,
  and \<open>backfill_groups\<close> is what the query does to the rows.
\<close>

section \<open>Schemas\<close>

datatype column_type = Varchar | Text_Type | Integer_Type | Jsonb | Boolean_Type | Timestamptz

text \<open>Column defaults: a literal, \<open>now()\<close>, or \<open>'[]'::jsonb\<close>.\<close>

datatype default_value = DText string | DNumber int | DBool bool | DNow | DEmptyArray

record column =
  col_name :: string
  col_type :: column_type
  col_primary :: bool
  col_nullable :: bool
  col_default :: "default_value option"

record foreign_key =
  fk_name :: string
  fk_column :: string
  fk_table :: string
  fk_target :: string
  fk_cascade :: bool

record table_schema =
  ts_columns :: "column list"
  ts_uniques :: "(string \<times> string list) list"
  ts_indices :: "(string \<times> string list \<times> bool) list"
  ts_fks :: "foreign_key list"

type_synonym schema = "(string \<times> table_schema) list"

definition column_in :: "string \<Rightarrow> column_type \<Rightarrow> column" where
  "column_in n t = \<lparr>col_name = n, col_type = t, col_primary = False, col_nullable = False, col_default = None\<rparr>"

definition primary :: "string \<Rightarrow> column" where
  "primary n = (column_in n Varchar)\<lparr>col_primary := True\<rparr>"

definition nullable :: "string \<Rightarrow> column_type \<Rightarrow> column" where
  "nullable n t = (column_in n t)\<lparr>col_nullable := True\<rparr>"

definition defaulted :: "string \<Rightarrow> column_type \<Rightarrow> default_value \<Rightarrow> column" where
  "defaulted n t d = (column_in n t)\<lparr>col_default := Some d\<rparr>"

section \<open>Statements\<close>

datatype statement =
    CreateTable string "column list" "(string \<times> string list) list"
  | DropTable string
  | AddColumn string column
  | DropColumn string string
  | CreateIndex string string "string list" bool
  | DropIndex string string
  | CreateForeignKey string foreign_key
  | DropForeignKey string string
  | CreateUnique string string "string list"
  | DropUnique string string
  | InsertGroups
  | UnlessColumn string string statement
  | WhenColumn string string statement
  | UnlessIndex string string statement
  | WhenIndex string string statement

definition has_column :: "string \<Rightarrow> string \<Rightarrow> schema \<Rightarrow> bool" where
  "has_column t c s = (case map_of s t of Some ts \<Rightarrow> c \<in> set (map col_name (ts_columns ts)) | None \<Rightarrow> False)"

definition has_index :: "string \<Rightarrow> string \<Rightarrow> schema \<Rightarrow> bool" where
  "has_index t i s = (case map_of s t of Some ts \<Rightarrow> i \<in> set (map fst (ts_indices ts)) | None \<Rightarrow> False)"

text \<open>Change one table; a table that is not there is an error.\<close>

definition alter :: "string \<Rightarrow> (table_schema \<Rightarrow> table_schema option) \<Rightarrow> schema \<Rightarrow> schema option" where
  "alter t f s = (case map_of s t of
     None \<Rightarrow> None
   | Some ts \<Rightarrow> (case f ts of None \<Rightarrow> None | Some ts' \<Rightarrow> Some (map (\<lambda>(n, x). (n, if n = t then ts' else x)) s)))"

text \<open>
  \<open>dropColumn\<close> also removes what refers to the column; \<open>dropTable\<close> with \<open>ifExist\<close> ignores a missing table,
  and PostgreSQL refuses to drop a table another one refers to.
\<close>

definition drop_column :: "string \<Rightarrow> table_schema \<Rightarrow> table_schema" where
  "drop_column c ts = ts\<lparr>ts_columns := filter (\<lambda>x. col_name x \<noteq> c) (ts_columns ts),
     ts_uniques := filter (\<lambda>(_, cs). c \<notin> set cs) (ts_uniques ts), ts_indices := filter (\<lambda>(_, cs, _). c \<notin> set cs) (ts_indices ts),
     ts_fks := filter (\<lambda>f. fk_column f \<noteq> c) (ts_fks ts)\<rparr>"

definition referenced :: "string \<Rightarrow> schema \<Rightarrow> bool" where
  "referenced t s = list_ex (\<lambda>(n, ts). n \<noteq> t \<and> list_ex (\<lambda>f. fk_table f = t) (ts_fks ts)) s"

definition is_unique :: "string \<Rightarrow> table_schema \<Rightarrow> bool" where
  "is_unique c ts \<longleftrightarrow> list_ex (\<lambda>x. col_name x = c \<and> col_primary x) (ts_columns ts) \<or> list_ex (\<lambda>(_, cs). cs = [c]) (ts_uniques ts)"

fun perform :: "statement \<Rightarrow> schema \<Rightarrow> schema option" where
  "perform (CreateTable t cols uqs) s =
     (if map_of s t \<noteq> None then Some s
      else if list_all (\<lambda>(_, cs). list_all (\<lambda>c. c \<in> set (map col_name cols)) cs) uqs
      then Some (s @ [(t, \<lparr>ts_columns = cols, ts_uniques = uqs, ts_indices = [], ts_fks = []\<rparr>)]) else None)"
| "perform (DropTable t) s =
     (if map_of s t = None then Some s else if referenced t s then None else Some (filter (\<lambda>(n, _). n \<noteq> t) s))"
| "perform (AddColumn t c) s = alter t (\<lambda>ts.
     if col_name c \<in> set (map col_name (ts_columns ts)) then None else Some (ts\<lparr>ts_columns := ts_columns ts @ [c]\<rparr>)) s"
| "perform (DropColumn t c) s = alter t (\<lambda>ts.
     if c \<notin> set (map col_name (ts_columns ts)) then None else Some (drop_column c ts)) s"
| "perform (CreateIndex t i cs u) s = alter t (\<lambda>ts.
     if i \<in> set (map fst (ts_indices ts)) \<or> \<not> list_all (\<lambda>c. c \<in> set (map col_name (ts_columns ts))) cs then None
     else Some (ts\<lparr>ts_indices := ts_indices ts @ [(i, cs, u)]\<rparr>)) s"
| "perform (DropIndex t i) s = alter t (\<lambda>ts.
     if i \<notin> set (map fst (ts_indices ts)) then None else Some (ts\<lparr>ts_indices := filter (\<lambda>x. fst x \<noteq> i) (ts_indices ts)\<rparr>)) s"
| "perform (CreateForeignKey t f) s = alter t (\<lambda>ts.
     case map_of s (fk_table f) of
       None \<Rightarrow> None
     | Some target \<Rightarrow>
         if fk_name f \<in> set (map fk_name (ts_fks ts)) \<or> fk_column f \<notin> set (map col_name (ts_columns ts)) \<or> \<not> is_unique (fk_target f) target
         then None else Some (ts\<lparr>ts_fks := ts_fks ts @ [f]\<rparr>)) s"
| "perform (DropForeignKey t n) s = alter t (\<lambda>ts.
     if n \<notin> set (map fk_name (ts_fks ts)) then None else Some (ts\<lparr>ts_fks := filter (\<lambda>f. fk_name f \<noteq> n) (ts_fks ts)\<rparr>)) s"
| "perform (CreateUnique t n cs) s = alter t (\<lambda>ts.
     if n \<in> set (map fst (ts_uniques ts)) \<or> \<not> list_all (\<lambda>c. c \<in> set (map col_name (ts_columns ts))) cs then None
     else Some (ts\<lparr>ts_uniques := ts_uniques ts @ [(n, cs)]\<rparr>)) s"
| "perform (DropUnique t n) s = alter t (\<lambda>ts.
     if n \<notin> set (map fst (ts_uniques ts)) then None else Some (ts\<lparr>ts_uniques := filter (\<lambda>x. fst x \<noteq> n) (ts_uniques ts)\<rparr>)) s"
| "perform InsertGroups s =
     (if has_column ''achievement_configs'' ''groupKey'' s \<and> list_all (\<lambda>c. has_column ''achievement_groups'' c s) [''key'', ''name'', ''sortOrder'']
      then Some s else None)"
| "perform (UnlessColumn t c st) s = (if has_column t c s then Some s else perform st s)"
| "perform (WhenColumn t c st) s = (if has_column t c s then perform st s else Some s)"
| "perform (UnlessIndex t i st) s = (if map_of s t = None \<or> has_index t i s then Some s else perform st s)"
| "perform (WhenIndex t i st) s = (if has_index t i s then perform st s else Some s)"

fun perform_all :: "statement list \<Rightarrow> schema \<Rightarrow> schema option" where
  "perform_all [] s = Some s"
| "perform_all (st # sts) s = (case perform st s of Some s' \<Rightarrow> perform_all sts s' | None \<Rightarrow> None)"

record migration =
  mig_up :: "statement list"
  mig_down :: "statement list"

section \<open>The migrations\<close>

definition timestamps :: "column list" where
  "timestamps = [defaulted ''createdAt'' Timestamptz DNow, defaulted ''updatedAt'' Timestamptz DNow]"

definition create_outbox :: statement where
  "create_outbox = CreateTable ''outbox_events''
     [primary ''id'', column_in ''eventType'' Varchar, column_in ''routingKey'' Varchar, column_in ''payload'' Jsonb,
      defaulted ''status'' Varchar (DText ''PENDING''), defaulted ''attempts'' Integer_Type (DNumber 0), nullable ''lastError'' Text_Type,
      defaulted ''createdAt'' Timestamptz DNow, nullable ''publishedAt'' Timestamptz] []"

definition create_processed :: statement where
  "create_processed = CreateTable ''processed_events''
     [primary ''eventId'', column_in ''consumer'' Varchar, defaulted ''processedAt'' Timestamptz DNow] []"

definition CreatePurchaseSchema :: migration where
  "CreatePurchaseSchema =
     \<lparr>mig_up =
        [CreateTable ''users'' ([primary ''id'', column_in ''email'' Varchar, column_in ''name'' Varchar,
            nullable ''bankAccountNumber'' Varchar, nullable ''bankCode'' Varchar] @ timestamps) [(''UQ_users_email'', [''email''])],
         CreateTable ''purchases'' [primary ''id'', column_in ''userId'' Varchar, column_in ''amountKobo'' Integer_Type,
            defaulted ''createdAt'' Timestamptz DNow] [],
         CreateForeignKey ''purchases'' \<lparr>fk_name = ''FK_purchases_userId_users_id'', fk_column = ''userId'', fk_table = ''users'',
            fk_target = ''id'', fk_cascade = True\<rparr>,
         create_outbox],
      mig_down = [DropTable ''outbox_events'', DropTable ''purchases'', DropTable ''users'']\<rparr>"

definition AddPurchaseIdempotencyKey :: migration where
  "AddPurchaseIdempotencyKey =
     \<lparr>mig_up = [AddColumn ''purchases'' (nullable ''idempotencyKey'' Varchar),
                CreateUnique ''purchases'' ''UQ_purchases_idempotencyKey'' [''idempotencyKey'']],
      mig_down = [DropUnique ''purchases'' ''UQ_purchases_idempotencyKey'', DropColumn ''purchases'' ''idempotencyKey'']\<rparr>"

definition DropUsersEmailUnique :: migration where
  "DropUsersEmailUnique =
     \<lparr>mig_up = [DropUnique ''users'' ''UQ_users_email''], mig_down = [CreateUnique ''users'' ''UQ_users_email'' [''email'']]\<rparr>"

definition CreateLoyaltySchema :: migration where
  "CreateLoyaltySchema =
     \<lparr>mig_up =
        [CreateTable ''achievement_configs'' ([primary ''id'', column_in ''name'' Varchar, defaulted ''description'' Text_Type (DText []),
            column_in ''groupKey'' Varchar, column_in ''sortOrder'' Integer_Type, column_in ''rule'' Jsonb, nullable ''imageUrl'' Varchar,
            defaulted ''active'' Boolean_Type (DBool True)] @ timestamps) [(''UQ_achievement_configs_name'', [''name''])],
         CreateTable ''badge_configs'' ([primary ''id'', column_in ''name'' Varchar, defaulted ''description'' Text_Type (DText []),
            column_in ''sortOrder'' Integer_Type, column_in ''requiredAchievementCount'' Integer_Type, defaulted ''requiredAchievementIds'' Jsonb DEmptyArray,
            defaulted ''rewardAmountKobo'' Integer_Type (DNumber 30000), defaulted ''rewardCurrency'' Varchar (DText ''NGN''), nullable ''imageUrl'' Varchar,
            defaulted ''active'' Boolean_Type (DBool True)] @ timestamps) [(''UQ_badge_configs_name'', [''name''])],
         CreateTable ''user_projections'' ([primary ''id'', column_in ''email'' Varchar, column_in ''name'' Varchar,
            nullable ''bankAccountNumber'' Varchar, nullable ''bankCode'' Varchar] @ timestamps) [],
         CreateTable ''user_stats'' [primary ''userId'', defaulted ''purchaseCount'' Integer_Type (DNumber 0), defaulted ''totalSpendKobo'' Integer_Type (DNumber 0),
            defaulted ''updatedAt'' Timestamptz DNow] [],
         CreateTable ''user_achievements'' [primary ''id'', column_in ''userId'' Varchar, column_in ''achievementId'' Varchar,
            defaulted ''unlockedAt'' Timestamptz DNow] [(''UQ_user_achievements_user_achievement'', [''userId'', ''achievementId''])],
         CreateIndex ''user_achievements'' ''IDX_user_achievements_userId'' [''userId''] False,
         CreateForeignKey ''user_achievements'' \<lparr>fk_name = ''FK_user_achievements_achievementId'', fk_column = ''achievementId'',
            fk_table = ''achievement_configs'', fk_target = ''id'', fk_cascade = True\<rparr>,
         CreateTable ''user_badges'' [primary ''id'', column_in ''userId'' Varchar, column_in ''badgeId'' Varchar,
            defaulted ''unlockedAt'' Timestamptz DNow] [(''UQ_user_badges_user_badge'', [''userId'', ''badgeId''])],
         CreateIndex ''user_badges'' ''IDX_user_badges_userId'' [''userId''] False,
         CreateForeignKey ''user_badges'' \<lparr>fk_name = ''FK_user_badges_badgeId'', fk_column = ''badgeId'', fk_table = ''badge_configs'',
            fk_target = ''id'', fk_cascade = True\<rparr>,
         create_processed, create_outbox],
      mig_down = map DropTable [''outbox_events'', ''processed_events'', ''user_badges'', ''user_achievements'', ''user_stats'',
            ''user_projections'', ''badge_configs'', ''achievement_configs'']\<rparr>"

definition AddBadgeAchievementRequirements :: migration where
  "AddBadgeAchievementRequirements =
     \<lparr>mig_up = [UnlessColumn ''badge_configs'' ''requiredAchievementIds''
        (AddColumn ''badge_configs'' (defaulted ''requiredAchievementIds'' Jsonb DEmptyArray))],
      mig_down = [WhenColumn ''badge_configs'' ''requiredAchievementIds'' (DropColumn ''badge_configs'' ''requiredAchievementIds'')]\<rparr>"

definition AddConfigDisplayFields :: migration where
  "AddConfigDisplayFields =
     \<lparr>mig_up =
        [UnlessColumn ''achievement_configs'' ''description'' (AddColumn ''achievement_configs'' (defaulted ''description'' Text_Type (DText []))),
         UnlessColumn ''badge_configs'' ''description'' (AddColumn ''badge_configs'' (defaulted ''description'' Text_Type (DText []))),
         UnlessColumn ''badge_configs'' ''rewardAmountKobo'' (AddColumn ''badge_configs'' (defaulted ''rewardAmountKobo'' Integer_Type (DNumber 30000))),
         UnlessColumn ''badge_configs'' ''rewardCurrency'' (AddColumn ''badge_configs'' (defaulted ''rewardCurrency'' Varchar (DText ''NGN'')))],
      mig_down =
        [WhenColumn ''badge_configs'' ''rewardCurrency'' (DropColumn ''badge_configs'' ''rewardCurrency''),
         WhenColumn ''badge_configs'' ''rewardAmountKobo'' (DropColumn ''badge_configs'' ''rewardAmountKobo''),
         WhenColumn ''badge_configs'' ''description'' (DropColumn ''badge_configs'' ''description''),
         WhenColumn ''achievement_configs'' ''description'' (DropColumn ''achievement_configs'' ''description'')]\<rparr>"

definition AddAchievementBadgeIndexes :: migration where
  "AddAchievementBadgeIndexes =
     \<lparr>mig_up =
        [UnlessIndex ''achievement_configs'' ''IDX_achievement_configs_groupKey_sortOrder''
           (CreateIndex ''achievement_configs'' ''IDX_achievement_configs_groupKey_sortOrder'' [''groupKey'', ''sortOrder''] False),
         UnlessIndex ''badge_configs'' ''IDX_badge_configs_sortOrder''
           (CreateIndex ''badge_configs'' ''IDX_badge_configs_sortOrder'' [''sortOrder''] False)],
      mig_down =
        [WhenIndex ''badge_configs'' ''IDX_badge_configs_sortOrder'' (DropIndex ''badge_configs'' ''IDX_badge_configs_sortOrder''),
         WhenIndex ''achievement_configs'' ''IDX_achievement_configs_groupKey_sortOrder''
           (DropIndex ''achievement_configs'' ''IDX_achievement_configs_groupKey_sortOrder'')]\<rparr>"

definition AddAchievementGroups :: migration where
  "AddAchievementGroups =
     \<lparr>mig_up =
        [CreateTable ''achievement_groups'' ([primary ''key'', column_in ''name'' Varchar, defaulted ''sortOrder'' Integer_Type (DNumber 0)] @ timestamps) [],
         InsertGroups,
         CreateForeignKey ''achievement_configs'' \<lparr>fk_name = ''FK_achievement_configs_groupKey_achievement_groups_key'',
            fk_column = ''groupKey'', fk_table = ''achievement_groups'', fk_target = ''key'', fk_cascade = False\<rparr>],
      mig_down = [DropForeignKey ''achievement_configs'' ''FK_achievement_configs_groupKey_achievement_groups_key'',
                  DropTable ''achievement_groups'']\<rparr>"

definition CreateCashbackSchema :: migration where
  "CreateCashbackSchema =
     \<lparr>mig_up =
        [CreateTable ''cashback_transactions'' ([primary ''id'', column_in ''userId'' Varchar, column_in ''badgeName'' Varchar,
            column_in ''amountKobo'' Integer_Type, defaulted ''status'' Varchar (DText ''PENDING''), column_in ''provider'' Varchar,
            nullable ''providerReference'' Varchar, nullable ''providerRecipientCode'' Varchar, nullable ''correlationId'' Varchar,
            nullable ''failureReason'' Text_Type] @ timestamps) [(''UQ_cashback_transactions_user_badge'', [''userId'', ''badgeName''])],
         CreateIndex ''cashback_transactions'' ''IDX_cashback_transactions_status'' [''status''] False,
         CreateIndex ''cashback_transactions'' ''IDX_cashback_transactions_providerReference'' [''providerReference''] False,
         CreateTable ''payout_accounts'' ([primary ''id'', column_in ''userId'' Varchar, column_in ''userName'' Varchar,
            column_in ''bankAccountNumber'' Varchar, column_in ''bankCode'' Varchar, column_in ''provider'' Varchar,
            nullable ''providerRecipientCode'' Varchar] @ timestamps) [],
         CreateIndex ''payout_accounts'' ''IDX_payout_accounts_userId_unique'' [''userId''] True,
         create_processed, create_outbox],
      mig_down = map DropTable [''outbox_events'', ''processed_events'', ''payout_accounts'', ''cashback_transactions'']\<rparr>"

definition AddCashbackRetryTracking :: migration where
  "AddCashbackRetryTracking =
     \<lparr>mig_up =
        map (AddColumn ''cashback_transactions'') [nullable ''failureCode'' Varchar, nullable ''retryable'' Boolean_Type,
            defaulted ''retryCount'' Integer_Type (DNumber 0), nullable ''nextRetryAt'' Timestamptz]
        @ [CreateIndex ''cashback_transactions'' ''IDX_cashback_transactions_retry_scan'' [''status'', ''retryable'', ''nextRetryAt''] False],
      mig_down =
        DropIndex ''cashback_transactions'' ''IDX_cashback_transactions_retry_scan''
        # map (DropColumn ''cashback_transactions'') [''failureCode'', ''retryable'', ''retryCount'', ''nextRetryAt'']\<rparr>"

definition purchase_migrations :: "migration list" where
  "purchase_migrations = [CreatePurchaseSchema, AddPurchaseIdempotencyKey, DropUsersEmailUnique]"

definition loyalty_migrations :: "migration list" where
  "loyalty_migrations = [CreateLoyaltySchema, AddBadgeAchievementRequirements, AddConfigDisplayFields, AddAchievementBadgeIndexes,
     AddAchievementGroups]"

definition cashback_migrations :: "migration list" where
  "cashback_migrations = [CreateCashbackSchema, AddCashbackRetryTracking]"

definition migrate :: "migration list \<Rightarrow> schema \<Rightarrow> schema option" where
  "migrate ms = perform_all (concat (map mig_up ms))"

definition rollback :: "migration list \<Rightarrow> schema \<Rightarrow> schema option" where
  "rollback ms = perform_all (concat (map mig_down (rev ms)))"

section \<open>The rows \<open>AddAchievementGroups\<close> inserts\<close>

definition group_name :: "string \<Rightarrow> string" where
  "group_name k = (if k = ''purchases'' then ''Purchases'' else if k = ''spend'' then ''Spend''
     else if k = ''milestones'' then ''Milestones'' else k)"

definition group_sortOrder :: "string \<Rightarrow> int" where
  "group_sortOrder k = (if k = ''purchases'' then 1 else if k = ''spend'' then 2 else if k = ''milestones'' then 3 else 0)"

text \<open>\<open>SELECT DISTINCT ... ON CONFLICT (key) DO NOTHING\<close>: one row for each key that has none yet.\<close>

definition backfill_groups :: "achievement_config list \<Rightarrow> achievement_group list \<Rightarrow> achievement_group list" where
  "backfill_groups configs groups = groups @
     map (\<lambda>k. \<lparr>ag_key = k, ag_name = group_name k, ag_sortOrder = group_sortOrder k\<rparr>)
       (filter (\<lambda>k. k \<notin> ag_key ` set groups) (remdups (map ac_groupKey configs)))"

section \<open>The entities\<close>

text \<open>
  What a service's entities say of their tables: the type of the field, whether it may be absent, whether the
  database supplies a value, the combinations declared unique and the relations. Every \<open>@CreateDateColumn\<close> and
  \<open>@UpdateDateColumn\<close> is supplied by the database.
\<close>

datatype field_kind = A_String | A_Number | A_Boolean | A_Date | A_Json

record entity_field =
  ef_name :: string
  ef_kind :: field_kind
  ef_primary :: bool
  ef_optional :: bool
  ef_default :: "default_value option"

record entity =
  en_table :: string
  en_fields :: "entity_field list"
  en_uniques :: "string list list"
  en_parents :: "(string \<times> string) list"

definition field_in :: "string \<Rightarrow> field_kind \<Rightarrow> entity_field" where
  "field_in n k = \<lparr>ef_name = n, ef_kind = k, ef_primary = False, ef_optional = False, ef_default = None\<rparr>"

definition primary_field :: "string \<Rightarrow> entity_field" where
  "primary_field n = (field_in n A_String)\<lparr>ef_primary := True\<rparr>"

definition optional_field :: "string \<Rightarrow> field_kind \<Rightarrow> entity_field" where
  "optional_field n k = (field_in n k)\<lparr>ef_optional := True\<rparr>"

definition default_field :: "string \<Rightarrow> field_kind \<Rightarrow> default_value \<Rightarrow> entity_field" where
  "default_field n k d = (field_in n k)\<lparr>ef_default := Some d\<rparr>"

definition date_fields :: "entity_field list" where
  "date_fields = [default_field ''createdAt'' A_Date DNow, default_field ''updatedAt'' A_Date DNow]"

definition OutboxEvent_entity :: entity where
  "OutboxEvent_entity = \<lparr>en_table = ''outbox_events'',
     en_fields = [primary_field ''id'', field_in ''eventType'' A_String, field_in ''routingKey'' A_String, field_in ''payload'' A_Json,
       default_field ''status'' A_String (DText ''PENDING''), default_field ''attempts'' A_Number (DNumber 0), optional_field ''lastError'' A_String,
       default_field ''createdAt'' A_Date DNow, optional_field ''publishedAt'' A_Date],
     en_uniques = [], en_parents = []\<rparr>"

definition ProcessedEvent_entity :: entity where
  "ProcessedEvent_entity = \<lparr>en_table = ''processed_events'',
     en_fields = [primary_field ''eventId'', field_in ''consumer'' A_String, default_field ''processedAt'' A_Date DNow],
     en_uniques = [], en_parents = []\<rparr>"

definition User_entity :: entity where
  "User_entity = \<lparr>en_table = ''users'',
     en_fields = [primary_field ''id'', field_in ''email'' A_String, field_in ''name'' A_String,
       optional_field ''bankAccountNumber'' A_String, optional_field ''bankCode'' A_String] @ date_fields,
     en_uniques = [], en_parents = []\<rparr>"

definition Purchase_entity :: entity where
  "Purchase_entity = \<lparr>en_table = ''purchases'',
     en_fields = [primary_field ''id'', field_in ''userId'' A_String, field_in ''amountKobo'' A_Number,
       optional_field ''idempotencyKey'' A_String, default_field ''createdAt'' A_Date DNow],
     en_uniques = [[''idempotencyKey'']], en_parents = [(''userId'', ''users'')]\<rparr>"

definition AchievementConfig_entity :: entity where
  "AchievementConfig_entity = \<lparr>en_table = ''achievement_configs'',
     en_fields = [primary_field ''id'', field_in ''name'' A_String, default_field ''description'' A_String (DText []),
       field_in ''groupKey'' A_String, field_in ''sortOrder'' A_Number, field_in ''rule'' A_Json,
       optional_field ''imageUrl'' A_String, default_field ''active'' A_Boolean (DBool True)] @ date_fields,
     en_uniques = [[''name'']], en_parents = []\<rparr>"

definition AchievementGroup_entity :: entity where
  "AchievementGroup_entity = \<lparr>en_table = ''achievement_groups'',
     en_fields = [primary_field ''key'', field_in ''name'' A_String, field_in ''sortOrder'' A_Number] @ date_fields,
     en_uniques = [], en_parents = []\<rparr>"

definition BadgeConfig_entity :: entity where
  "BadgeConfig_entity = \<lparr>en_table = ''badge_configs'',
     en_fields = [primary_field ''id'', field_in ''name'' A_String, default_field ''description'' A_String (DText []),
       field_in ''sortOrder'' A_Number, field_in ''requiredAchievementCount'' A_Number, default_field ''requiredAchievementIds'' A_Json DEmptyArray,
       default_field ''rewardAmountKobo'' A_Number (DNumber 30000), default_field ''rewardCurrency'' A_String (DText ''NGN''),
       optional_field ''imageUrl'' A_String, default_field ''active'' A_Boolean (DBool True)] @ date_fields,
     en_uniques = [[''name'']], en_parents = []\<rparr>"

definition UserAchievement_entity :: entity where
  "UserAchievement_entity = \<lparr>en_table = ''user_achievements'',
     en_fields = [primary_field ''id'', field_in ''userId'' A_String, field_in ''achievementId'' A_String, default_field ''unlockedAt'' A_Date DNow],
     en_uniques = [[''userId'', ''achievementId'']], en_parents = [(''achievementId'', ''achievement_configs'')]\<rparr>"

definition UserBadge_entity :: entity where
  "UserBadge_entity = \<lparr>en_table = ''user_badges'',
     en_fields = [primary_field ''id'', field_in ''userId'' A_String, field_in ''badgeId'' A_String, default_field ''unlockedAt'' A_Date DNow],
     en_uniques = [[''userId'', ''badgeId'']], en_parents = [(''badgeId'', ''badge_configs'')]\<rparr>"

definition UserProjection_entity :: entity where
  "UserProjection_entity = \<lparr>en_table = ''user_projections'',
     en_fields = [primary_field ''id'', field_in ''email'' A_String, field_in ''name'' A_String,
       optional_field ''bankAccountNumber'' A_String, optional_field ''bankCode'' A_String] @ date_fields,
     en_uniques = [], en_parents = []\<rparr>"

definition UserStats_entity :: entity where
  "UserStats_entity = \<lparr>en_table = ''user_stats'',
     en_fields = [primary_field ''userId'', default_field ''purchaseCount'' A_Number (DNumber 0), default_field ''totalSpendKobo'' A_Number (DNumber 0),
       default_field ''updatedAt'' A_Date DNow],
     en_uniques = [], en_parents = []\<rparr>"

definition CashbackTransaction_entity :: entity where
  "CashbackTransaction_entity = \<lparr>en_table = ''cashback_transactions'',
     en_fields = [primary_field ''id'', field_in ''userId'' A_String, field_in ''badgeName'' A_String, field_in ''amountKobo'' A_Number,
       default_field ''status'' A_String (DText ''PENDING''), field_in ''provider'' A_String, optional_field ''providerReference'' A_String,
       optional_field ''providerRecipientCode'' A_String, optional_field ''correlationId'' A_String, optional_field ''failureReason'' A_String,
       optional_field ''failureCode'' A_String, optional_field ''retryable'' A_Boolean, default_field ''retryCount'' A_Number (DNumber 0),
       optional_field ''nextRetryAt'' A_Date] @ date_fields,
     en_uniques = [[''userId'', ''badgeName'']], en_parents = []\<rparr>"

definition PayoutAccount_entity :: entity where
  "PayoutAccount_entity = \<lparr>en_table = ''payout_accounts'',
     en_fields = [primary_field ''id'', field_in ''userId'' A_String, field_in ''userName'' A_String,
       field_in ''bankAccountNumber'' A_String, field_in ''bankCode'' A_String, field_in ''provider'' A_String,
       optional_field ''providerRecipientCode'' A_String] @ date_fields,
     en_uniques = [[''userId'']], en_parents = []\<rparr>"

definition purchase_entities :: "entity list" where
  "purchase_entities = [User_entity, Purchase_entity, OutboxEvent_entity]"

definition loyalty_entities :: "entity list" where
  "loyalty_entities = [AchievementConfig_entity, AchievementGroup_entity, BadgeConfig_entity, OutboxEvent_entity, ProcessedEvent_entity,
     UserAchievement_entity, UserBadge_entity, UserProjection_entity, UserStats_entity]"

definition cashback_entities :: "entity list" where
  "cashback_entities = [CashbackTransaction_entity, OutboxEvent_entity, PayoutAccount_entity, ProcessedEvent_entity]"

section \<open>A schema that serves the entities\<close>

text \<open>
  Which column types hold which fields, and what makes a table serve an entity: each field has its column, with
  the key and the optionality the entity says; a value the entity leaves to the database has the same default there; no
  column the entity does not know has to be supplied; the declared unique combinations are enforced, and each
  relation is a cascading foreign key.
\<close>

fun holds_kind :: "column_type \<Rightarrow> field_kind \<Rightarrow> bool" where
  "holds_kind Varchar A_String = True"
| "holds_kind Text_Type A_String = True"
| "holds_kind Integer_Type A_Number = True"
| "holds_kind Boolean_Type A_Boolean = True"
| "holds_kind Timestamptz A_Date = True"
| "holds_kind Jsonb A_Json = True"
| "holds_kind _ _ = False"

definition stores :: "column list \<Rightarrow> entity_field \<Rightarrow> bool" where
  "stores cols f = list_ex (\<lambda>c. col_name c = ef_name f \<and> holds_kind (col_type c) (ef_kind f) \<and> (col_primary c \<longleftrightarrow> ef_primary f) \<and>
     (col_nullable c \<longleftrightarrow> ef_optional f) \<and> (ef_default f \<noteq> None \<longrightarrow> col_default c = ef_default f)) cols"

definition enforces :: "table_schema \<Rightarrow> string list \<Rightarrow> bool" where
  "enforces ts cs = (cs \<in> set (map snd (ts_uniques ts)) \<or> (cs, True) \<in> set (map snd (ts_indices ts)))"

definition serves :: "schema \<Rightarrow> entity \<Rightarrow> bool" where
  "serves s e = (case map_of s (en_table e) of
     None \<Rightarrow> False
   | Some ts \<Rightarrow>
       list_all (stores (ts_columns ts)) (en_fields e) \<and>
       list_all (\<lambda>c. col_name c \<in> set (map ef_name (en_fields e)) \<or> col_nullable c \<or> col_default c \<noteq> None) (ts_columns ts) \<and>
       list_all (enforces ts) (en_uniques e) \<and>
       list_all (\<lambda>(c, t). list_ex (\<lambda>f. fk_column f = c \<and> fk_table f = t \<and> fk_cascade f) (ts_fks ts)) (en_parents e))"

definition sets_up :: "migration list \<Rightarrow> entity list \<Rightarrow> bool" where
  "sets_up ms es = (case migrate ms [] of None \<Rightarrow> False | Some s \<Rightarrow> list_all (serves s) es \<and>
     set (map fst s) = set (map en_table es))"

section \<open>Properties\<close>

lemma perform_all_append: "perform_all (xs @ ys) s = Option.bind (perform_all xs s) (perform_all ys)"
  by (induction xs arbitrary: s) (auto split: option.splits)

lemma sets_up_services:
  "sets_up purchase_migrations purchase_entities" "sets_up loyalty_migrations loyalty_entities"
  "sets_up cashback_migrations cashback_entities"
  by code_simp+


text \<open>Whichever migrations a database has run, a short list of them is one of the prefixes.\<close>

lemma take_prefixes:
  assumes "list_all (\<lambda>n. P (take n xs)) [0..<Suc (length xs)]"
  shows "P (take n xs)"
proof (cases "n \<le> length xs")
  case True
  then have "n \<in> set [0..<Suc (length xs)]" by auto
  then show ?thesis using assms unfolding list_all_iff by blast
next
  case False
  then have "take n xs = take (length xs) xs" by simp
  then show ?thesis using assms by (simp add: list_all_iff)
qed

definition rolls_back :: "migration list \<Rightarrow> bool" where
  "rolls_back ms \<longleftrightarrow> Option.bind (migrate ms []) (rollback ms) = Some []"

text \<open>C37. However many of a service's migrations an empty database has run, rolling them back in the opposite order
  succeeds and leaves it empty.\<close>

theorem migrations_roll_back:
  "rolls_back (take n purchase_migrations) \<and> rolls_back (take n loyalty_migrations) \<and> rolls_back (take n cashback_migrations)"
proof (intro conjI)
  show "rolls_back (take n purchase_migrations)" by (rule take_prefixes) code_simp
  show "rolls_back (take n loyalty_migrations)" by (rule take_prefixes) code_simp
  show "rolls_back (take n cashback_migrations)" by (rule take_prefixes) code_simp
qed

text \<open>
  Rolled back alone, a migration restores the schema before it, except the two that add columns only where they
  are missing: the first migration of the loyalty service already creates those columns, so their \<open>up\<close> does
  nothing and their \<open>down\<close> drops columns they did not add.
\<close>

definition restores :: "migration list \<Rightarrow> nat \<Rightarrow> bool" where
  "restores ms n \<longleftrightarrow> Option.bind (migrate (take (Suc n) ms) []) (rollback [ms ! n]) = migrate (take n ms) []"

lemma single_rollbacks:
  "map (restores purchase_migrations) [0..<3] = [True, True, True]"
  "map (restores cashback_migrations) [0..<2] = [True, True]"
  "map (restores loyalty_migrations) [0..<5] = [True, False, False, True, True]"
  by code_simp+

subsection \<open>Upgrading a database that predates a column\<close>

lemma map_of_alter [simp]:
  "map_of (map (\<lambda>(n, x). (n, if n = t then y else x)) s) u = (if u = t \<and> map_of s t \<noteq> None then Some y else map_of s u)"
  by (induction s) auto

definition with_column :: "string \<Rightarrow> column \<Rightarrow> schema \<Rightarrow> schema option" where
  "with_column t c s = perform (UnlessColumn t (col_name c) (AddColumn t c)) s"

lemma with_column_run:
  assumes "map_of s t \<noteq> None"
  obtains s' where "with_column t c s = Some s'" "has_column t (col_name c) s'"
    "\<And>u d. has_column u d s \<Longrightarrow> has_column u d s'" "\<And>u. map_of s' u = None \<longleftrightarrow> map_of s u = None"
proof (cases "has_column t (col_name c) s")
  case True
  then show ?thesis by (intro that[of s]) (auto simp: with_column_def)
next
  case False
  obtain ts where ts: "map_of s t = Some ts" using assms by auto
  let ?s = "map (\<lambda>(n, x). (n, if n = t then ts\<lparr>ts_columns := ts_columns ts @ [c]\<rparr> else x)) s"
  have "with_column t c s = Some ?s"
    using False ts by (auto simp: with_column_def alter_def has_column_def)
  then show ?thesis
    using ts by (intro that[of ?s]) (auto simp: has_column_def split: option.splits if_splits)
qed

fun add_missing :: "(string \<times> column) list \<Rightarrow> schema \<Rightarrow> schema option" where
  "add_missing [] s = Some s"
| "add_missing ((t, c) # cs) s = Option.bind (with_column t c s) (add_missing cs)"

lemma add_missing_run:
  assumes "\<forall>(t, c) \<in> set cs. map_of s t \<noteq> None"
  obtains s' where "add_missing cs s = Some s'" "\<forall>(t, c) \<in> set cs. has_column t (col_name c) s'"
    "\<And>u d. has_column u d s \<Longrightarrow> has_column u d s'"
proof -
  have "\<exists>s'. add_missing cs s = Some s' \<and> (\<forall>(t, c) \<in> set cs. has_column t (col_name c) s') \<and>
      (\<forall>u d. has_column u d s \<longrightarrow> has_column u d s')" using assms
  proof (induction cs arbitrary: s)
    case (Cons x cs)
    obtain t c where x: "x = (t, c)" by (cases x)
    obtain s1 where s1: "with_column t c s = Some s1" "has_column t (col_name c) s1"
        "\<And>u d. has_column u d s \<Longrightarrow> has_column u d s1" "\<And>u. map_of s1 u = None \<longleftrightarrow> map_of s u = None"
      using with_column_run[of s t c] Cons.prems x by auto
    moreover have "\<forall>(u, d) \<in> set cs. map_of s1 u \<noteq> None" using Cons.prems s1(4) by auto
    ultimately show ?case using Cons.IH[of s1] x by fastforce
  qed simp
  then show thesis using that by blast
qed

lemma add_missing_present:
  assumes "\<forall>(t, c) \<in> set cs. has_column t (col_name c) s"
  shows "add_missing cs s = Some s"
  using assms by (induction cs) (auto simp: with_column_def)

lemma perform_all_add_missing:
  "perform_all (map (\<lambda>(t, c). UnlessColumn t (col_name c) (AddColumn t c)) cs) s = add_missing cs s"
  by (induction cs arbitrary: s) (auto simp: with_column_def split: option.splits)

definition conditional_columns :: "(string \<times> column) list" where
  "conditional_columns = [(''badge_configs'', defaulted ''requiredAchievementIds'' Jsonb DEmptyArray),
     (''achievement_configs'', defaulted ''description'' Text_Type (DText [])), (''badge_configs'', defaulted ''description'' Text_Type (DText [])),
     (''badge_configs'', defaulted ''rewardAmountKobo'' Integer_Type (DNumber 30000)), (''badge_configs'', defaulted ''rewardCurrency'' Varchar (DText ''NGN''))]"

lemma conditional_ups:
  "mig_up AddBadgeAchievementRequirements @ mig_up AddConfigDisplayFields =
     map (\<lambda>(t, c). UnlessColumn t (col_name c) (AddColumn t c)) conditional_columns"
  by (simp add: conditional_columns_def AddBadgeAchievementRequirements_def AddConfigDisplayFields_def defaulted_def column_in_def)

lemma migrate_conditional:
  "migrate [AddBadgeAchievementRequirements, AddConfigDisplayFields] s = add_missing conditional_columns s"
  by (simp add: migrate_def conditional_ups perform_all_add_missing)

text \<open>C36. The two upgrading migrations run on any schema that has the two configuration tables, whichever of their five
  columns it already has: afterwards all five are there, no column is lost, and running them again changes nothing.\<close>

theorem upgrade_adds_missing_columns:
  assumes "map_of s ''achievement_configs'' \<noteq> None" "map_of s ''badge_configs'' \<noteq> None"
  shows "\<exists>s'. migrate [AddBadgeAchievementRequirements, AddConfigDisplayFields] s = Some s' \<and>
    list_all (\<lambda>(t, c). has_column t c s') [(''badge_configs'', ''requiredAchievementIds''), (''achievement_configs'', ''description''),
      (''badge_configs'', ''description''), (''badge_configs'', ''rewardAmountKobo''), (''badge_configs'', ''rewardCurrency'')] \<and>
    (\<forall>t c. has_column t c s \<longrightarrow> has_column t c s') \<and>
    migrate [AddBadgeAchievementRequirements, AddConfigDisplayFields] s' = Some s'"
proof -
  have "\<forall>(t, c) \<in> set conditional_columns. map_of s t \<noteq> None" using assms by (simp add: conditional_columns_def)
  then obtain s' where s': "add_missing conditional_columns s = Some s'"
      "\<forall>(t, c) \<in> set conditional_columns. has_column t (col_name c) s'" "\<And>u d. has_column u d s \<Longrightarrow> has_column u d s'"
    using add_missing_run by blast
  moreover have "list_all (\<lambda>(t, c). has_column t c s') [(''badge_configs'', ''requiredAchievementIds''),
      (''achievement_configs'', ''description''), (''badge_configs'', ''description''), (''badge_configs'', ''rewardAmountKobo''),
      (''badge_configs'', ''rewardCurrency'')]"
    using s'(2) by (simp add: conditional_columns_def defaulted_def column_in_def)
  ultimately show ?thesis by (auto simp: migrate_conditional add_missing_present)
qed

definition old_schema :: schema where
  "old_schema = [(''achievement_configs'', \<lparr>ts_columns = [primary ''id''], ts_uniques = [], ts_indices = [], ts_fks = []\<rparr>),
     (''badge_configs'', \<lparr>ts_columns = [primary ''id'', defaulted ''description'' Text_Type (DText [])], ts_uniques = [], ts_indices = [], ts_fks = []\<rparr>)]"

theorem upgrade_adds_missing_columns_witness:
  "\<exists>s'. migrate [AddBadgeAchievementRequirements, AddConfigDisplayFields] old_schema = Some s' \<and>
    has_column ''badge_configs'' ''rewardCurrency'' s'"
  using upgrade_adds_missing_columns[of old_schema] by (auto simp: old_schema_def)

lemma keys_backfill:
  "map ag_key (backfill_groups configs groups) =
     map ag_key groups @ filter (\<lambda>k. k \<notin> ag_key ` set groups) (remdups (map ac_groupKey configs))"
  by (simp add: backfill_groups_def o_def)

text \<open>After the backfill of \<open>AddAchievementGroups\<close> every achievement's group exists, so the foreign key that follows
  is accepted; the groups that were there are kept, the keys stay distinct, and no group is invented.\<close>

theorem backfill_groups_complete:
  "ac_groupKey ` set configs \<subseteq> ag_key ` set (backfill_groups configs groups) \<and>
   take (length groups) (backfill_groups configs groups) = groups \<and>
   (distinct (map ag_key (backfill_groups configs groups)) \<longleftrightarrow> distinct (map ag_key groups)) \<and>
   ag_key ` set (backfill_groups configs groups) = ag_key ` set groups \<union> ac_groupKey ` set configs"
proof -
  have keys: "ag_key ` set (backfill_groups configs groups) = ag_key ` set groups \<union> ac_groupKey ` set configs"
    using arg_cong[OF keys_backfill, of set configs groups] by auto
  have "take (length groups) (backfill_groups configs groups) = groups" by (simp add: backfill_groups_def)
  then show ?thesis using keys by (auto simp: keys_backfill)
qed

end
