(* ===== verification/Admin_Responses.thy ===== *)
theory Admin_Responses
  imports Admin_Properties
begin

text \<open>
  The answers of the admin API (\<open>toGroupResponse\<close>, \<open>toAchievementResponse\<close>, \<open>toBadgeResponse\<close> of
  \<open>admin-config.service.ts\<close>) as the JSON objects they are sent as, for rows read from the database,
  where a missing image is \<open>null\<close>. An answer is again a body the API accepts, which recreates the row.
\<close>

section \<open>Answers\<close>

definition json_int :: "int \<Rightarrow> json" where
  "json_int n = JNum (Fin (of_int n))"

definition json_nullable :: "string option \<Rightarrow> json" where
  "json_nullable v = (case v of Some s \<Rightarrow> JStr s | None \<Rightarrow> JNull)"

definition toGroupResponse :: "achievement_group \<Rightarrow> json_object" where
  "toGroupResponse g = [(''key'', JStr (ag_key g)), (''name'', JStr (ag_name g)), (''sortOrder'', json_int (ag_sortOrder g))]"

definition toAchievementResponse :: "achievement_config \<Rightarrow> json_object" where
  "toAchievementResponse a =
     [(''id'', JStr (ac_id a)), (''name'', JStr (ac_name a)), (''description'', JStr (ac_description a)),
      (''groupKey'', JStr (ac_groupKey a)), (''sortOrder'', json_int (ac_sortOrder a)), (''rule'', ac_rule a),
      (''imageUrl'', json_nullable (ac_imageUrl a)), (''active'', JBool (ac_active a))]"

definition toBadgeResponse :: "badge_config \<Rightarrow> json_object" where
  "toBadgeResponse b =
     [(''id'', JStr (bc_id b)), (''name'', JStr (bc_name b)), (''description'', JStr (bc_description b)),
      (''sortOrder'', json_int (bc_sortOrder b)), (''requiredAchievementCount'', json_int (bc_requiredAchievementCount b)),
      (''requiredAchievementIds'', JArr (map JStr (bc_requiredAchievementIds b))),
      (''rewardAmountKobo'', json_int (bc_rewardAmountKobo b)), (''rewardCurrency'', JStr (bc_rewardCurrency b)),
      (''imageUrl'', json_nullable (bc_imageUrl b)), (''active'', JBool (bc_active b))]"

section \<open>An answer as a body\<close>

lemma json_int_not_null [simp]: "json_int n \<noteq> JNull"
  by (simp add: json_int_def)

lemma strings_of_JStr [simp]: "strings_of (map JStr xs) = Some xs"
  by (induction xs) auto

lemma checked_values:
  "nonempty_text n v = Some s \<Longrightarrow> nonempty_text n (JStr s) = Some s"
  "text_max n v = Some s \<Longrightarrow> text_max n (JStr s) = Some s"
  "positive_int v = Some i \<Longrightarrow> positive_int (json_int i) = Some i"
  "rule_shape v = Some r \<Longrightarrow> rule_shape r = Some r"
  "url_text isUrl v = Some s \<Longrightarrow> url_text isUrl (JStr s) = Some s"
  "any_text (JStr s) = Some s" "boolean (JBool b) = Some b" "string_array (JArr (map JStr xs)) = Some xs"
  by (auto simp: nonempty_text_def text_max_def positive_int_def rule_shape_def url_text_def any_text_def boolean_def
      string_array_def json_int_def split: json.splits jsnum.splits if_splits option.splits)

definition legal_url :: "(string \<Rightarrow> bool) \<Rightarrow> string option \<Rightarrow> bool" where
  "legal_url isUrl v = (case v of Some u \<Rightarrow> isUrl u | None \<Rightarrow> True)"

lemma legal_url_field: "opt_field (url_text isUrl) kvs k = Some f \<Longrightarrow> legal_url isUrl (nullish f)"
  by (auto simp: opt_field_def legal_url_def url_text_def split: option.splits json.splits if_splits)

lemma opt_field_values:
  "opt_field (text_max n) kvs k = Some f \<Longrightarrow> text_max n (JStr (field_or f [])) = Some (field_or f [])"
  "opt_field positive_int kvs k = Some g \<Longrightarrow> 0 < d \<Longrightarrow> positive_int (json_int (field_or g d)) = Some (field_or g d)"
  by (auto simp: opt_field_def field_or_def text_max_def positive_int_def json_int_def
      split: option.splits json.splits jsnum.splits if_splits field.splits)

lemma required_values: "required check kvs k = Some x \<Longrightarrow> \<exists>v. check v = Some x"
  by (auto simp: required_def split: Option.bind_splits)

definition achievement_dto :: "achievement_config \<Rightarrow> create_achievement_dto" where
  "achievement_dto a = \<lparr>ca_id = ac_id a, ca_name = ac_name a, ca_description = Val (ac_description a), ca_groupKey = ac_groupKey a,
     ca_sortOrder = ac_sortOrder a, ca_rule = ac_rule a,
     ca_imageUrl = (case ac_imageUrl a of Some u \<Rightarrow> Val u | None \<Rightarrow> Null), ca_active = Val (ac_active a)\<rparr>"

definition badge_dto :: "badge_config \<Rightarrow> create_badge_dto" where
  "badge_dto b = \<lparr>cb_id = bc_id b, cb_name = bc_name b, cb_description = Val (bc_description b), cb_sortOrder = bc_sortOrder b,
     cb_requiredAchievementCount = bc_requiredAchievementCount b, cb_requiredAchievementIds = Val (bc_requiredAchievementIds b),
     cb_rewardAmountKobo = Val (bc_rewardAmountKobo b), cb_rewardCurrency = Val (bc_rewardCurrency b),
     cb_imageUrl = (case bc_imageUrl b of Some u \<Rightarrow> Val u | None \<Rightarrow> Null), cb_active = Val (bc_active b)\<rparr>"

lemma opt_value: "obj_get kvs k = Some v \<Longrightarrow> check v = Some x \<Longrightarrow> v \<noteq> JNull \<Longrightarrow> opt_field check kvs k = Some (Val x)"
  by (cases v) (auto simp: opt_field_def)

lemma opt_image:
  "obj_get kvs k = Some (json_nullable v) \<Longrightarrow> legal_url isUrl v \<Longrightarrow>
     opt_field (url_text isUrl) kvs k = Some (case v of Some u \<Rightarrow> Val u | None \<Rightarrow> Null)"
  by (auto simp: opt_field_def json_nullable_def legal_url_def url_text_def split: option.splits)

lemma required_value: "obj_get kvs k = Some v \<Longrightarrow> required check kvs k = check v"
  by (simp add: required_def)

lemma achievement_accepted:
  assumes "nonempty_text 100 (JStr (ac_id a)) = Some (ac_id a)" "nonempty_text 200 (JStr (ac_name a)) = Some (ac_name a)"
    "text_max 2000 (JStr (ac_description a)) = Some (ac_description a)" "nonempty_text 100 (JStr (ac_groupKey a)) = Some (ac_groupKey a)"
    "positive_int (json_int (ac_sortOrder a)) = Some (ac_sortOrder a)" "rule_shape (ac_rule a) = Some (ac_rule a)"
    "legal_url isUrl (ac_imageUrl a)"
  shows "CreateAchievementConfigDto isUrl (toAchievementResponse a) = Some (achievement_dto a)"
  unfolding CreateAchievementConfigDto_def
  using assms
  by (simp add: toAchievementResponse_def only_keys_def required_value opt_value [where v = "JStr _"] opt_value [where v = "JBool _"]
      opt_image checked_values(6-8) achievement_dto_def)

lemma badge_accepted:
  assumes "nonempty_text 100 (JStr (bc_id b)) = Some (bc_id b)" "nonempty_text 200 (JStr (bc_name b)) = Some (bc_name b)"
    "text_max 2000 (JStr (bc_description b)) = Some (bc_description b)"
    "positive_int (json_int (bc_sortOrder b)) = Some (bc_sortOrder b)"
    "positive_int (json_int (bc_requiredAchievementCount b)) = Some (bc_requiredAchievementCount b)"
    "positive_int (json_int (bc_rewardAmountKobo b)) = Some (bc_rewardAmountKobo b)" "legal_url isUrl (bc_imageUrl b)"
  shows "CreateBadgeConfigDto isUrl (toBadgeResponse b) = Some (badge_dto b)"
  unfolding CreateBadgeConfigDto_def
  using assms
  by (simp add: toBadgeResponse_def only_keys_def required_value opt_value [where v = "JStr _"] opt_value [where v = "JBool _"]
      opt_value [where v = "JArr _"] opt_value [where v = "json_int _"] opt_image checked_values(6-8) badge_dto_def)

definition group_dto :: "achievement_group \<Rightarrow> create_group_dto" where
  "group_dto g = \<lparr>cg_key = ag_key g, cg_name = ag_name g, cg_sortOrder = Val (ag_sortOrder g)\<rparr>"

lemma group_accepted:
  assumes "nonempty_text 100 (JStr (ag_key g)) = Some (ag_key g)" "nonempty_text 200 (JStr (ag_name g)) = Some (ag_name g)"
    "positive_int (json_int (ag_sortOrder g)) = Some (ag_sortOrder g)"
  shows "CreateAchievementGroupDto (toGroupResponse g) = Some (group_dto g)"
  unfolding CreateAchievementGroupDto_def
  using assms
  by (simp add: toGroupResponse_def only_keys_def required_value opt_value [where v = "json_int _"] group_dto_def)

section \<open>Rows made by the API\<close>

lemma next_group_positive:
  assumes "list_all (\<lambda>g. 0 \<le> ag_sortOrder g) t"
  shows "0 < nextGroupSortOrder t"
proof (cases t)
  case (Cons g gs)
  then have "ag_sortOrder g \<le> Max (set (map ag_sortOrder t))" by (intro Max_ge) auto
  moreover have "0 \<le> ag_sortOrder g" using assms Cons by simp
  ultimately have "0 \<le> Max (set (map ag_sortOrder t))" by (rule order_trans [rotated])
  then show ?thesis using Cons unfolding nextGroupSortOrder_def by simp
qed (simp add: nextGroupSortOrder_def)

lemma group_row:
  assumes "createGroup dto db = Inr (g, db')"
  shows "g = \<lparr>ag_key = cg_key dto, ag_name = cg_name dto, ag_sortOrder = field_or (cg_sortOrder dto) (nextGroupSortOrder (ld_groups db))\<rparr>"
  using assms by (auto simp: createGroup_def Let_def split: sum.splits if_splits)

lemma created_group:
  assumes "CreateAchievementGroupDto kvs = Some dto" and "createGroup dto db = Inr (g, db')"
    and "list_all (\<lambda>g. 0 \<le> ag_sortOrder g) (ld_groups db)"
  shows "CreateAchievementGroupDto (toGroupResponse g) = Some (group_dto g)"
proof (rule group_accepted)
  note g = group_row [OF assms(2)]
  from assms(1) have checked: "required (nonempty_text 100) kvs ''key'' = Some (cg_key dto)"
      "required (nonempty_text 200) kvs ''name'' = Some (cg_name dto)" "opt_field positive_int kvs ''sortOrder'' = Some (cg_sortOrder dto)"
    by (auto simp: CreateAchievementGroupDto_def split: option.splits if_splits)
  show "nonempty_text 100 (JStr (ag_key g)) = Some (ag_key g)" using required_values [OF checked(1)] checked_values(1) by (auto simp: g)
  show "nonempty_text 200 (JStr (ag_name g)) = Some (ag_name g)" using required_values [OF checked(2)] checked_values(1) by (auto simp: g)
  show "positive_int (json_int (ag_sortOrder g)) = Some (ag_sortOrder g)"
    using opt_field_values(2) [OF checked(3) next_group_positive [OF assms(3)]] by (simp add: g)
qed

lemma recreate_group:
  assumes "createGroup dto db = Inr (g, db')"
  shows "createGroup (group_dto g) db = Inr (g, db')"
proof -
  from group_row [OF assms] have "createGroup (group_dto g) db = createGroup dto db"
    by (simp add: createGroup_def group_dto_def Let_def field_or_def cong: sum.case_cong)
  with assms show ?thesis by simp
qed

lemma achievement_row:
  assumes "createAchievement dto db = Inr (a, db')"
  shows "a = \<lparr>ac_id = ca_id dto, ac_name = ca_name dto, ac_description = field_or (ca_description dto) [],
      ac_groupKey = ca_groupKey dto, ac_sortOrder = ca_sortOrder dto, ac_rule = ca_rule dto,
      ac_imageUrl = nullish (ca_imageUrl dto), ac_active = field_or (ca_active dto) True\<rparr>" and "\<not> is_null (ca_description dto)"
  using assms by (auto simp: createAchievement_def save_achievement_def split: option.splits sum.splits if_splits)

lemma badge_row:
  assumes "createBadge dto db = Inr (b, db')"
  shows "b = \<lparr>bc_id = cb_id dto, bc_name = cb_name dto, bc_description = field_or (cb_description dto) [],
      bc_sortOrder = cb_sortOrder dto, bc_requiredAchievementCount = cb_requiredAchievementCount dto,
      bc_requiredAchievementIds = field_or (cb_requiredAchievementIds dto) [],
      bc_rewardAmountKobo = field_or (cb_rewardAmountKobo dto) 30000, bc_rewardCurrency = field_or (cb_rewardCurrency dto) ''NGN'',
      bc_imageUrl = nullish (cb_imageUrl dto), bc_active = field_or (cb_active dto) True\<rparr>" and "\<not> is_null (cb_description dto)"
  using assms by (auto simp: createBadge_def save_badge_def split: option.splits sum.splits if_splits)

lemma created_achievement:
  assumes "CreateAchievementConfigDto isUrl kvs = Some dto" and "createAchievement dto db = Inr (a, db')"
  shows "CreateAchievementConfigDto isUrl (toAchievementResponse a) = Some (achievement_dto a)"
proof (rule achievement_accepted)
  note a = achievement_row [OF assms(2)]
  from assms(1) have checked: "required (nonempty_text 100) kvs ''id'' = Some (ca_id dto)"
      "required (nonempty_text 200) kvs ''name'' = Some (ca_name dto)" "opt_field (text_max 2000) kvs ''description'' = Some (ca_description dto)"
      "required (nonempty_text 100) kvs ''groupKey'' = Some (ca_groupKey dto)" "required positive_int kvs ''sortOrder'' = Some (ca_sortOrder dto)"
      "required rule_shape kvs ''rule'' = Some (ca_rule dto)" "opt_field (url_text isUrl) kvs ''imageUrl'' = Some (ca_imageUrl dto)"
    by (auto simp: CreateAchievementConfigDto_def split: option.splits if_splits)
  show "nonempty_text 100 (JStr (ac_id a)) = Some (ac_id a)" using required_values [OF checked(1)] checked_values(1) by (auto simp: a(1))
  show "nonempty_text 200 (JStr (ac_name a)) = Some (ac_name a)" using required_values [OF checked(2)] checked_values(1) by (auto simp: a(1))
  show "text_max 2000 (JStr (ac_description a)) = Some (ac_description a)" using opt_field_values(1) [OF checked(3)] by (simp add: a(1))
  show "nonempty_text 100 (JStr (ac_groupKey a)) = Some (ac_groupKey a)" using required_values [OF checked(4)] checked_values(1) by (auto simp: a(1))
  show "positive_int (json_int (ac_sortOrder a)) = Some (ac_sortOrder a)" using required_values [OF checked(5)] checked_values(3) by (auto simp: a(1))
  show "rule_shape (ac_rule a) = Some (ac_rule a)" using required_values [OF checked(6)] checked_values(4) by (auto simp: a(1))
  show "legal_url isUrl (ac_imageUrl a)" using legal_url_field [OF checked(7)] by (simp add: a(1))
qed

lemma created_badge:
  assumes "CreateBadgeConfigDto isUrl kvs = Some dto" and "createBadge dto db = Inr (b, db')"
  shows "CreateBadgeConfigDto isUrl (toBadgeResponse b) = Some (badge_dto b)"
proof (rule badge_accepted)
  note b = badge_row [OF assms(2)]
  from assms(1) have checked: "required (nonempty_text 100) kvs ''id'' = Some (cb_id dto)"
      "required (nonempty_text 200) kvs ''name'' = Some (cb_name dto)" "opt_field (text_max 2000) kvs ''description'' = Some (cb_description dto)"
      "required positive_int kvs ''sortOrder'' = Some (cb_sortOrder dto)"
      "required positive_int kvs ''requiredAchievementCount'' = Some (cb_requiredAchievementCount dto)"
      "opt_field positive_int kvs ''rewardAmountKobo'' = Some (cb_rewardAmountKobo dto)"
      "opt_field (url_text isUrl) kvs ''imageUrl'' = Some (cb_imageUrl dto)"
    by (auto simp: CreateBadgeConfigDto_def split: option.splits if_splits)
  show "nonempty_text 100 (JStr (bc_id b)) = Some (bc_id b)" using required_values [OF checked(1)] checked_values(1) by (auto simp: b(1))
  show "nonempty_text 200 (JStr (bc_name b)) = Some (bc_name b)" using required_values [OF checked(2)] checked_values(1) by (auto simp: b(1))
  show "text_max 2000 (JStr (bc_description b)) = Some (bc_description b)" using opt_field_values(1) [OF checked(3)] by (simp add: b(1))
  show "positive_int (json_int (bc_sortOrder b)) = Some (bc_sortOrder b)" using required_values [OF checked(4)] checked_values(3) by (auto simp: b(1))
  show "positive_int (json_int (bc_requiredAchievementCount b)) = Some (bc_requiredAchievementCount b)"
    using required_values [OF checked(5)] checked_values(3) by (auto simp: b(1))
  show "positive_int (json_int (bc_rewardAmountKobo b)) = Some (bc_rewardAmountKobo b)"
    using opt_field_values(2) [OF checked(6), of 30000] by (simp add: b(1))
  show "legal_url isUrl (bc_imageUrl b)" using legal_url_field [OF checked(7)] by (simp add: b(1))
qed

lemma nullish_again [simp]: "nullish (case v of Some u \<Rightarrow> Val u | None \<Rightarrow> Null) = v"
  by (cases v) auto

lemma field_or_Val [simp]: "field_or (Val x) d = x"
  by (simp add: field_or_def)

lemma recreate_achievement:
  assumes "createAchievement dto db = Inr (a, db')"
  shows "createAchievement (achievement_dto a) db = Inr (a, db')"
proof -
  note a = achievement_row [OF assms]
  from a have "createAchievement (achievement_dto a) db = createAchievement dto db"
    by (simp add: createAchievement_def achievement_dto_def cong: option.case_cong sum.case_cong)
  with assms show ?thesis by simp
qed

lemma recreate_badge:
  assumes "createBadge dto db = Inr (b, db')"
  shows "createBadge (badge_dto b) db = Inr (b, db')"
proof -
  note b = badge_row [OF assms]
  from b have "createBadge (badge_dto b) db = createBadge dto db"
    by (simp add: createBadge_def badge_dto_def cong: option.case_cong sum.case_cong)
  with assms show ?thesis by simp
qed

text \<open>
  C40. What the API answers about a configuration can be sent back: the object it shows for a group, an achievement
  or a badge made from an accepted body is itself accepted as a body, and on a database in the state before that
  creation it makes the same row, at the same position, and the same database.
\<close>

theorem config_answer_recreates:
  assumes "list_all (\<lambda>g. 0 \<le> ag_sortOrder g) (ld_groups db)"
    and "CreateAchievementGroupDto body = Some dto" "createGroup dto db = Inr (g, db1)"
    and "CreateAchievementConfigDto isUrl body' = Some dto'" "createAchievement dto' db1 = Inr (a, db2)"
    and "CreateBadgeConfigDto isUrl body'' = Some dto''" "createBadge dto'' db2 = Inr (b, db3)"
  shows "\<exists>again again' again''. CreateAchievementGroupDto (toGroupResponse g) = Some again \<and> createGroup again db = Inr (g, db1) \<and>
    CreateAchievementConfigDto isUrl (toAchievementResponse a) = Some again' \<and> createAchievement again' db1 = Inr (a, db2) \<and>
    CreateBadgeConfigDto isUrl (toBadgeResponse b) = Some again'' \<and> createBadge again'' db2 = Inr (b, db3)"
  using created_group [OF assms(2,3,1)] recreate_group [OF assms(3)] created_achievement [OF assms(4,5)] recreate_achievement [OF assms(5)]
    created_badge [OF assms(6,7)] recreate_badge [OF assms(7)]
  by blast

definition streaks_body :: json_object where
  "streaks_body = [(''key'', JStr ''streaks''), (''name'', JStr ''Streaks'')]"

definition frequent_body :: json_object where
  "frequent_body = [(''id'', JStr ''ach_20_purchases''), (''name'', JStr ''20 Purchases''), (''groupKey'', JStr ''streaks''),
     (''sortOrder'', JNum (Fin 2)), (''rule'', rule_json (CountRule 20))]"

definition vip_body :: json_object where
  "vip_body = [(''id'', JStr ''bdg_vip''), (''name'', JStr ''Vip''), (''sortOrder'', JNum (Fin 2)),
     (''requiredAchievementCount'', JNum (Fin 1)), (''requiredAchievementIds'', JArr [JStr ''ach_20_purchases''])]"

definition sample_chain :: "(achievement_group \<times> loyalty_db) \<times> (achievement_config \<times> loyalty_db) \<times> (badge_config \<times> loyalty_db)" where
  "sample_chain =
     (let made = projr (createGroup (the (CreateAchievementGroupDto streaks_body)) (snd (seed empty_loyalty)));
          made' = projr (createAchievement (the (CreateAchievementConfigDto (\<lambda>_. True) frequent_body)) (snd made));
          made'' = projr (createBadge (the (CreateBadgeConfigDto (\<lambda>_. True) vip_body)) (snd made'))
      in (made, made', made''))"

lemma Inr_of: "\<not> isl x \<Longrightarrow> x = Inr (fst (projr x), snd (projr x))"
  by (cases x) auto

theorem config_answer_recreates_witness:
  "case sample_chain of ((g, db1), (a, db2), (b, db3)) \<Rightarrow>
     ag_sortOrder g = 4 \<and> ac_id a = ''ach_20_purchases'' \<and> bc_id b = ''bdg_vip'' \<and>
     (\<exists>again again'. CreateAchievementGroupDto (toGroupResponse g) = Some again \<and> createGroup again (snd (seed empty_loyalty)) = Inr (g, db1) \<and>
       CreateBadgeConfigDto (\<lambda>_. True) (toBadgeResponse b) = Some again' \<and> createBadge again' db2 = Inr (b, db3))"
proof -
  let ?db = "snd (seed empty_loyalty)"
  let ?g = "the (CreateAchievementGroupDto streaks_body)" and ?a = "the (CreateAchievementConfigDto (\<lambda>_. True) frequent_body)"
    and ?b = "the (CreateBadgeConfigDto (\<lambda>_. True) vip_body)"
  let ?made = "createGroup ?g ?db"
  let ?made' = "createAchievement ?a (snd (projr ?made))"
  let ?made'' = "createBadge ?b (snd (projr ?made'))"
  have orders: "list_all (\<lambda>g. 0 \<le> ag_sortOrder g) (ld_groups ?db)" by code_simp
  have dtos: "CreateAchievementGroupDto streaks_body = Some ?g" "CreateAchievementConfigDto (\<lambda>_. True) frequent_body = Some ?a"
    "CreateBadgeConfigDto (\<lambda>_. True) vip_body = Some ?b" by code_simp+
  have runs: "\<not> isl ?made" "\<not> isl ?made'" "\<not> isl ?made''" by code_simp+
  have shown: "ag_sortOrder (fst (projr ?made)) = 4" "ac_id (fst (projr ?made')) = ''ach_20_purchases''"
    "bc_id (fst (projr ?made'')) = ''bdg_vip''" by code_simp+
  show ?thesis
    using config_answer_recreates [OF orders dtos(1) Inr_of [OF runs(1)] dtos(2) Inr_of [OF runs(2)] dtos(3) Inr_of [OF runs(3)]] shown
    by (auto simp: sample_chain_def Let_def split_beta)
qed

end
