(* ===== verification/Topology.thy ===== *)
theory Topology
  imports Broker
begin

text \<open>
  The queues of the system: what \<open>connectAndSetup\<close> and \<open>bindAndConsume\<close> of
  \<open>packages/broker-sdk/src/broker.service.ts\<close> declare, what the consumers of the loyalty and the cashback
  service subscribe to, and how messages move through the declared queues when the channel operations of
  \<open>handleMessage\<close> are performed one at a time, over lost connections.

  RabbitMQ itself is not part of the repository. Where a message goes that is sent to an exchange is the
  argument \<open>route\<close>, with the documented rules of the default exchange and of a topic exchange as the
  hypothesis \<open>amqp_routing\<close>. The moves of the server are the documented ones: it hands out the head of a
  queue, keeps a message until it is acknowledged, puts it back when the connection is lost, and sends a
  rejected or expired message to the dead-letter exchange of its queue.
\<close>

section \<open>Declarations\<close>

datatype broker_exchange = EventsExchange | DeadLetterExchange

fun exchange_value :: "broker_exchange \<Rightarrow> string" where
  "exchange_value EventsExchange = ''bumpa.events''"
| "exchange_value DeadLetterExchange = ''bumpa.events.dlx''"

declare exchange_value.simps [simp del]

text \<open>The arguments \<open>x-dead-letter-exchange\<close> and \<open>x-dead-letter-routing-key\<close> of a queue.\<close>

record queue_arguments =
  dead_letter_exchange :: "string option"
  dead_letter_key :: "string option"

datatype topology_op =
    AssertExchange string
  | AssertQueue string queue_arguments
  | BindQueue string string string

definition setup_declarations :: "topology_op list" where
  "setup_declarations = [AssertExchange (exchange_value EventsExchange), AssertExchange (exchange_value DeadLetterExchange)]"

definition retry_queue :: "string \<Rightarrow> string" where
  "retry_queue queue = queue @ ''.retry''"

definition dead_letter_queue :: "string \<Rightarrow> string" where
  "dead_letter_queue queue = queue @ ''.dlq''"

type_synonym subscription = "string \<times> string"

definition bindAndConsume :: "subscription \<Rightarrow> topology_op list" where
  "bindAndConsume = (\<lambda>(queue, key).
     [AssertQueue (dead_letter_queue queue) \<lparr>dead_letter_exchange = None, dead_letter_key = None\<rparr>,
      BindQueue (dead_letter_queue queue) (exchange_value DeadLetterExchange) key,
      AssertQueue (retry_queue queue) \<lparr>dead_letter_exchange = Some [], dead_letter_key = Some queue\<rparr>,
      AssertQueue queue \<lparr>dead_letter_exchange = Some (exchange_value DeadLetterExchange), dead_letter_key = Some key\<rparr>,
      BindQueue queue (exchange_value EventsExchange) key])"

definition PurchaseCompletedConsumer :: subscription where
  "PurchaseCompletedConsumer = (queue_name_value LoyaltyPurchaseCompleted, event_name_value PurchaseCompleted)"

definition BadgeUnlockedConsumer :: subscription where
  "BadgeUnlockedConsumer = (queue_name_value CashbackBadgeUnlocked, event_name_value BadgeUnlocked)"

text \<open>What a service subscribes to, and what one connection of it declares, at the start and after a reconnect.\<close>

fun service_subscriptions :: "service_name \<Rightarrow> subscription list" where
  "service_subscriptions LoyaltyService = [PurchaseCompletedConsumer]"
| "service_subscriptions CashbackService = [BadgeUnlockedConsumer]"
| "service_subscriptions _ = []"

definition connection_declarations :: "service_name \<Rightarrow> topology_op list" where
  "connection_declarations service = setup_declarations @ concat (map bindAndConsume (service_subscriptions service))"

definition declared_by :: "service_name list \<Rightarrow> topology_op list" where
  "declared_by services = concat (map connection_declarations services)"

text \<open>
  A declaration the server refuses closes the channel: a queue asserted again with other arguments, or a
  binding of something that does not exist.
\<close>

fun accepted :: "topology_op list \<Rightarrow> topology_op \<Rightarrow> bool" where
  "accepted earlier (AssertExchange x) = True"
| "accepted earlier (AssertQueue q a) = list_all (\<lambda>d. case d of AssertQueue q' a' \<Rightarrow> q' = q \<longrightarrow> a' = a | _ \<Rightarrow> True) earlier"
| "accepted earlier (BindQueue q x k) =
     (AssertExchange x \<in> set earlier \<and> list_ex (\<lambda>d. case d of AssertQueue q' _ \<Rightarrow> q' = q | _ \<Rightarrow> False) earlier)"

fun all_accepted :: "topology_op list \<Rightarrow> topology_op list \<Rightarrow> bool" where
  "all_accepted earlier [] = True"
| "all_accepted earlier (d # ds) = (accepted earlier d \<and> all_accepted (earlier @ [d]) ds)"

section \<open>Routing\<close>

type_synonym routing = "topology_op set \<Rightarrow> string \<Rightarrow> string \<Rightarrow> string set"

text \<open>
  The default exchange, with the empty name, leads to the queue named by the key; a topic exchange leads to
  the queues bound with that key, as long as no binding of it has a wildcard.
\<close>

definition plain_key :: "string \<Rightarrow> bool" where
  "plain_key k \<longleftrightarrow> CHR ''*'' \<notin> set k \<and> CHR ''#'' \<notin> set k"

definition amqp_routing :: "routing \<Rightarrow> bool" where
  "amqp_routing route \<longleftrightarrow>
     (\<forall>D k. route D [] k = {q. q = k \<and> (\<exists>a. AssertQueue q a \<in> D)}) \<and>
     (\<forall>D x k. x \<noteq> [] \<and> (\<forall>q b. BindQueue q x b \<in> D \<longrightarrow> plain_key b) \<longrightarrow> route D x k = {q. BindQueue q x k \<in> D})"

section \<open>Messages on the move\<close>

text \<open>
  The server keeps the messages of each queue in order, and the messages it has handed out and that are not
  acknowledged, under a delivery tag that counts the deliveries on the consumer's channel. The service keeps the
  handler runs: the tag and message they were started with and the channel operations still to be performed,
  \<open>None\<close> while the handler has not returned. \<open>nw_detached\<close> are the runs that have lost their connection and
  return before there is a new one. \<open>nw_published\<close> and \<open>nw_done\<close> record the messages published and
  those whose handler has returned, by queue, identifier and content.
\<close>

record 's broker_network =
  nw_ready :: "string \<Rightarrow> message list"
  nw_unacked :: "(string \<times> nat \<times> message) list"
  nw_tag :: "string \<Rightarrow> nat"
  nw_running :: "(string \<times> nat \<times> message \<times> channel_op list option) list"
  nw_detached :: "(string \<times> message) list"
  nw_world :: 's
  nw_published :: "message list"
  nw_done :: "(string \<times> string \<times> string) set"

definition start_network :: "'s \<Rightarrow> 's broker_network" where
  "start_network w = \<lparr>nw_ready = (\<lambda>_. []), nw_unacked = [], nw_tag = (\<lambda>_. 0), nw_running = [], nw_detached = [], nw_world = w,
     nw_published = [], nw_done = {}\<rparr>"

definition PREFETCH :: nat where "PREFETCH = 10"

definition enqueue :: "string set \<Rightarrow> message \<Rightarrow> 's broker_network \<Rightarrow> 's broker_network" where
  "enqueue Q m n = n\<lparr>nw_ready := (\<lambda>q. if q \<in> Q then nw_ready n q @ [m] else nw_ready n q)\<rparr>"

definition dead_letter :: "routing \<Rightarrow> topology_op set \<Rightarrow> queue_arguments \<Rightarrow> message \<Rightarrow> 's broker_network \<Rightarrow> 's broker_network" where
  "dead_letter route D a m n =
     (case dead_letter_exchange a of
        None \<Rightarrow> n
      | Some x \<Rightarrow>
          (let key = (case dead_letter_key a of Some k \<Rightarrow> k | None \<Rightarrow> routingKey m)
           in enqueue (route D x key) (m\<lparr>routingKey := key\<rparr>) n))"

text \<open>The unacknowledged messages of a queue, and the server's part of a lost connection: they go back to its head.\<close>

definition unacked_of :: "string \<Rightarrow> 's broker_network \<Rightarrow> message list" where
  "unacked_of q n = map (snd \<circ> snd) (filter (\<lambda>u. fst u = q) (nw_unacked n))"

definition requeue :: "string \<Rightarrow> 's broker_network \<Rightarrow> 's broker_network" where
  "requeue q n = n\<lparr>nw_ready := (nw_ready n)(q := unacked_of q n @ nw_ready n q),
     nw_unacked := filter (\<lambda>u. fst u \<noteq> q) (nw_unacked n), nw_tag := (nw_tag n)(q := 0)\<rparr>"

definition settle :: "string \<Rightarrow> nat \<Rightarrow> 's broker_network \<Rightarrow> 's broker_network" where
  "settle q tag n = n\<lparr>nw_unacked := filter (\<lambda>(q', tag', _). \<not> (q' = q \<and> tag' = tag)) (nw_unacked n)\<rparr>"

text \<open>The message a service publishes: \<open>JSON.stringify\<close> is the argument \<open>stringify\<close>.\<close>

definition published_message :: "(bumpa_domain_event \<Rightarrow> string) \<Rightarrow> bumpa_domain_event \<Rightarrow> message" where
  "published_message stringify e =
     \<lparr>content = stringify e, retry_header = None, routingKey = event_name_value (bumpa_event_type e), messageId = bumpa_event_id e\<rparr>"

text \<open>One run of the handler on a delivered message, over whatever has become of the channel meanwhile.\<close>

definition run_handler ::
  "(string \<Rightarrow> 'e option) \<Rightarrow> (string \<Rightarrow> 'e \<Rightarrow> 's \<Rightarrow> string option \<times> 's) \<Rightarrow> channel option \<Rightarrow> string \<Rightarrow> message
     \<Rightarrow> 's broker_network \<Rightarrow> channel_op list \<times> 's broker_network" where
  "run_handler parse handler ch q m n =
     (let (ops, w) = handleMessage parse (handler q) ch (Some m) q (nw_world n);
          done' = (case parse (content m) of
                     Some e \<Rightarrow> if fst (handler q e (nw_world n)) = None then {(q, messageId m, content m)} else {}
                   | None \<Rightarrow> {})
      in (ops, n\<lparr>nw_world := w, nw_done := nw_done n \<union> done'\<rparr>))"

text \<open>
  The steps. The operations of a run refer to its message by its tag on the channel that is current when they
  are performed. When a connection is lost, the operations in flight on it are lost, and a handler that returns
  before the reconnect finds no channel. When \<open>stale\<close> is set a handler may also be slower than the reconnect: its
  run goes on and performs its operations on the next channel. A process that dies takes its runs with it. A tag
  the server does not know makes it close the channel.
\<close>

inductive network_step ::
  "bool \<Rightarrow> routing \<Rightarrow> topology_op set \<Rightarrow> (bumpa_domain_event \<Rightarrow> string) \<Rightarrow> (string \<Rightarrow> 'e option)
     \<Rightarrow> (string \<Rightarrow> 'e \<Rightarrow> 's \<Rightarrow> string option \<times> 's) \<Rightarrow> 's broker_network \<Rightarrow> 's broker_network \<Rightarrow> bool"
  for stale route D stringify parse handler where
  publishes: "m = published_message stringify e \<Longrightarrow>
     network_step stale route D stringify parse handler n
       ((enqueue (route D (exchange_value EventsExchange) (routingKey m)) m n)\<lparr>nw_published := nw_published n @ [m]\<rparr>)"
| delivers: "BindQueue q (exchange_value EventsExchange) k \<in> D \<Longrightarrow> nw_ready n q = m # ms \<Longrightarrow> length (unacked_of q n) < PREFETCH \<Longrightarrow>
     network_step stale route D stringify parse handler n
       (n\<lparr>nw_ready := (nw_ready n)(q := ms), nw_unacked := nw_unacked n @ [(q, nw_tag n q, m)],
          nw_tag := (nw_tag n)(q := Suc (nw_tag n q)), nw_running := nw_running n @ [(q, nw_tag n q, m, None)]\<rparr>)"
| handles: "nw_running n = us @ (q, tag, m, None) # vs \<Longrightarrow> run_handler parse handler ch q m n = (ops, n') \<Longrightarrow>
     network_step stale route D stringify parse handler n (n'\<lparr>nw_running := us @ (q, tag, m, Some ops) # vs\<rparr>)"
| acks: "nw_running n = us @ (q, tag, m, Some (Ack m' # ops)) # vs \<Longrightarrow> (q, tag, u) \<in> set (nw_unacked n) \<Longrightarrow>
     network_step stale route D stringify parse handler n (settle q tag (n\<lparr>nw_running := us @ vs\<rparr>))"
| nacks: "nw_running n = us @ (q, tag, m, Some (Nack m' # ops)) # vs \<Longrightarrow> (q, tag, u) \<in> set (nw_unacked n) \<Longrightarrow> AssertQueue q a \<in> D \<Longrightarrow>
     network_step stale route D stringify parse handler n (dead_letter route D a u (settle q tag (n\<lparr>nw_running := us @ vs\<rparr>)))"
| sends: "nw_running n = us @ (q, tag, m, Some (SendToQueue q' m' d # ops)) # vs \<Longrightarrow>
     network_step stale route D stringify parse handler n
       (enqueue (route D [] q') (m'\<lparr>routingKey := q'\<rparr>) (n\<lparr>nw_running := us @ (q, tag, m, Some ops) # vs\<rparr>))"
| refused: "nw_running n = us @ (q, tag, m, Some (op # ops)) # vs \<Longrightarrow> op = Ack m' \<or> op = Nack m' \<Longrightarrow>
     \<forall>u. (q, tag, u) \<notin> set (nw_unacked n) \<Longrightarrow>
     network_step stale route D stringify parse handler n (requeue q (n\<lparr>nw_running := us @ vs\<rparr>))"
| returns: "nw_running n = us @ (q, tag, m, Some []) # vs \<Longrightarrow>
     network_step stale route D stringify parse handler n (n\<lparr>nw_running := us @ vs\<rparr>)"
| connection_lost: "network_step stale route D stringify parse handler n
     (requeue q (n\<lparr>nw_running := filter (\<lambda>r. fst r \<noteq> q) (nw_running n),
        nw_detached := nw_detached n @ [(q', m). (q', _, m, None) \<leftarrow> nw_running n, q' = q]\<rparr>))"
| finishes: "nw_detached n = us @ (q, m) # vs \<Longrightarrow> run_handler parse handler None q m n = (ops, n') \<Longrightarrow>
     network_step stale route D stringify parse handler n (n'\<lparr>nw_detached := us @ vs\<rparr>)"
| outlives: "stale \<Longrightarrow> network_step stale route D stringify parse handler n (requeue q n)"
| dies: "network_step stale route D stringify parse handler n
     (requeue q (n\<lparr>nw_running := filter (\<lambda>r. fst r \<noteq> q) (nw_running n),
        nw_detached := filter (\<lambda>r. fst r \<noteq> q) (nw_detached n)\<rparr>))"
| expires: "BindQueue q (exchange_value EventsExchange) k \<in> D \<Longrightarrow> nw_ready n (retry_queue q) = m # ms \<Longrightarrow>
     AssertQueue (retry_queue q) a \<in> D \<Longrightarrow>
     network_step stale route D stringify parse handler n (dead_letter route D a m (n\<lparr>nw_ready := (nw_ready n)(retry_queue q := ms)\<rparr>))"

section \<open>What is declared\<close>

definition all_subscriptions :: "subscription list" where
  "all_subscriptions = [PurchaseCompletedConsumer, BadgeUnlockedConsumer]"

definition all_declarations :: "topology_op list" where
  "all_declarations = setup_declarations @ concat (map bindAndConsume all_subscriptions)"

lemma declared_all:
  "set (connection_declarations s) \<subseteq> set all_declarations"
  by (cases s) (auto simp: connection_declarations_def all_declarations_def all_subscriptions_def)

lemma all_accepted_append: "all_accepted earlier (ds @ es) = (all_accepted earlier ds \<and> all_accepted (earlier @ ds) es)"
  by (induction ds arbitrary: earlier) simp_all

text \<open>Declarations of the system never contradict each other, and those of one connection rest on nothing else.\<close>

lemma consistent_arguments:
  "AssertQueue q a \<in> set all_declarations \<Longrightarrow> AssertQueue q a' \<in> set all_declarations \<Longrightarrow> a = a'"
proof -
  have "distinct (map fst [(q, a). AssertQueue q a \<leftarrow> all_declarations])" by code_simp
  moreover assume "AssertQueue q a \<in> set all_declarations" "AssertQueue q a' \<in> set all_declarations"
  then have "(q, a) \<in> set [(q, a). AssertQueue q a \<leftarrow> all_declarations]" "(q, a') \<in> set [(q, a). AssertQueue q a \<leftarrow> all_declarations]"
    by force+
  ultimately show "a = a'" by (rule eq_key_imp_eq_value)
qed


lemma accepted_mono:
  assumes "accepted earlier d" and "set earlier \<subseteq> set earlier'" and "set earlier' \<subseteq> set all_declarations" and "d \<in> set all_declarations"
  shows "accepted earlier' d"
proof (cases d)
  case (AssertQueue q a)
  have "a' = a" if "AssertQueue q a' \<in> set earlier'" for a'
    using that assms(3,4) consistent_arguments [of q a' a] AssertQueue by blast
  then show ?thesis by (auto simp: AssertQueue list_all_iff split: topology_op.splits)
next
  case (BindQueue q x k)
  with assms(1,2) show ?thesis by (auto simp: list_ex_iff subset_iff)
qed simp

lemma all_accepted_mono:
  assumes "all_accepted earlier ds" and "set earlier \<subseteq> set earlier'" and "set earlier' \<subseteq> set all_declarations" and "set ds \<subseteq> set all_declarations"
  shows "all_accepted earlier' ds"
  using assms
proof (induction ds arbitrary: earlier earlier')
  case (Cons d ds)
  have "all_accepted (earlier' @ [d]) ds"
    by (rule Cons.IH [of "earlier @ [d]"]) (use Cons.prems in \<open>simp_all add: subset_iff\<close>)
  moreover have "accepted earlier' d"
    by (rule accepted_mono [of earlier]) (use Cons.prems in simp_all)
  ultimately show ?case by simp
qed simp

lemma connection_accepted: "set earlier \<subseteq> set all_declarations \<Longrightarrow> all_accepted earlier (connection_declarations s)"
proof (rule all_accepted_mono [of "[]"])
  show "all_accepted [] (connection_declarations s)" by (cases s; hypsubst) code_simp+
qed (simp_all add: declared_all)

lemma declarations_accepted: "set earlier \<subseteq> set all_declarations \<Longrightarrow> all_accepted earlier (declared_by ss)"
proof (induction ss arbitrary: earlier)
  case (Cons s ss)
  then have "set (earlier @ connection_declarations s) \<subseteq> set all_declarations" using declared_all by auto
  with Cons show ?case by (simp add: declared_by_def all_accepted_append connection_accepted)
qed (simp add: declared_by_def)

lemma declared_subset: "set (declared_by ss) \<subseteq> set all_declarations"
  using declared_all by (auto simp: declared_by_def)

lemma declared_by_both:
  assumes "LoyaltyService \<in> set ss" and "CashbackService \<in> set ss"
  shows "set (declared_by ss) = set all_declarations"
proof
  show "set (declared_by ss) \<subseteq> set all_declarations" by (rule declared_subset)
  have "set all_declarations \<subseteq> set (connection_declarations LoyaltyService) \<union> set (connection_declarations CashbackService)"
    by (auto simp: connection_declarations_def all_declarations_def all_subscriptions_def)
  with assms show "set all_declarations \<subseteq> set (declared_by ss)" by (auto simp: declared_by_def)
qed

section \<open>Where messages go\<close>

lemmas topology_defs = all_declarations_def setup_declarations_def bindAndConsume_def all_subscriptions_def

lemma binds:
  "BindQueue q x k \<in> set all_declarations \<longleftrightarrow>
     (\<exists>q'. (q', k) \<in> set all_subscriptions \<and> (x = exchange_value EventsExchange \<and> q = q' \<or> x = exchange_value DeadLetterExchange \<and> q = dead_letter_queue q'))"
  by (auto simp: all_declarations_def setup_declarations_def bindAndConsume_def)

lemma exchanges_differ [simp]: "exchange_value EventsExchange \<noteq> exchange_value DeadLetterExchange"
  by (simp add: exchange_value.simps)

lemmas exchanges_differ' [simp] = exchanges_differ [symmetric]

lemma binds_events [simp]: "BindQueue q (exchange_value EventsExchange) k \<in> set all_declarations \<longleftrightarrow> (q, k) \<in> set all_subscriptions"
  by (auto simp: binds)

lemma binds_dead [simp]:
  "BindQueue q (exchange_value DeadLetterExchange) k \<in> set all_declarations \<longleftrightarrow> (\<exists>q'. (q', k) \<in> set all_subscriptions \<and> q = dead_letter_queue q')"
  by (auto simp: binds)

lemma plain_bindings: "BindQueue q x k \<in> set all_declarations \<Longrightarrow> plain_key k"
proof -
  have "list_all (\<lambda>(q, k). plain_key k) all_subscriptions" by code_simp
  then show "BindQueue q x k \<in> set all_declarations \<Longrightarrow> plain_key k" by (auto simp: binds list_all_iff)
qed

lemma asserts_main: "(q, k) \<in> set all_subscriptions \<Longrightarrow> AssertQueue q a \<in> set all_declarations \<longleftrightarrow>
    a = \<lparr>dead_letter_exchange = Some (exchange_value DeadLetterExchange), dead_letter_key = Some k\<rparr>"
proof -
  assume "(q, k) \<in> set all_subscriptions"
  then have "AssertQueue q \<lparr>dead_letter_exchange = Some (exchange_value DeadLetterExchange), dead_letter_key = Some k\<rparr> \<in> set all_declarations"
    by (force simp: all_declarations_def bindAndConsume_def)
  with consistent_arguments show ?thesis by blast
qed

lemma asserts_retry: "(q, k) \<in> set all_subscriptions \<Longrightarrow> AssertQueue (retry_queue q) a \<in> set all_declarations \<longleftrightarrow>
    a = \<lparr>dead_letter_exchange = Some [], dead_letter_key = Some q\<rparr>"
proof -
  assume "(q, k) \<in> set all_subscriptions"
  then have "AssertQueue (retry_queue q) \<lparr>dead_letter_exchange = Some [], dead_letter_key = Some q\<rparr> \<in> set all_declarations"
    by (force simp: all_declarations_def bindAndConsume_def)
  with consistent_arguments show ?thesis by blast
qed

lemma route_topic:
  assumes "amqp_routing route" and "x \<noteq> []" and "D \<subseteq> set all_declarations"
  shows "route D x k = {q. BindQueue q x k \<in> D}"
proof -
  have "\<forall>q b. BindQueue q x b \<in> D \<longrightarrow> plain_key b" using plain_bindings assms(3) by blast
  with assms(1,2) show ?thesis by (simp add: amqp_routing_def)
qed

lemma exchange_names: "exchange_value x \<noteq> []"
  by (cases x) (simp_all add: exchange_value.simps)

lemma route_events:
  "amqp_routing route \<Longrightarrow> route (set all_declarations) (exchange_value EventsExchange) k = {q. (q, k) \<in> set all_subscriptions}"
  by (simp add: route_topic exchange_names)

lemma route_dead:
  "amqp_routing route \<Longrightarrow>
     route (set all_declarations) (exchange_value DeadLetterExchange) k = dead_letter_queue ` {q. (q, k) \<in> set all_subscriptions}"
  by (auto simp: route_topic exchange_names)

lemma route_named:
  assumes "amqp_routing route" and "AssertQueue q a \<in> D"
  shows "route D [] q = {q}"
proof -
  have "route D [] q = {p. p = q \<and> (\<exists>a. AssertQueue p a \<in> D)}" using assms(1) unfolding amqp_routing_def by blast
  with assms(2) show ?thesis by blast
qed

lemma route_default:
  assumes "amqp_routing route" and "(q, k) \<in> set all_subscriptions"
  shows "route (set all_declarations) [] q = {q}" and "route (set all_declarations) [] (retry_queue q) = {retry_queue q}"
  using route_named [OF assms(1)] asserts_main [OF assms(2)] asserts_retry [OF assms(2)] by blast+

text \<open>The queues of the system do not collide, and a queue belongs to one subscription.\<close>

definition consumed :: "string set" where
  "consumed = fst ` set all_subscriptions"

lemma subscription_key: "(q, k) \<in> set all_subscriptions \<Longrightarrow> (q, k') \<in> set all_subscriptions \<Longrightarrow> k = k'"
proof -
  have "distinct (map fst all_subscriptions)" by code_simp
  then show "(q, k) \<in> set all_subscriptions \<Longrightarrow> (q, k') \<in> set all_subscriptions \<Longrightarrow> k = k'" by (rule eq_key_imp_eq_value)
qed

lemma key_subscription: "(q, k) \<in> set all_subscriptions \<Longrightarrow> (q', k) \<in> set all_subscriptions \<Longrightarrow> q = q'"
proof -
  have "distinct (map snd all_subscriptions)" by code_simp
  then show "(q, k) \<in> set all_subscriptions \<Longrightarrow> (q', k) \<in> set all_subscriptions \<Longrightarrow> q = q'"
    using inj_onD [of snd "set all_subscriptions" "(q, k)" "(q', k)"] by (simp add: distinct_map)
qed

lemma queues_differ:
  assumes "q \<in> consumed" and "q' \<in> consumed"
  shows "retry_queue q \<noteq> q'" "dead_letter_queue q \<noteq> q'" "retry_queue q \<noteq> dead_letter_queue q'"
    "retry_queue q = retry_queue q' \<longleftrightarrow> q = q'" "dead_letter_queue q = dead_letter_queue q' \<longleftrightarrow> q = q'"
proof -
  have "list_all (\<lambda>q. list_all (\<lambda>q'. retry_queue q \<noteq> q' \<and> dead_letter_queue q \<noteq> q' \<and> retry_queue q \<noteq> dead_letter_queue q')
      (map fst all_subscriptions)) (map fst all_subscriptions)" by code_simp
  then show "retry_queue q \<noteq> q'" "dead_letter_queue q \<noteq> q'" "retry_queue q \<noteq> dead_letter_queue q'"
    using assms by (auto simp: consumed_def list_all_iff)
qed (simp_all add: retry_queue_def dead_letter_queue_def)

lemma subscribed_consumed: "(q, k) \<in> set all_subscriptions \<Longrightarrow> q \<in> consumed"
  by (force simp: consumed_def)

lemma not_subscribed:
  assumes "q \<in> consumed"
  shows "(retry_queue q, k) \<notin> set all_subscriptions" "(dead_letter_queue q, k) \<notin> set all_subscriptions"
  using queues_differ(1,2) [OF assms] subscribed_consumed by blast+

section \<open>Handler runs\<close>

definition signature :: "message \<Rightarrow> string \<times> string" where
  "signature m = (messageId m, content m)"

lemma signature_update [simp]: "signature (m\<lparr>routingKey := k\<rparr>) = signature m" "signature (m\<lparr>retry_header := h\<rparr>) = signature m"
  by (simp_all add: signature_def)

lemma retry_count_update [simp]: "readRetryCount (m\<lparr>routingKey := k\<rparr>) = readRetryCount m"
  "readRetryCount (m\<lparr>retry_header := Some (HNumber c)\<rparr>) = c"
  by (simp_all add: readRetryCount_def)

text \<open>The operations \<open>handleMessage\<close> leaves to be performed for a message, and the suffixes of them.\<close>

fun due :: "string \<Rightarrow> message \<Rightarrow> channel_op list \<Rightarrow> bool" where
  "due q m [] = True"
| "due q m (Ack m' # ops) = (m' = m \<and> ops = [])"
| "due q m (Nack m' # ops) = (m' = m \<and> ops = [])"
| "due q m (SendToQueue q' m' d # ops) =
     (q' = retry_queue q \<and> signature m' = signature m \<and> readRetryCount m' \<le> MAX_RETRY_ATTEMPTS \<and> (ops = [] \<or> ops = [Ack m]))"

lemma due_handleMessage: "handleMessage parse handler ch (Some m) q s = (ops, s') \<Longrightarrow> due q m ops"
  by (auto simp: handleMessage_def safeAck_def safeNack_def scheduleRedelivery_def retry_queue_def Let_def not_le
      split: option.splits prod.splits if_splits)

lemma ack_only_when_handled:
  "handleMessage parse handler ch (Some m) q s = ([Ack m'], s') \<Longrightarrow> \<exists>e. parse (content m) = Some e \<and> fst (handler e s) = None"
  by (auto simp: handleMessage_def safeAck_def safeNack_def scheduleRedelivery_def Let_def
      split: option.splits prod.splits if_splits)

section \<open>Invariants\<close>

definition waiting :: "string \<Rightarrow> 's broker_network \<Rightarrow> message set" where
  "waiting q n = set (nw_ready n q) \<union> set (nw_ready n (retry_queue q)) \<union> set (nw_ready n (dead_letter_queue q))"

definition copies :: "string \<Rightarrow> 's broker_network \<Rightarrow> message set" where
  "copies q n = waiting q n \<union> {m. \<exists>tag. (q, tag, m) \<in> set (nw_unacked n)}"

text \<open>A copy whose only operation left is its acknowledgement does not count any more.\<close>

definition live :: "string \<Rightarrow> 's broker_network \<Rightarrow> message set" where
  "live q n = waiting q n \<union> {m. \<exists>tag. (q, tag, m) \<in> set (nw_unacked n) \<and> (q, tag, m, Some [Ack m]) \<notin> set (nw_running n)}"

definition runs_match :: "'s broker_network \<Rightarrow> bool" where
  "runs_match n \<longleftrightarrow>
     distinct (map (\<lambda>(q, tag, m). (q, tag)) (nw_unacked n)) \<and> distinct (map (\<lambda>(q, tag, m, st). (q, tag)) (nw_running n)) \<and>
     (\<forall>(q, tag, m) \<in> set (nw_unacked n). q \<in> consumed \<and> tag < nw_tag n q) \<and>
     (\<forall>(q, tag, m, st) \<in> set (nw_running n). (q, tag, m) \<in> set (nw_unacked n) \<and> (case st of Some ops \<Rightarrow> due q m ops | None \<Rightarrow> True))"

text \<open>Every step keeps the runs of the services and the unacknowledged messages of the server matched.\<close>

lemma match_ready [simp]: "runs_match (n\<lparr>nw_ready := r\<rparr>) = runs_match n" "runs_match (n\<lparr>nw_detached := ds\<rparr>) = runs_match n" "runs_match (n\<lparr>nw_published := p\<rparr>) = runs_match n"
  by (simp_all add: runs_match_def)

lemma match_enqueue [simp]: "runs_match (enqueue Q m n) = runs_match n"
  by (simp add: enqueue_def)

lemma match_dead_letter [simp]: "runs_match (dead_letter route D a m n) = runs_match n"
  by (simp add: dead_letter_def Let_def split: option.splits)

lemma match_settle:
  assumes "runs_match n" and "nw_running n = us @ (q, tag, m, st) # vs"
  shows "runs_match (settle q tag (n\<lparr>nw_running := us @ vs\<rparr>))"
  using assms unfolding runs_match_def settle_def
  by (auto simp: distinct_map_filter split_def image_iff)

lemma match_requeue:
  assumes "runs_match n" and "list_all (\<lambda>r. fst r \<noteq> q) (nw_running n)"
  shows "runs_match (requeue q n)"
  using assms unfolding runs_match_def requeue_def
  by (auto simp: distinct_map_filter split_def list_all_iff)

lemma match_runs:
  assumes "runs_match n" and "distinct (map (\<lambda>(q, tag, m, st). (q, tag)) rs)" and "set rs \<subseteq> set (nw_running n)"
  shows "runs_match (n\<lparr>nw_running := rs\<rparr>)"
  using assms unfolding runs_match_def by auto

lemma match_dies: "runs_match n \<Longrightarrow> runs_match (n\<lparr>nw_running := filter (\<lambda>r. fst r \<noteq> q) (nw_running n)\<rparr>)"
  by (rule match_runs) (auto simp: runs_match_def distinct_map_filter)

lemma match_step:
  assumes "network_step False route D stringify parse handler n n'" and "runs_match n" and "D = set all_declarations"
  shows "runs_match n'"
  using assms(1)
proof cases
  case (delivers q k m ms)
  have q: "q \<in> consumed" using delivers(2) assms(3) by (force simp: consumed_def)
  show ?thesis
    using assms(2) q unfolding delivers(1) runs_match_def by (fastforce simp: split_def)
next
  case (handles us q tag m vs ch ops n1)
  then have "due q m ops" "nw_unacked n1 = nw_unacked n" "nw_tag n1 = nw_tag n"
    using due_handleMessage by (auto simp: run_handler_def Let_def split: prod.splits)
  with assms(2) handles show ?thesis unfolding runs_match_def by auto
next
  case (acks us q tag m m' ops vs u)
  with match_settle [OF assms(2) acks(2)] show ?thesis by simp
next
  case (nacks us q tag m m' ops vs u a)
  with match_settle [OF assms(2) nacks(2)] show ?thesis by simp
next
  case (sends us q tag m q' m' d ops vs)
  then have "due q m ops" using assms(2) by (auto simp: runs_match_def)
  then show ?thesis unfolding sends(1) match_enqueue using assms(2) sends(2) unfolding runs_match_def by auto
next
  case (refused us q tag m op ops vs m')
  then have "(q, tag, m) \<in> set (nw_unacked n)" using assms(2) by (auto simp: runs_match_def)
  with refused(4) show ?thesis by blast
next
  case (returns us q tag m vs)
  show ?thesis unfolding returns(1)
    by (rule match_runs [OF assms(2)]) (use assms(2) returns(2) in \<open>auto simp: runs_match_def\<close>)
next
  case (connection_lost q)
  show ?thesis unfolding connection_lost(1) by (rule match_requeue) (use match_dies [OF assms(2)] in \<open>simp_all add: list_all_iff\<close>)
next
  case (finishes us q m vs ops n1)
  then have "nw_unacked n1 = nw_unacked n" "nw_tag n1 = nw_tag n" "nw_running n1 = nw_running n"
    by (auto simp: run_handler_def Let_def split: prod.splits)
  then show ?thesis unfolding finishes(1) using assms(2) by (simp add: runs_match_def)
next
  case (dies q)
  show ?thesis unfolding dies(1) by (rule match_requeue) (use match_dies [OF assms(2)] in \<open>simp_all add: list_all_iff\<close>)
qed (use assms(2) in simp_all)

subsection \<open>Copies\<close>

lemma waiting_enqueue:
  "waiting q (enqueue Q m n) =
     waiting q n \<union> (if q \<in> Q \<or> retry_queue q \<in> Q \<or> dead_letter_queue q \<in> Q then {m} else {})"
  by (auto simp: waiting_def enqueue_def)

lemma enqueue_keeps [simp]:
  "nw_unacked (enqueue Q m n) = nw_unacked n" "nw_running (enqueue Q m n) = nw_running n"
  "nw_published (enqueue Q m n) = nw_published n" "nw_done (enqueue Q m n) = nw_done n"
  by (simp_all add: enqueue_def)

lemma dead_letter_main:
  assumes "amqp_routing route" and "(q, k) \<in> set all_subscriptions" and "AssertQueue q a \<in> set all_declarations"
  shows "dead_letter route (set all_declarations) a m n = enqueue {dead_letter_queue q} (m\<lparr>routingKey := k\<rparr>) n"
proof -
  have "{q'. (q', k) \<in> set all_subscriptions} = {q}" using assms(2) key_subscription by auto
  with assms(3) show ?thesis
    by (simp add: asserts_main [OF assms(2)] dead_letter_def route_dead [OF assms(1)])
qed

lemma dead_letter_retry:
  assumes "amqp_routing route" and "(q, k) \<in> set all_subscriptions" and "AssertQueue (retry_queue q) a \<in> set all_declarations"
  shows "dead_letter route (set all_declarations) a m n = enqueue {q} (m\<lparr>routingKey := q\<rparr>) n"
  using assms(3) by (simp add: asserts_retry [OF assms(2)] dead_letter_def route_default [OF assms(1,2)])

lemma consumed_key: "q \<in> consumed \<Longrightarrow> \<exists>k. (q, k) \<in> set all_subscriptions"
  by (auto simp: consumed_def)

lemma unacked_elsewhere: "runs_match n \<Longrightarrow> p \<notin> consumed \<Longrightarrow> filter (\<lambda>u. fst u = p) (nw_unacked n) = [] \<and> filter (\<lambda>u. fst u \<noteq> p) (nw_unacked n) = nw_unacked n"
  by (auto simp: runs_match_def filter_empty_conv filter_id_conv split_def)

lemma waiting_requeue:
  assumes "runs_match n" and "q \<in> consumed"
  shows "waiting q (requeue p n) = waiting q n \<union> (if q = p then set (unacked_of q n) else {})"
proof (cases "p \<in> consumed")
  case True
  with queues_differ [OF assms(2) True] show ?thesis by (auto simp: waiting_def requeue_def)
next
  case False
  then have "unacked_of p n = []" using unacked_elsewhere [OF assms(1)] by (simp add: unacked_of_def)
  with False assms(2) show ?thesis by (auto simp: waiting_def requeue_def)
qed

lemma set_unacked_of: "set (unacked_of q n) = {m. \<exists>tag. (q, tag, m) \<in> set (nw_unacked n)}"
  by (force simp: unacked_of_def)

lemma copies_requeue: "runs_match n \<Longrightarrow> q \<in> consumed \<Longrightarrow> copies q (requeue p n) = copies q n"
  by (auto simp: copies_def waiting_requeue set_unacked_of) (auto simp: requeue_def)

lemma live_requeue: "runs_match n \<Longrightarrow> q \<in> consumed \<Longrightarrow> live q n \<subseteq> live q (requeue p n)"
  by (auto simp: live_def waiting_requeue set_unacked_of) (auto simp: requeue_def)

text \<open>A connection that is lost takes the runs of its queue off the channel.\<close>

lemma copies_detach:
  assumes "runs_match n" and "q \<in> consumed"
  shows "copies q (requeue p (n\<lparr>nw_running := filter (\<lambda>r. fst r \<noteq> p) (nw_running n), nw_detached := ds\<rparr>)) = copies q n"
    (is "copies q (requeue p ?n) = _")
proof -
  have "copies q (requeue p ?n) = copies q ?n" by (rule copies_requeue) (simp_all add: match_dies assms)
  also have "\<dots> = copies q n" by (simp add: copies_def waiting_def)
  finally show ?thesis .
qed

lemma live_detach:
  assumes "runs_match n" and "q \<in> consumed"
  shows "live q n \<subseteq> live q (requeue p (n\<lparr>nw_running := filter (\<lambda>r. fst r \<noteq> p) (nw_running n), nw_detached := ds\<rparr>))"
    (is "_ \<subseteq> live q (requeue p ?n)")
proof -
  have "live q n \<subseteq> live q ?n" by (auto simp: live_def waiting_def)
  also have "\<dots> \<subseteq> live q (requeue p ?n)" by (rule live_requeue) (simp_all add: match_dies assms)
  finally show ?thesis .
qed

definition published_for :: "string \<Rightarrow> 's broker_network \<Rightarrow> (string \<times> string) set" where
  "published_for q n = signature ` {m \<in> set (nw_published n). (q, routingKey m) \<in> set all_subscriptions}"

text \<open>What one step does to the copies of a queue: it makes none but of a message just published.\<close>

lemma copies_step:
  assumes "network_step False route (set all_declarations) stringify parse handler n n'" and "amqp_routing route"
    and "runs_match n" and "q \<in> consumed"
  shows "signature ` copies q n' \<subseteq> signature ` copies q n \<union> published_for q n'"
  using assms(1)
proof cases
  case (publishes m e)
  show ?thesis
    unfolding publishes(1) copies_def using not_subscribed [OF assms(4)]
    by (auto simp: published_for_def route_events [OF assms(2)] enqueue_def waiting_def split: if_splits)
next
  case (delivers p k m ms)
  have "p \<in> consumed" using delivers(2) subscribed_consumed by simp
  then show ?thesis
    unfolding delivers(1) copies_def waiting_def using delivers(3) queues_differ [OF assms(4) \<open>p \<in> consumed\<close>]
    by (auto split: if_splits)
next
  case (handles us p tag m vs ch ops n1)
  then have "nw_unacked n1 = nw_unacked n" "nw_ready n1 = nw_ready n" by (auto simp: run_handler_def Let_def split: prod.splits)
  then show ?thesis unfolding handles(1) copies_def waiting_def by auto
next
  case (acks us p tag m m' ops vs u)
  then show ?thesis by (auto simp: copies_def waiting_def settle_def)
next
  case (nacks us p tag m m' ops vs u a)
  then have "p \<in> consumed" using assms(3) by (auto simp: runs_match_def)
  then obtain k where k: "(p, k) \<in> set all_subscriptions" using consumed_key by blast
  have "waiting q (settle p tag (n\<lparr>nw_running := us @ vs\<rparr>)) = waiting q n" by (simp add: settle_def waiting_def)
  then show ?thesis
    unfolding nacks(1) dead_letter_main [OF assms(2) k nacks(4)] copies_def waiting_enqueue
    using nacks(3) queues_differ [OF assms(4) \<open>p \<in> consumed\<close>]  queues_differ [OF \<open>p \<in> consumed\<close> assms(4)]
    by (auto simp: settle_def split: if_splits)
next
  case (sends us p tag m q' m' d ops vs)
  then have *: "(p, tag, m) \<in> set (nw_unacked n)" "p \<in> consumed" "q' = retry_queue p" "signature m' = signature m"
    using assms(3) by (auto simp: runs_match_def)
  then obtain k where k: "(p, k) \<in> set all_subscriptions" using consumed_key by blast
  show ?thesis
    unfolding sends(1) *(3) route_default(2) [OF assms(2) k] copies_def waiting_enqueue
    using *(1,4) queues_differ [OF assms(4) *(2)]  queues_differ [OF *(2) assms(4)]
    by (force simp: waiting_def split: if_splits)
next
  case (refused us p tag m op ops vs m')
  then have "(p, tag, m) \<in> set (nw_unacked n)" using assms(3) by (auto simp: runs_match_def)
  with refused(4) show ?thesis by blast
next
  case (returns us p tag m vs)
  show ?thesis unfolding returns(1) by (auto simp: copies_def waiting_def)
next
  case (connection_lost p)
  then show ?thesis using copies_detach [OF assms(3,4)] by auto
next
  case (finishes us p m vs ops n1)
  then have "nw_unacked n1 = nw_unacked n" "nw_ready n1 = nw_ready n" by (auto simp: run_handler_def Let_def split: prod.splits)
  then show ?thesis unfolding finishes(1) copies_def waiting_def by auto
next
  case (dies p)
  then show ?thesis using copies_detach [OF assms(3,4)] by auto
next
  case (expires p k m ms a)
  then have k: "(p, k) \<in> set all_subscriptions" by simp
  then have "p \<in> consumed" by (rule subscribed_consumed)
  show ?thesis
    unfolding expires(1) dead_letter_retry [OF assms(2) k expires(4)] copies_def waiting_enqueue
    using expires(3) queues_differ [OF assms(4) \<open>p \<in> consumed\<close>] queues_differ [OF \<open>p \<in> consumed\<close> assms(4)]
    by (auto simp: waiting_def split: if_splits)
qed simp

text \<open>And it loses none that still counts, unless the handler has returned.\<close>

lemma live_step:
  assumes "network_step False route (set all_declarations) stringify parse handler n n'" and "amqp_routing route"
    and "runs_match n" and "q \<in> consumed"
  shows "signature ` live q n \<subseteq> {s. (q, s) \<in> nw_done n'} \<union> signature ` live q n'"
  using assms(1)
proof cases
  case (publishes m e)
  then show ?thesis by (auto simp: live_def waiting_def enqueue_def)
next
  case (delivers p k m ms)
  have "p \<in> consumed" using delivers(2) subscribed_consumed by simp
  have old: "(p, nw_tag n p, m') \<notin> set (nw_unacked n)" for m' using assms(3) by (auto simp: runs_match_def)
  then have new: "(p, nw_tag n p, m', st) \<notin> set (nw_running n)" for m' st using assms(3) by (auto simp: runs_match_def)
  show ?thesis
    unfolding delivers(1) live_def waiting_def using delivers(3) new queues_differ [OF assms(4) \<open>p \<in> consumed\<close>]
    by (auto simp: image_iff split: if_splits)
next
  case (handles us p tag m vs ch ops n1)
  then have keep: "nw_unacked n1 = nw_unacked n" "nw_ready n1 = nw_ready n" by (auto simp: run_handler_def Let_def split: prod.splits)
  have "(p, signature m) \<in> nw_done n1" if "ops = [Ack m]"
    using handles(3) that ack_only_when_handled [of parse "handler p" ch m p "nw_world n" m]
    by (auto simp: run_handler_def signature_def split: prod.splits)
  moreover have "x \<in> live q n' \<or> q = p \<and> x = m \<and> ops = [Ack m]" if "x \<in> live q n" for x
    using that handles(2) keep unfolding handles(1) live_def waiting_def by auto
  ultimately show ?thesis unfolding handles(1) by fastforce
next
  case (acks us p tag m m' ops vs u)
  then have run: "m' = m" "ops = []" "(p, tag, m) \<in> set (nw_unacked n)" using assms(3) by (auto simp: runs_match_def)
  then have "(p, tag, m'') \<in> set (nw_unacked n) \<Longrightarrow> m'' = m" for m''
    using assms(3) eq_key_imp_eq_value [of "map (\<lambda>(q, tag, m). ((q, tag), m)) (nw_unacked n)" "(p, tag)" m'' m]
    by (force simp: runs_match_def comp_def split_def)
  then show ?thesis unfolding acks(1) live_def waiting_def settle_def using acks(2) run(1,2) by auto
next
  case (nacks us p tag m m' ops vs u a)
  then have run: "(p, tag, m) \<in> set (nw_unacked n)" "p \<in> consumed" using assms(3) by (auto simp: runs_match_def)
  then obtain k where k: "(p, k) \<in> set all_subscriptions" using consumed_key by blast
  have "(p, tag, m'') \<in> set (nw_unacked n) \<Longrightarrow> m'' = u" for m''
    using assms(3) nacks(3) eq_key_imp_eq_value [of "map (\<lambda>(q, tag, m). ((q, tag), m)) (nw_unacked n)" "(p, tag)" m'' u]
    by (force simp: runs_match_def comp_def split_def)
  moreover have "waiting q (settle p tag (n\<lparr>nw_running := us @ vs\<rparr>)) = waiting q n" by (simp add: settle_def waiting_def)
  ultimately show ?thesis
    unfolding nacks(1) dead_letter_main [OF assms(2) k nacks(4)] live_def waiting_enqueue
    using nacks(2) queues_differ(2) [OF run(2) assms(4)] by (auto simp: settle_def image_iff)
next
  case (sends us p tag m q' m' d ops vs)
  then have *: "(p, tag, m) \<in> set (nw_unacked n)" "p \<in> consumed" "q' = retry_queue p" "signature m' = signature m"
    using assms(3) by (auto simp: runs_match_def)
  then obtain k where k: "(p, k) \<in> set all_subscriptions" using consumed_key by blast
  show ?thesis
    unfolding sends(1) *(3) route_default(2) [OF assms(2) k] live_def waiting_enqueue
    using sends(2) *(4) by (auto simp: waiting_def image_iff)
next
  case (refused us p tag m op ops vs m')
  then have "(p, tag, m) \<in> set (nw_unacked n)" using assms(3) by (auto simp: runs_match_def)
  with refused(4) show ?thesis by blast
next
  case (returns us p tag m vs)
  show ?thesis unfolding returns(1) live_def waiting_def using returns(2) by auto
next
  case (connection_lost p)
  then show ?thesis using live_detach [OF assms(3,4)] by blast
next
  case (finishes us p m vs ops n1)
  then have "nw_unacked n1 = nw_unacked n" "nw_ready n1 = nw_ready n" "nw_running n1 = nw_running n"
    by (auto simp: run_handler_def Let_def split: prod.splits)
  then show ?thesis unfolding finishes(1) live_def waiting_def by auto
next
  case (dies p)
  then show ?thesis using live_detach [OF assms(3,4)] by blast
next
  case (expires p k m ms a)
  then have k: "(p, k) \<in> set all_subscriptions" by simp
  then have "p \<in> consumed" by (rule subscribed_consumed)
  show ?thesis
    unfolding expires(1) dead_letter_retry [OF assms(2) k expires(4)] live_def waiting_enqueue
    using expires(3) queues_differ [OF assms(4) \<open>p \<in> consumed\<close>] queues_differ [OF \<open>p \<in> consumed\<close> assms(4)]
    by (auto simp: waiting_def image_iff split: if_splits)
qed simp


section \<open>Runs of the system\<close>

lemma run_handler_keeps:
  assumes "run_handler parse handler ch q m n = (ops, n')"
  shows "nw_unacked n' = nw_unacked n" "nw_running n' = nw_running n" "nw_detached n' = nw_detached n"
    "nw_ready n' = nw_ready n" "nw_published n' = nw_published n"
    "nw_done n \<subseteq> nw_done n'" "nw_done n' \<subseteq> insert (q, signature m) (nw_done n)"
  using assms by (auto simp: run_handler_def Let_def signature_def split: prod.splits option.splits if_splits)

lemma published_kept [simp]:
  "nw_published (dead_letter route D a m n) = nw_published n" "nw_done (dead_letter route D a m n) = nw_done n"
  "nw_detached (dead_letter route D a m n) = nw_detached n" "nw_detached (enqueue Q m n) = nw_detached n"
  "nw_published (settle q tag n) = nw_published n" "nw_done (settle q tag n) = nw_done n" "nw_detached (settle q tag n) = nw_detached n"
  "nw_published (requeue q n) = nw_published n" "nw_done (requeue q n) = nw_done n" "nw_detached (requeue q n) = nw_detached n"
  by (simp_all add: dead_letter_def enqueue_def settle_def requeue_def Let_def split: option.splits)

lemma step_grows:
  assumes "network_step stale route D stringify parse handler n n'"
  shows "set (nw_published n) \<subseteq> set (nw_published n')" and "nw_done n \<subseteq> nw_done n'"
  using assms by (cases; use run_handler_keeps in fastforce)+

lemma published_step:
  assumes "network_step stale route (set all_declarations) stringify parse handler n n'" and "amqp_routing route"
  shows "published_for q n' \<subseteq> published_for q n \<union> signature ` live q n'"
  using assms(1)
proof cases
  case (publishes m e)
  then show ?thesis
    by (auto simp: published_for_def route_events [OF assms(2)] live_def waiting_def enqueue_def)
qed (auto simp: published_for_def dest: run_handler_keeps(5))

text \<open>
  The invariant: the copies of a consumed queue, the runs that have lost their connection and the messages
  handled come from messages published under its key, and what was published is handled or still there.
\<close>

definition system_inv :: "'s broker_network \<Rightarrow> bool" where
  "system_inv n \<longleftrightarrow> runs_match n \<and> fst ` set (nw_detached n) \<subseteq> consumed \<and>
     (\<forall>q \<in> consumed. signature ` copies q n \<union> {s. (q, s) \<in> nw_done n} \<union> {s. \<exists>m. (q, m) \<in> set (nw_detached n) \<and> s = signature m} \<subseteq> published_for q n \<and>
        published_for q n \<subseteq> {s. (q, s) \<in> nw_done n} \<union> signature ` live q n)"

lemma published_for_mono: "network_step stale route D stringify parse handler n n' \<Longrightarrow> published_for q n \<subseteq> published_for q n'"
  using step_grows(1) unfolding published_for_def by blast

lemma running_copies: "runs_match n \<Longrightarrow> (q, tag, m, st) \<in> set (nw_running n) \<Longrightarrow> m \<in> copies q n"
  by (auto simp: runs_match_def copies_def)

lemma handled_step:
  assumes "network_step False route D stringify parse handler n n'" and "runs_match n"
    and "(q, s) \<in> nw_done n' \<or> (q, m) \<in> set (nw_detached n') \<and> s = signature m"
  shows "(q, s) \<in> nw_done n \<or> s \<in> signature ` copies q n \<or> (\<exists>m. (q, m) \<in> set (nw_detached n) \<and> s = signature m)"
  using assms(1)
proof cases
  case (handles us p tag m1 vs ch ops n1)
  have "m1 \<in> copies p n" by (rule running_copies [OF assms(2), of _ tag _ None]) (use handles in simp)
  with assms(3) show ?thesis unfolding handles(1) using run_handler_keeps [OF handles(3)] by auto
next
  case (finishes us p m1 vs ops n1)
  with assms(3) show ?thesis using run_handler_keeps [OF finishes(3)] by auto
next
  case (connection_lost p)
  with assms(3) running_copies [OF assms(2)] show ?thesis by (fastforce split: option.splits)
qed (use assms(3) in auto)

lemma detached_step:
  assumes "network_step False route D stringify parse handler n n'" and "runs_match n" and "fst ` set (nw_detached n) \<subseteq> consumed"
  shows "fst ` set (nw_detached n') \<subseteq> consumed"
  using assms(1)
proof cases
  case (handles us p tag m vs ch ops n1)
  with assms(3) show ?thesis using run_handler_keeps(3) [OF handles(3)] by auto
next
  case (connection_lost p)
  have "q \<in> consumed" if "(q, tag, m, st) \<in> set (nw_running n)" for q tag m st
    using that assms(2) by (auto simp: runs_match_def)
  with assms(3) show ?thesis unfolding connection_lost(1) by (auto split: option.splits)
next
  case (finishes us p m vs ops n1)
  with assms(3) show ?thesis by auto
qed (use assms(3) in auto)

lemma system_inv_start: "system_inv (start_network w)"
  by (simp add: system_inv_def start_network_def runs_match_def copies_def waiting_def published_for_def)

lemma system_inv_step:
  assumes "network_step False route (set all_declarations) stringify parse handler n n'" and "amqp_routing route" and "system_inv n"
  shows "system_inv n'"
  unfolding system_inv_def
proof (intro conjI ballI)
  have match: "runs_match n" using assms(3) by (simp add: system_inv_def)
  show "runs_match n'" using match_step [OF assms(1) match] by simp
  show "fst ` set (nw_detached n') \<subseteq> consumed" by (rule detached_step [OF assms(1) match]) (use assms(3) in \<open>simp add: system_inv_def\<close>)
  fix q assume q: "q \<in> consumed"
  have inv: "signature ` copies q n \<subseteq> published_for q n" "{s. (q, s) \<in> nw_done n} \<subseteq> published_for q n"
    "{s. \<exists>m. (q, m) \<in> set (nw_detached n) \<and> s = signature m} \<subseteq> published_for q n"
    "published_for q n \<subseteq> {s. (q, s) \<in> nw_done n} \<union> signature ` live q n"
    using assms(3) q by (simp_all add: system_inv_def)
  note mono = published_for_mono [OF assms(1), of q] step_grows(2) [OF assms(1)]
  have "signature ` copies q n' \<subseteq> published_for q n'"
    using copies_step [OF assms(1,2) match q] inv(1) mono(1) by blast
  moreover have "s \<in> published_for q n'" if "(q, s) \<in> nw_done n' \<or> (q, m) \<in> set (nw_detached n') \<and> s = signature m" for s m
    using handled_step [OF assms(1) match that] inv(1-3) mono(1) by blast
  ultimately show "signature ` copies q n' \<union> {s. (q, s) \<in> nw_done n'} \<union> {s. \<exists>m. (q, m) \<in> set (nw_detached n') \<and> s = signature m} \<subseteq> published_for q n'"
    by blast
  show "published_for q n' \<subseteq> {s. (q, s) \<in> nw_done n'} \<union> signature ` live q n'"
    using published_step [OF assms(1,2), of q] inv(4) mono(2) live_step [OF assms(1,2) match q] by blast
qed

lemma system_inv_run:
  assumes "(network_step False route (set all_declarations) stringify parse handler)\<^sup>*\<^sup>* (start_network w) n" and "amqp_routing route"
  shows "system_inv n"
  using assms(1) by (induction rule: rtranclp_induct) (simp_all add: system_inv_start system_inv_step [OF _ assms(2)])

lemma live_copies: "live q n \<subseteq> copies q n"
  by (auto simp: live_def copies_def)


lemma subscribers:
  "{q. (q, event_name_value t) \<in> set all_subscriptions} =
     (case t of PurchaseCompleted \<Rightarrow> {queue_name_value LoyaltyPurchaseCompleted}
              | BadgeUnlocked \<Rightarrow> {queue_name_value CashbackBadgeUnlocked} | _ \<Rightarrow> {})"
  by (cases t) (auto simp: all_subscriptions_def PurchaseCompletedConsumer_def BadgeUnlockedConsumer_def)

lemma subscribed_queue: "\<exists>k. (queue_name_value q, k) \<in> set all_subscriptions"
  by (cases q) (auto simp: all_subscriptions_def PurchaseCompletedConsumer_def BadgeUnlockedConsumer_def)

text \<open>What a step does to the world: nothing, or one run of a handler on a message published for its queue.\<close>

lemma handleMessage_world:
  "snd (handleMessage parse h ch (Some m) q s) = (case parse (content m) of None \<Rightarrow> s | Some e \<Rightarrow> snd (h e s))"
  by (auto simp: handleMessage_def Let_def split: option.splits prod.splits)

lemma run_handler_world:
  assumes "run_handler parse handler ch q m n = (ops, n')"
  obtains "nw_world n' = nw_world n" "nw_done n' = nw_done n"
  | e where "parse (content m) = Some e" "nw_world n' = snd (handler q e (nw_world n))"
      "nw_done n' = nw_done n \<union> (if fst (handler q e (nw_world n)) = None then {(q, signature m)} else {})"
proof (cases "parse (content m)")
  case None
  with assms that(1) show thesis
    using handleMessage_world [of parse "handler q" ch m q "nw_world n"] by (auto simp: run_handler_def Let_def split: prod.splits)
next
  case (Some e)
  with assms that(2) show thesis
    using handleMessage_world [of parse "handler q" ch m q "nw_world n"]
    by (auto simp: run_handler_def Let_def signature_def split: prod.splits)
qed

lemma world_step:
  assumes "network_step False route (set all_declarations) stringify parse handler n n'" and "system_inv n"
  obtains (same) "nw_world n' = nw_world n" "nw_done n' = nw_done n"
  | (handled) q m e where "q \<in> consumed" "signature m \<in> published_for q n" "nw_published n' = nw_published n" "parse (content m) = Some e"
      "nw_world n' = snd (handler q e (nw_world n))"
      "nw_done n' = nw_done n \<union> (if fst (handler q e (nw_world n)) = None then {(q, signature m)} else {})"
proof -
  have inv: "runs_match n" "fst ` set (nw_detached n) \<subseteq> consumed" "q \<in> consumed \<Longrightarrow> signature ` copies q n \<subseteq> published_for q n"
    "q \<in> consumed \<Longrightarrow> {s. \<exists>m. (q, m) \<in> set (nw_detached n) \<and> s = signature m} \<subseteq> published_for q n" for q
    using assms(2) by (auto simp: system_inv_def)
  have run: thesis if "run_handler parse handler ch q m n = (ops, n1)" "nw_world n' = nw_world n1" "nw_done n' = nw_done n1"
      "nw_published n' = nw_published n1" "q \<in> consumed" "signature m \<in> published_for q n" for ch q m ops n1
  proof (rule run_handler_world [OF that(1)])
    assume "nw_world n1 = nw_world n" "nw_done n1 = nw_done n"
    with that(2,3) same show thesis by simp
  next
    fix e assume "parse (content m) = Some e" "nw_world n1 = snd (handler q e (nw_world n))"
      "nw_done n1 = nw_done n \<union> (if fst (handler q e (nw_world n)) = None then {(q, signature m)} else {})"
    with that(2-6) run_handler_keeps(5) [OF that(1)] show thesis by (intro handled [of q m e]) simp_all
  qed
  show thesis
    using assms(1)
  proof cases
    case (handles us p tag m vs ch ops n1)
    have p: "(p, tag, m, None) \<in> set (nw_running n)" using handles by simp
    then have "p \<in> consumed" using inv(1) by (auto simp: runs_match_def)
    with running_copies [OF inv(1) p] inv(3) show thesis by (intro run [OF handles(3)]) (use handles(1) in auto)
  next
    case (finishes us p m vs ops n1)
    then have "p \<in> consumed" using inv(2) by auto
    moreover have "signature m \<in> published_for p n" using inv(4) [OF \<open>p \<in> consumed\<close>] finishes(2) by auto
    ultimately show thesis by (intro run [OF finishes(3)]) (use finishes(1) in auto)
  qed (use same in \<open>simp_all add: requeue_def settle_def dead_letter_def enqueue_def Let_def split: option.splits\<close>)
qed

text \<open>
  A routing that follows the rules, for the witnesses: every binding is taken without wildcards.
\<close>

definition plain_routing :: routing where
  "plain_routing D x k = (if x = [] then {q. q = k \<and> (\<exists>a. AssertQueue q a \<in> D)} else {q. BindQueue q x k \<in> D})"

lemma amqp_plain_routing: "amqp_routing plain_routing"
  by (simp add: amqp_routing_def plain_routing_def)

definition demo_event :: "string \<Rightarrow> bumpa_domain_event" where
  "demo_event eid = PurchaseCompletedEvent (createDomainEvent PurchaseCompleted
     \<lparr>pc_userId = ''u'', pc_purchaseId = ''p'', pc_amountKobo = 100,
       pc_user = \<lparr>snap_id = ''u'', snap_email = ''u@x.io'', snap_name = ''U'', snap_bankAccountNumber = Undefined, snap_bankCode = Undefined\<rparr>\<rparr>
     ''c'' eid 0)"

definition demo_message :: "string \<Rightarrow> message" where
  "demo_message eid = published_message bumpa_event_id (demo_event eid)"

section \<open>Properties\<close>

text \<open>
  C31. Whatever connections the services make, in any order and any number of times, no declaration of theirs is
  refused; and once the loyalty and the cashback service have connected, a published event is routed to the queue
  of its consumer and to no other queue, an event type without a consumer is routed nowhere, a message that
  expires in the retry queue returns to the queue it came from, and a rejected message goes to the dead-letter
  queue of its own queue.
\<close>

theorem declared_topology:
  assumes "amqp_routing route" and "LoyaltyService \<in> set ss" and "CashbackService \<in> set ss"
  shows "all_accepted [] (declared_by ss) \<and>
    route (set (declared_by ss)) (exchange_value EventsExchange) (event_name_value t) =
      (case t of PurchaseCompleted \<Rightarrow> {queue_name_value LoyaltyPurchaseCompleted}
               | BadgeUnlocked \<Rightarrow> {queue_name_value CashbackBadgeUnlocked} | _ \<Rightarrow> {}) \<and>
    (\<exists>a. AssertQueue (retry_queue (queue_name_value q)) a \<in> set (declared_by ss) \<and>
       dead_letter route (set (declared_by ss)) a m n = enqueue {queue_name_value q} (m\<lparr>routingKey := queue_name_value q\<rparr>) n) \<and>
    (\<exists>a k. AssertQueue (queue_name_value q) a \<in> set (declared_by ss) \<and>
       dead_letter route (set (declared_by ss)) a m n = enqueue {dead_letter_queue (queue_name_value q)} (m\<lparr>routingKey := k\<rparr>) n)"
proof -
  obtain k where k: "(queue_name_value q, k) \<in> set all_subscriptions" using subscribed_queue by blast
  have "all_accepted [] (declared_by ss)" by (rule declarations_accepted) simp
  then show ?thesis
    unfolding declared_by_both [OF assms(2,3)] route_events [OF assms(1)] subscribers
    using dead_letter_main [OF assms(1) k] dead_letter_retry [OF assms(1) k] asserts_main [OF k] asserts_retry [OF k] by blast
qed

theorem declared_topology_witness:
  "all_accepted [] (declared_by [PurchaseService, CashbackService, LoyaltyService, LoyaltyService]) \<and>
   plain_routing (set (declared_by [PurchaseService, CashbackService, LoyaltyService, LoyaltyService]))
     (exchange_value EventsExchange) (event_name_value BadgeUnlocked) = {queue_name_value CashbackBadgeUnlocked}"
  using declared_topology [OF amqp_plain_routing, of "[PurchaseService, CashbackService, LoyaltyService, LoyaltyService]"
      BadgeUnlocked CashbackBadgeUnlocked "demo_message ''e1''" "start_network ()"]
  by simp



section \<open>Events published before their consumer has connected\<close>

text \<open>
  A queue exists from the first connection of its consumer. An event published before that is routed to no queue:
  the server confirms it all the same, and \<open>publish\<close>, which does not set \<open>mandatory\<close>, succeeds.
\<close>

lemma connection_binds:
  "BindQueue q (exchange_value EventsExchange) k \<in> set (connection_declarations s) \<longleftrightarrow> (q, k) \<in> set (service_subscriptions s)"
  by (cases s) (auto simp: connection_declarations_def setup_declarations_def bindAndConsume_def)

lemma published_before_subscription:
  assumes "amqp_routing route" and "LoyaltyService \<notin> set ss"
  shows "route (set (declared_by ss)) (exchange_value EventsExchange) (event_name_value PurchaseCompleted) = {}"
proof -
  have "route (set (declared_by ss)) (exchange_value EventsExchange) (event_name_value PurchaseCompleted) =
      {q. BindQueue q (exchange_value EventsExchange) (event_name_value PurchaseCompleted) \<in> set (declared_by ss)}"
    by (rule route_topic [OF assms(1) exchange_names declared_subset])
  moreover have "(q, event_name_value PurchaseCompleted) \<notin> set (service_subscriptions s)" if "s \<in> set ss" for q s
    using assms(2) that by (cases s) (auto simp: BadgeUnlockedConsumer_def)
  ultimately show ?thesis by (auto simp: declared_by_def connection_binds)
qed

section \<open>Handlers that outlive their connection\<close>

text \<open>
  \<open>safeAck\<close> and \<open>safeNack\<close> take the channel that is current when the handler returns. Delivery tags count the
  deliveries of one channel, so after a reconnect the tag of the message may belong to another one.
  \<open>loyalty_at\<close> is a network in which only the queue of the loyalty service has messages.
\<close>

definition loyalty_at ::
  "message list \<Rightarrow> (nat \<times> message) list \<Rightarrow> nat \<Rightarrow> (nat \<times> message \<times> channel_op list option) list \<Rightarrow> message list
     \<Rightarrow> (string \<times> string) set \<Rightarrow> unit broker_network" where
  "loyalty_at ready unacked tag running published handled =
     (let q = queue_name_value LoyaltyPurchaseCompleted in
      \<lparr>nw_ready = (\<lambda>_. [])(q := ready), nw_unacked = map (Pair q) unacked, nw_tag = (\<lambda>_. 0)(q := tag),
        nw_running = map (Pair q) running, nw_detached = [], nw_world = (), nw_published = published, nw_done = Pair q ` handled\<rparr>)"

definition loyalty_step :: "unit broker_network \<Rightarrow> unit broker_network \<Rightarrow> bool" where
  "loyalty_step = network_step True plain_routing (set (declared_by [LoyaltyService, CashbackService])) bumpa_event_id Some (\<lambda>_ _ w. (None, w))"


lemma loyalty_route:
  "plain_routing (set (declared_by [LoyaltyService, CashbackService])) (exchange_value EventsExchange) (event_name_value PurchaseCompleted) =
     {queue_name_value LoyaltyPurchaseCompleted}"
  unfolding declared_by_both [of "[LoyaltyService, CashbackService]", simplified] route_events [OF amqp_plain_routing] subscribers by simp

lemma loyalty_bound:
  "BindQueue (queue_name_value LoyaltyPurchaseCompleted) (exchange_value EventsExchange) (event_name_value PurchaseCompleted)
     \<in> set (declared_by [LoyaltyService, CashbackService])"
  unfolding declared_by_both [of "[LoyaltyService, CashbackService]", simplified] binds_events
  by (simp add: all_subscriptions_def PurchaseCompletedConsumer_def)

lemma demo_message_fields:
  "routingKey (demo_message eid) = event_name_value PurchaseCompleted" "signature (demo_message eid) = (eid, eid)"
  "content (demo_message eid) = eid" "messageId (demo_message eid) = eid"
  by (simp_all add: demo_message_def published_message_def demo_event_def createDomainEvent_def signature_def)

lemma loyalty_stepI:
  "network_step True plain_routing (set (declared_by [LoyaltyService, CashbackService])) bumpa_event_id Some (\<lambda>_ _ w. (None, w)) n n' \<Longrightarrow>
     n' = n'' \<Longrightarrow> loyalty_step n n''"
  by (simp add: loyalty_step_def)

lemmas loyalty_simps = loyalty_at_def Let_def fun_eq_iff

lemma loyalty_publishes:
  "loyalty_step (loyalty_at r u t run p h) (loyalty_at (r @ [demo_message eid]) u t run (p @ [demo_message eid]) h)"
  by (rule loyalty_stepI [OF network_step.publishes [OF demo_message_def]])
    (simp add: demo_message_fields(1) loyalty_route loyalty_simps enqueue_def del: queue_name_value.simps event_name_value.simps)

lemma loyalty_delivers:
  "length u < PREFETCH \<Longrightarrow>
   loyalty_step (loyalty_at (m # r) u t run p h) (loyalty_at r (u @ [(t, m)]) (Suc t) (run @ [(t, m, None)]) p h)"
  by (rule loyalty_stepI [OF network_step.delivers [OF loyalty_bound, of _ m r]])
    (simp_all add: loyalty_simps unacked_of_def comp_def del: queue_name_value.simps event_name_value.simps)

lemma loyalty_handles:
  "loyalty_step (loyalty_at r u t (us @ (tag, m, None) # vs) p h)
     (loyalty_at r u t (us @ (tag, m, Some [Ack m]) # vs) p (insert (signature m) h))"
  by (rule loyalty_stepI [OF network_step.handles [where ch = "Some open_channel" and ops = "[Ack m]"
        and us = "map (Pair (queue_name_value LoyaltyPurchaseCompleted)) us" and vs = "map (Pair (queue_name_value LoyaltyPurchaseCompleted)) vs"]])
    (simp_all add: loyalty_simps run_handler_def handleMessage_def safeAck_def open_channel_def signature_def
      del: queue_name_value.simps event_name_value.simps)+

lemma loyalty_acks:
  "(tag, x) \<in> set u \<Longrightarrow>
   loyalty_step (loyalty_at r u t (us @ (tag, m, Some [Ack m]) # vs) p h) (loyalty_at r (filter (\<lambda>v. fst v \<noteq> tag) u) t (us @ vs) p h)"
  by (rule loyalty_stepI [OF network_step.acks [where q = "queue_name_value LoyaltyPurchaseCompleted" and tag = tag and u = x
        and us = "map (Pair (queue_name_value LoyaltyPurchaseCompleted)) us" and vs = "map (Pair (queue_name_value LoyaltyPurchaseCompleted)) vs"]])
    (auto simp: loyalty_simps settle_def filter_map comp_def split_def
      simp del: queue_name_value.simps event_name_value.simps intro!: arg_cong [where f = "map _"] filter_cong)

lemma loyalty_outlives:
  "loyalty_step (loyalty_at r u t run p h) (loyalty_at (map snd u @ r) [] 0 run p h)"
  by (rule loyalty_stepI [OF network_step.outlives [of _ _ _ _ _ _ _ "queue_name_value LoyaltyPurchaseCompleted"]])
    (simp_all add: loyalty_simps requeue_def unacked_of_def filter_map comp_def del: queue_name_value.simps event_name_value.simps)

lemma loyalty_dies:
  "loyalty_step (loyalty_at r u t run p h) (loyalty_at (map snd u @ r) [] 0 [] p h)"
  by (rule loyalty_stepI [OF network_step.dies [of _ _ _ _ _ _ _ "queue_name_value LoyaltyPurchaseCompleted"]])
    (simp_all add: loyalty_simps requeue_def unacked_of_def filter_map comp_def del: queue_name_value.simps event_name_value.simps)

text \<open>
  Three purchases are published. The first is handled; the second is delivered under the tag 1 and its handler
  is still running when the connection is lost. On the next channel the tag 1 belongs to the third: when the slow
  handler returns, its acknowledgement removes the third message from the queue, and when the process
  stops then, no handler has seen it.
\<close>

lemma stale_ack_loses_message:
  "\<exists>n. loyalty_step\<^sup>*\<^sup>* (start_network ()) n \<and> demo_message ''e3'' \<in> set (nw_published n) \<and>
     (queue_name_value LoyaltyPurchaseCompleted, signature (demo_message ''e3'')) \<notin> nw_done n \<and>
     signature (demo_message ''e3'') \<notin> signature ` copies (queue_name_value LoyaltyPurchaseCompleted) n \<and> nw_running n = []"
proof -
  let ?m1 = "demo_message ''e1''" and ?m2 = "demo_message ''e2''" and ?m3 = "demo_message ''e3''"
  note [trans] = rtranclp.rtrancl_into_rtrancl
  have "start_network () = loyalty_at [] [] 0 [] [] {}" by (simp add: start_network_def loyalty_simps)
  then have "loyalty_step\<^sup>*\<^sup>* (start_network ()) (loyalty_at [] [] 0 [] [] {})" by simp
  also have "loyalty_step \<dots> (loyalty_at [?m1] [] 0 [] [?m1] {})" using loyalty_publishes [of "[]" "[]" 0 "[]" "[]" "{}" "''e1''"] by simp
  also have "loyalty_step \<dots> (loyalty_at [?m1, ?m2] [] 0 [] [?m1, ?m2] {})" using loyalty_publishes [of "[?m1]" "[]" 0 "[]" "[?m1]" "{}" "''e2''"] by simp
  also have "loyalty_step \<dots> (loyalty_at [?m1, ?m2, ?m3] [] 0 [] [?m1, ?m2, ?m3] {})" using loyalty_publishes [of "[?m1, ?m2]" "[]" 0 "[]" "[?m1, ?m2]" "{}" "''e3''"] by simp
  also have "loyalty_step \<dots> (loyalty_at [?m2, ?m3] [(0, ?m1)] 1 [(0, ?m1, None)] [?m1, ?m2, ?m3] {})"
    using loyalty_delivers [of "[]" ?m1 "[?m2, ?m3]" 0 "[]" "[?m1, ?m2, ?m3]" "{}"] by (simp add: PREFETCH_def)
  also have "loyalty_step \<dots> (loyalty_at [?m2, ?m3] [(0, ?m1)] 1 [(0, ?m1, Some [Ack ?m1])] [?m1, ?m2, ?m3] {signature ?m1})"
    using loyalty_handles [of "[?m2, ?m3]" "[(0, ?m1)]" 1 "[]" 0 ?m1 "[]" "[?m1, ?m2, ?m3]" "{}"] by simp
  also have "loyalty_step \<dots> (loyalty_at [?m2, ?m3] [] 1 [] [?m1, ?m2, ?m3] {signature ?m1})"
    using loyalty_acks [of 0 ?m1 "[(0, ?m1)]" "[?m2, ?m3]" 1 "[]" ?m1 "[]" "[?m1, ?m2, ?m3]" "{signature ?m1}"] by simp
  also have "loyalty_step \<dots> (loyalty_at [?m3] [(1, ?m2)] 2 [(1, ?m2, None)] [?m1, ?m2, ?m3] {signature ?m1})"
    using loyalty_delivers [of "[]" ?m2 "[?m3]" 1 "[]" "[?m1, ?m2, ?m3]" "{signature ?m1}"] by (simp add: PREFETCH_def numeral_2_eq_2)
  also have "loyalty_step \<dots> (loyalty_at [?m2, ?m3] [] 0 [(1, ?m2, None)] [?m1, ?m2, ?m3] {signature ?m1})"
    using loyalty_outlives [of "[?m3]" "[(1, ?m2)]" 2 "[(1, ?m2, None)]" "[?m1, ?m2, ?m3]" "{signature ?m1}"] by simp
  also have "loyalty_step \<dots> (loyalty_at [?m3] [(0, ?m2)] 1 [(1, ?m2, None), (0, ?m2, None)] [?m1, ?m2, ?m3] {signature ?m1})"
    using loyalty_delivers [of "[]" ?m2 "[?m3]" 0 "[(1, ?m2, None)]" "[?m1, ?m2, ?m3]" "{signature ?m1}"] by (simp add: PREFETCH_def)
  also have "loyalty_step \<dots> (loyalty_at [] [(0, ?m2), (1, ?m3)] 2 [(1, ?m2, None), (0, ?m2, None), (1, ?m3, None)] [?m1, ?m2, ?m3] {signature ?m1})"
    using loyalty_delivers [of "[(0, ?m2)]" ?m3 "[]" 1 "[(1, ?m2, None), (0, ?m2, None)]" "[?m1, ?m2, ?m3]" "{signature ?m1}"] by (simp add: PREFETCH_def numeral_2_eq_2)
  also have "loyalty_step \<dots> (loyalty_at [] [(0, ?m2), (1, ?m3)] 2 [(1, ?m2, Some [Ack ?m2]), (0, ?m2, None), (1, ?m3, None)] [?m1, ?m2, ?m3]
      {signature ?m2, signature ?m1})"
    using loyalty_handles [of "[]" "[(0, ?m2), (1, ?m3)]" 2 "[]" 1 ?m2 "[(0, ?m2, None), (1, ?m3, None)]" "[?m1, ?m2, ?m3]" "{signature ?m1}"] by simp
  also have "loyalty_step \<dots> (loyalty_at [] [(0, ?m2)] 2 [(0, ?m2, None), (1, ?m3, None)] [?m1, ?m2, ?m3] {signature ?m2, signature ?m1})"
    using loyalty_acks [of 1 ?m3 "[(0, ?m2), (1, ?m3)]" "[]" 2 "[]" ?m2 "[(0, ?m2, None), (1, ?m3, None)]" "[?m1, ?m2, ?m3]"
      "{signature ?m2, signature ?m1}"] by simp
  also have "loyalty_step \<dots> (loyalty_at [?m2] [] 0 [] [?m1, ?m2, ?m3] {signature ?m2, signature ?m1})"
    using loyalty_dies [of "[]" "[(0, ?m2)]" 2 "[(0, ?m2, None), (1, ?m3, None)]" "[?m1, ?m2, ?m3]" "{signature ?m2, signature ?m1}"] by simp
  finally show ?thesis
    by (intro exI conjI) (assumption, simp_all add: loyalty_at_def Let_def demo_message_fields copies_def waiting_def retry_queue_def dead_letter_queue_def)
qed

end
