(* ===== verification/Delivery.thy ===== *)
theory Delivery
  imports Topology System
begin

text \<open>
  The consumers of the loyalty and the cashback service run over the queues of \<open>Topology\<close>: what every run of
  the system, with its redeliveries, lost connections and dying processes, does to the counters of the customers.
  A message holds the JSON of an event of \<open>packages/events-sdk/src/events.ts\<close>, which the consumer parses and hands to
  the handler of its service.
\<close>

section \<open>The handlers of the queues\<close>

text \<open>The event types of \<open>events.ts\<close>: the name of an event goes with its payload.\<close>

fun well_typed :: "bumpa_domain_event \<Rightarrow> bool" where
  "well_typed (PurchaseCompletedEvent e) = (event_type e = PurchaseCompleted)"
| "well_typed (AchievementUnlockedEvent e) = (event_type e = AchievementUnlocked)"
| "well_typed (BadgeUnlockedEvent e) = (event_type e = BadgeUnlocked)"
| "well_typed (CashbackProcessedEvent e) = (event_type e = CashbackProcessed)"

text \<open>
  The clocks may depend on the state of the service in any way. \<open>other\<close> is what a handler does with
  the payload of another event.
\<close>

type_synonym services_state = "(loyalty_db \<times> bus) \<times> cashback_state"

definition service_handler ::
  "(string \<Rightarrow> bumpa_domain_event \<Rightarrow> services_state \<Rightarrow> string option \<times> services_state) \<Rightarrow> random_source \<Rightarrow> loyalty_orders
     \<Rightarrow> outbox_options \<Rightarrow> (nat \<Rightarrow> string option) \<Rightarrow> (loyalty_db \<times> bus \<Rightarrow> int) \<Rightarrow> cashback_env \<Rightarrow> (cashback_state \<Rightarrow> int)
     \<Rightarrow> string \<Rightarrow> bumpa_domain_event \<Rightarrow> services_state \<Rightarrow> string option \<times> services_state" where
  "service_handler other rnd od opts confirm clock env clock' queue e = (\<lambda>(l, c).
     if queue = queue_name_value LoyaltyPurchaseCompleted
     then (case e of
             PurchaseCompletedEvent p \<Rightarrow> (let (r, l') = handlePurchaseCompleted rnd od opts confirm (clock l) p l in (r, l', c))
           | _ \<Rightarrow> other queue e (l, c))
     else (case e of
             BadgeUnlockedEvent p \<Rightarrow> (let (r, c') = handleBadgeUnlocked env (clock' c) p c in (r, l, c'))
           | _ \<Rightarrow> other queue e (l, c)))"

section \<open>Published events\<close>

definition purchases_in :: "(bumpa_domain_event \<Rightarrow> string) \<Rightarrow> bumpa_domain_event set \<Rightarrow> 's broker_network \<Rightarrow> purchase_completed_event set" where
  "purchases_in stringify E n =
     {p. PurchaseCompletedEvent p \<in> E \<and> published_message stringify (PurchaseCompletedEvent p) \<in> set (nw_published n)}"

definition badges_in :: "(bumpa_domain_event \<Rightarrow> string) \<Rightarrow> bumpa_domain_event set \<Rightarrow> 's broker_network \<Rightarrow> badge_unlocked_event set" where
  "badges_in stringify E n =
     {p. BadgeUnlockedEvent p \<in> E \<and> published_message stringify (BadgeUnlockedEvent p) \<in> set (nw_published n)}"

text \<open>
  \<open>E\<close> are the events the services publish: they have the types of \<open>events.ts\<close>, and their JSON is read back as they were.
\<close>

definition publishes_only :: "(bumpa_domain_event \<Rightarrow> string) \<Rightarrow> bumpa_domain_event set \<Rightarrow> 's broker_network \<Rightarrow> bool" where
  "publishes_only stringify E n \<longleftrightarrow> set (nw_published n) \<subseteq> published_message stringify ` E"

definition restored :: "(bumpa_domain_event \<Rightarrow> string) \<Rightarrow> (string \<Rightarrow> bumpa_domain_event option) \<Rightarrow> bumpa_domain_event set \<Rightarrow> bool" where
  "restored stringify parse E \<longleftrightarrow> (\<forall>e \<in> E. well_typed e \<and> parse (stringify e) = Some e)"

lemma event_names: "event_name_value t = event_name_value t' \<longleftrightarrow> t = t'"
  by (cases t; cases t') simp_all

lemma published_fields [simp]:
  "content (published_message stringify e) = stringify e" "routingKey (published_message stringify e) = event_name_value (bumpa_event_type e)"
  "signature (published_message stringify e) = (bumpa_event_id e, stringify e)"
  by (simp_all add: published_message_def signature_def)

lemma json_inj: "restored stringify parse E \<Longrightarrow> e \<in> E \<Longrightarrow> e' \<in> E \<Longrightarrow> stringify e = stringify e' \<longleftrightarrow> e = e'"
  unfolding restored_def by (metis option.inject)

lemma finite_purchases: "restored stringify parse E \<Longrightarrow> finite (purchases_in stringify E n)"
proof -
  assume restored: "restored stringify parse E"
  have "inj_on (\<lambda>p. published_message stringify (PurchaseCompletedEvent p)) (purchases_in stringify E n)"
  proof (rule inj_onI)
    fix p p' assume "p \<in> purchases_in stringify E n" "p' \<in> purchases_in stringify E n"
      and "published_message stringify (PurchaseCompletedEvent p) = published_message stringify (PurchaseCompletedEvent p')"
    moreover from this have "stringify (PurchaseCompletedEvent p) = stringify (PurchaseCompletedEvent p')" using published_fields(1) by metis
    ultimately show "p = p'"
      using json_inj [OF restored, of "PurchaseCompletedEvent p" "PurchaseCompletedEvent p'"] by (auto simp: purchases_in_def)
  qed
  moreover have "(\<lambda>p. published_message stringify (PurchaseCompletedEvent p)) ` purchases_in stringify E n \<subseteq> set (nw_published n)"
    by (auto simp: purchases_in_def)
  ultimately show ?thesis using finite_imageD finite_subset List.finite_set by metis
qed

text \<open>A message published for a queue holds an event of the type its consumer expects.\<close>

lemma published_for_event:
  assumes "restored stringify parse E" and "publishes_only stringify E n"
    and "signature m \<in> published_for (queue_name_value q) n" and "parse (content m) = Some e"
  shows "signature m = signature (published_message stringify e)"
    "case q of LoyaltyPurchaseCompleted \<Rightarrow> \<exists>p \<in> purchases_in stringify E n. e = PurchaseCompletedEvent p
             | CashbackBadgeUnlocked \<Rightarrow> \<exists>p \<in> badges_in stringify E n. e = BadgeUnlockedEvent p"
proof -
  obtain m0 where m0: "m0 \<in> set (nw_published n)" "(queue_name_value q, routingKey m0) \<in> set all_subscriptions" "signature m = signature m0"
    using assms(3) by (auto simp: published_for_def)
  then obtain e0 where e0: "e0 \<in> E" "m0 = published_message stringify e0" using assms(2) by (auto simp: publishes_only_def)
  then have "well_typed e0" "parse (stringify e0) = Some e0" using assms(1) by (simp_all add: restored_def)
  have "e0 = e" using assms(4) m0(3) \<open>parse (stringify e0) = Some e0\<close> by (simp add: e0(2) signature_def published_message_def)
  then show "signature m = signature (published_message stringify e)" using m0(3) e0(2) by simp
  have key: "event_name_value (bumpa_event_type e) = (case q of LoyaltyPurchaseCompleted \<Rightarrow> event_name_value PurchaseCompleted
      | CashbackBadgeUnlocked \<Rightarrow> event_name_value BadgeUnlocked)"
    using m0(2) unfolding e0(2) \<open>e0 = e\<close> published_fields
    by (cases q) (auto simp: all_subscriptions_def PurchaseCompletedConsumer_def BadgeUnlockedConsumer_def)
  show "case q of LoyaltyPurchaseCompleted \<Rightarrow> \<exists>p \<in> purchases_in stringify E n. e = PurchaseCompletedEvent p
             | CashbackBadgeUnlocked \<Rightarrow> \<exists>p \<in> badges_in stringify E n. e = BadgeUnlockedEvent p"
  proof (cases q)
    case LoyaltyPurchaseCompleted
    then have "bumpa_event_type e = PurchaseCompleted" using key by (cases "bumpa_event_type e") simp_all
    with LoyaltyPurchaseCompleted e0 m0(1) \<open>e0 = e\<close> \<open>well_typed e0\<close> show ?thesis by (cases e) (auto simp: purchases_in_def)
  next
    case CashbackBadgeUnlocked
    then have "bumpa_event_type e = BadgeUnlocked" using key by (cases "bumpa_event_type e") simp_all
    with CashbackBadgeUnlocked e0 m0(1) \<open>e0 = e\<close> \<open>well_typed e0\<close> show ?thesis by (cases e) (auto simp: badges_in_def)
  qed
qed

lemma consumed_queue: "q \<in> consumed \<Longrightarrow> \<exists>k. q = queue_name_value k"
  by (auto simp: consumed_def all_subscriptions_def PurchaseCompletedConsumer_def BadgeUnlockedConsumer_def simp del: queue_name_value.simps)

lemma queue_values: "queue_name_value k = queue_name_value k' \<longleftrightarrow> k = k'"
  by (cases k; cases k') simp_all

section \<open>The invariant\<close>

text \<open>
  \<open>known\<close>: what the services have recorded as processed was so at the start or is published, and what a handler has
  been run on without error is recorded. \<open>counted_purchases\<close> are the purchases of a customer that the run has counted.
\<close>

definition counted_purchases :: "(bumpa_domain_event \<Rightarrow> string) \<Rightarrow> bumpa_domain_event set \<Rightarrow> loyalty_db \<Rightarrow> string \<Rightarrow> services_state broker_network \<Rightarrow> purchase_completed_event set" where
  "counted_purchases stringify E db u n = {p \<in> new_purchases u db (purchases_in stringify E n). processed (eventId p) (fst (fst (nw_world n)))}"

definition known :: "(bumpa_domain_event \<Rightarrow> string) \<Rightarrow> bumpa_domain_event set \<Rightarrow> loyalty_db \<Rightarrow> services_state broker_network \<Rightarrow> bool" where
  "known stringify E db n \<longleftrightarrow>
     (\<forall>i. processed i db \<longrightarrow> processed i (fst (fst (nw_world n)))) \<and>
     (\<forall>i. processed i (fst (fst (nw_world n))) \<longrightarrow> processed i db \<or> i \<in> eventId ` purchases_in stringify E n) \<and>
     (\<forall>p. PurchaseCompletedEvent p \<in> E \<longrightarrow> (queue_name_value LoyaltyPurchaseCompleted, signature (published_message stringify (PurchaseCompletedEvent p))) \<in> nw_done n \<longrightarrow>
        processed (eventId p) (fst (fst (nw_world n)))) \<and>
     (\<forall>p. BadgeUnlockedEvent p \<in> E \<longrightarrow> (queue_name_value CashbackBadgeUnlocked, signature (published_message stringify (BadgeUnlockedEvent p))) \<in> nw_done n \<longrightarrow>
        eventId p \<in> set (cs_processed (snd (nw_world n))))"

definition counts_match :: "(bumpa_domain_event \<Rightarrow> string) \<Rightarrow> bumpa_domain_event set \<Rightarrow> loyalty_db \<Rightarrow> services_state broker_network \<Rightarrow> bool" where
  "counts_match stringify E db n \<longleftrightarrow> (\<forall>u.
     st_purchaseCount (stats_of u (ld_stats (fst (fst (nw_world n))))) =
       st_purchaseCount (stats_of u (ld_stats db)) + int (card (counted_purchases stringify E db u n)) \<and>
     st_totalSpendKobo (stats_of u (ld_stats (fst (fst (nw_world n))))) =
       st_totalSpendKobo (stats_of u (ld_stats db)) + (\<Sum>p \<in> counted_purchases stringify E db u n. pc_amountKobo (payload p)))"

lemma purchases_grow: "set (nw_published n) \<subseteq> set (nw_published n') \<Longrightarrow> purchases_in stringify E n \<subseteq> purchases_in stringify E n'"
  by (auto simp: purchases_in_def)

text \<open>A step that runs no handler: new publications are not counted yet.\<close>

lemma quiet_step:
  assumes "set (nw_published n) \<subseteq> set (nw_published n')" and "nw_world n' = nw_world n" and "nw_done n' = nw_done n"
    and "known stringify E db n" and "counts_match stringify E db n" and "inj_on eventId (purchases_in stringify E n')"
  shows "known stringify E db n' \<and> counts_match stringify E db n'"
proof
  note grow = purchases_grow [OF assms(1), of stringify]
  show "known stringify E db n'" using assms(4) grow unfolding known_def assms(2,3) by blast
  have "p \<in> purchases_in stringify E n" if new: "p \<in> purchases_in stringify E n'" "processed (eventId p) (fst (fst (nw_world n)))" "\<not> processed (eventId p) db" for p
  proof -
    obtain p' where "p' \<in> purchases_in stringify E n" "eventId p = eventId p'" using assms(4) new(2,3) unfolding known_def by blast
    with assms(6) new(1) grow show ?thesis unfolding inj_on_def by blast
  qed
  then have "counted_purchases stringify E db u n' = counted_purchases stringify E db u n" for u
    using grow unfolding counted_purchases_def new_purchases_def assms(2) by blast
  with assms(5) show "counts_match stringify E db n'" by (simp add: counts_match_def assms(2))
qed

text \<open>A run of the loyalty handler on a published purchase.\<close>

lemma purchase_step:
  assumes "handlePurchaseCompleted rnd od opts confirm now p l = (r, l')" and "fst (nw_world n) = l" and "nw_world n' = (l', snd (nw_world n))"
    and "nw_done n' = nw_done n \<union> (if r = None then {(queue_name_value LoyaltyPurchaseCompleted, signature (published_message stringify (PurchaseCompletedEvent p)))} else {})"
    and "nw_published n' = nw_published n" and "p \<in> purchases_in stringify E n" and "restored stringify parse E"
    and "known stringify E db n" and "counts_match stringify E db n" and "inj_on eventId (purchases_in stringify E n)"
  shows "known stringify E db n' \<and> counts_match stringify E db n'"
proof -
  have same: "purchases_in stringify E n' = purchases_in stringify E n" using assms(5) by (simp add: purchases_in_def)
  obtain d b where l: "l = (d, b)" by (cases l)
  obtain d' b' where l': "l' = (d', b')" by (cases l')
  have only: "x = p" if "(queue_name_value LoyaltyPurchaseCompleted, signature (published_message stringify (PurchaseCompletedEvent x))) =
      (queue_name_value LoyaltyPurchaseCompleted, signature (published_message stringify (PurchaseCompletedEvent p)))"
      "PurchaseCompletedEvent x \<in> E" for x
    using that json_inj [OF assms(7)] assms(6) by (simp add: purchases_in_def)
  show ?thesis
  proof (cases "processed (eventId p) d \<or> r \<noteq> None")
    case True
    then have "l' = l" using assms(1) loyalty.done_skips [of p l] loyalty.failure_keeps [of rnd od opts confirm now p l] l
      by (cases r) auto
    then have world: "nw_world n' = nw_world n" using assms(2,3) by (metis prod.collapse)
    have "counted_purchases stringify E db u n' = counted_purchases stringify E db u n" for u
      by (simp add: counted_purchases_def same world)
    moreover have "processed (eventId p) (fst (fst (nw_world n)))" if "r = None" using True that assms(2) l by simp
    ultimately show ?thesis
      using assms(8,9) only unfolding known_def counts_match_def world assms(4) same by (auto simp: queue_values split: if_splits)
  next
    case False
    then have run: "handlePurchaseCompleted rnd od opts confirm now p (d, b) = (None, d', b')" "\<not> processed (eventId p) d"
      using assms(1) l l' by auto
    note c = handler_counters [OF run]
    have w: "fst (fst (nw_world n)) = d" "fst (fst (nw_world n')) = d'" "snd (nw_world n') = snd (nw_world n)" using assms(2,3) l l' by simp_all
    have fresh: "\<not> processed (eventId p) db" using assms(8) run(2) unfolding known_def w by blast
    have counted: "counted_purchases stringify E db u n' =
        (if u = pc_userId (payload p) then insert p (counted_purchases stringify E db u n) else counted_purchases stringify E db u n)" for u
      using assms(6) fresh c(1) inj_onD [OF assms(10) _ _ assms(6)] by (auto simp: counted_purchases_def new_purchases_def same w)
    have "p \<notin> counted_purchases stringify E db u n" "finite (counted_purchases stringify E db u n)" for u
      using run(2) finite_purchases [OF assms(7), of n] by (simp_all add: counted_purchases_def new_purchases_def w)
    then have "counts_match stringify E db n'" using assms(9) c(2,3) by (simp add: counts_match_def counted w)
    moreover have "known stringify E db n'"
      using assms(6,8) c(1) only unfolding known_def w same assms(4) by (auto simp: queue_values split: if_splits)
    ultimately show ?thesis by simp
  qed
qed

text \<open>A run of the cashback handler on a published badge.\<close>

lemma badge_step:
  assumes "handleBadgeUnlocked env now p c = (r, c')" and "snd (nw_world n) = c" and "nw_world n' = (fst (nw_world n), c')"
    and "nw_done n' = nw_done n \<union> (if r = None then {(queue_name_value CashbackBadgeUnlocked, signature (published_message stringify (BadgeUnlockedEvent p)))} else {})"
    and "nw_published n' = nw_published n" and "restored stringify parse E" and "BadgeUnlockedEvent p \<in> E"
    and "known stringify E db n" and "counts_match stringify E db n"
  shows "known stringify E db n' \<and> counts_match stringify E db n'"
proof -
  have same: "purchases_in stringify E n' = purchases_in stringify E n" using assms(5) by (simp add: purchases_in_def)
  have "counted_purchases stringify E db u n' = counted_purchases stringify E db u n" for u
    by (simp add: counted_purchases_def same assms(3))
  moreover have "eventId x \<in> set (cs_processed c')" if "eventId x \<in> set (cs_processed c)" for x :: badge_unlocked_event
    using that cashback_consumer.done_stays [of x c env now p] assms(1) by simp
  moreover have "eventId p \<in> set (cs_processed c')" if "r = None"
    using cashback_consumer.success_done [of env now p c c'] assms(1) that by simp
  ultimately show ?thesis
    using assms(2,8,9) json_inj [OF assms(6) _ assms(7)] unfolding known_def counts_match_def same assms(3,4) by (auto simp: queue_values split: if_splits)
qed

section \<open>Runs\<close>

lemma known_start: "known stringify E d (start_network ((d, b), c)) \<and> counts_match stringify E d (start_network ((d, b), c))"
  by (simp add: known_def counts_match_def counted_purchases_def new_purchases_def purchases_in_def start_network_def)

lemma known_step:
  assumes "network_step False route (set all_declarations) stringify parse (service_handler other rnd od opts confirm clock env clock') n n'"
    and "system_inv n" and "restored stringify parse E" and "publishes_only stringify E n" and "inj_on eventId (purchases_in stringify E n')"
    and "known stringify E db n" and "counts_match stringify E db n"
  shows "known stringify E db n' \<and> counts_match stringify E db n'"
  using assms(1,2)
proof (cases rule: world_step)
  case same
  show ?thesis by (rule quiet_step [OF step_grows(1) [OF assms(1)] same assms(6,7,5)])
next
  case (handled q m e)
  obtain k where k: "q = queue_name_value k" using consumed_queue [OF handled(1)] by blast
  note event = published_for_event [OF assms(3,4) handled(2) [unfolded k] handled(4)]
  obtain l c where w: "nw_world n = (l, c)" by (cases "nw_world n")
  show ?thesis
  proof (cases k)
    case LoyaltyPurchaseCompleted
    then obtain p where p: "p \<in> purchases_in stringify E n" "e = PurchaseCompletedEvent p" using event(2) by auto
    obtain r l' where run: "handlePurchaseCompleted rnd od opts confirm (clock l) p l = (r, l')" by (metis prod.exhaust)
    have h: "service_handler other rnd od opts confirm clock env clock' q e (nw_world n) = (r, l', c)"
      by (simp add: service_handler_def k LoyaltyPurchaseCompleted p(2) w run)
    have "inj_on eventId (purchases_in stringify E n)"
      using assms(5) purchases_grow [OF step_grows(1) [OF assms(1)]] inj_on_subset by blast
    moreover have "nw_world n' = (l', snd (nw_world n))" using handled(5) unfolding h by (simp add: w)
    moreover have "nw_done n' = nw_done n \<union>
        (if r = None then {(queue_name_value LoyaltyPurchaseCompleted, signature (published_message stringify (PurchaseCompletedEvent p)))} else {})"
      using handled(6) unfolding h fst_conv unfolding event(1) k LoyaltyPurchaseCompleted p(2) .
    moreover have "fst (nw_world n) = l" by (simp add: w)
    ultimately show ?thesis using purchase_step [OF run _ _ _ handled(3) p(1) assms(3,6,7)] by blast
  next
    case CashbackBadgeUnlocked
    then obtain p where p: "p \<in> badges_in stringify E n" "e = BadgeUnlockedEvent p" using event(2) by auto
    obtain r c' where run: "handleBadgeUnlocked env (clock' c) p c = (r, c')" by (metis prod.exhaust)
    have h: "service_handler other rnd od opts confirm clock env clock' q e (nw_world n) = (r, l, c')"
      by (simp add: service_handler_def k CashbackBadgeUnlocked p(2) w run)
    have "nw_world n' = (fst (nw_world n), c')" using handled(5) unfolding h by (simp add: w)
    moreover have "nw_done n' = nw_done n \<union>
        (if r = None then {(queue_name_value CashbackBadgeUnlocked, signature (published_message stringify (BadgeUnlockedEvent p)))} else {})"
      using handled(6) unfolding h fst_conv unfolding event(1) k CashbackBadgeUnlocked p(2) .
    moreover have "snd (nw_world n) = c" "BadgeUnlockedEvent p \<in> E" using p(1) by (simp_all add: w badges_in_def)
    ultimately show ?thesis using badge_step [OF run _ _ _ handled(3) assms(3) _ assms(6,7)] by blast
  qed
qed

lemma known_run:
  assumes "(network_step False route (set all_declarations) stringify parse (service_handler other rnd od opts confirm clock env clock'))\<^sup>*\<^sup>*
      (start_network ((d, b), c)) n"
    and "amqp_routing route" and "restored stringify parse E" and "publishes_only stringify E n" and "inj_on eventId (purchases_in stringify E n)"
  shows "known stringify E d n \<and> counts_match stringify E d n"
  using assms(1,4,5)
proof (induction rule: rtranclp_induct)
  case base
  show ?case by (rule known_start)
next
  case (step n n')
  note grows = step_grows(1) [OF step.hyps(2)]
  have only: "publishes_only stringify E n" using step.prems(1) grows by (auto simp: publishes_only_def)
  moreover have "inj_on eventId (purchases_in stringify E n)" using step.prems(2) purchases_grow [OF grows] inj_on_subset by blast
  ultimately have "known stringify E d n \<and> counts_match stringify E d n" by (rule step.IH)
  with known_step [OF step.hyps(2) system_inv_run [OF step.hyps(1) assms(2)] assms(3) only step.prems(2)] show ?case by blast
qed

lemma published_kept_or_done:
  assumes "(network_step False route (set all_declarations) stringify parse handler)\<^sup>*\<^sup>* (start_network w) n" and "amqp_routing route"
    and "m \<in> set (nw_published n)" and "(q, routingKey m) \<in> set all_subscriptions"
  shows "(q, signature m) \<in> nw_done n \<or> signature m \<in> signature ` copies q n"
proof -
  have "published_for q n \<subseteq> {s. (q, s) \<in> nw_done n} \<union> signature ` live q n"
    using system_inv_run [OF assms(1,2)] subscribed_consumed [OF assms(4)] by (auto simp: system_inv_def)
  then show ?thesis using assms(3,4) live_copies [of q n] unfolding published_for_def by blast
qed

section \<open>Properties\<close>


lemma handled_once:
  assumes "m = published_message stringify e" and "route D (exchange_value EventsExchange) (routingKey m) = {q}"
    and "BindQueue q (exchange_value EventsExchange) k \<in> D" and "parse (stringify e) = Some e"
  shows "\<exists>n. (network_step False route D stringify parse handler)\<^sup>*\<^sup>* (start_network w) n \<and> nw_published n = [m] \<and>
    nw_world n = snd (handler q e w)"
proof -
  let ?step = "network_step False route D stringify parse handler"
  define n1 where "n1 = (enqueue {q} m (start_network w))\<lparr>nw_published := [m]\<rparr>"
  define n2 where "n2 = n1\<lparr>nw_ready := (nw_ready n1)(q := []), nw_unacked := [(q, 0, m)], nw_tag := (nw_tag n1)(q := 1),
      nw_running := [(q, 0, m, None)]\<rparr>"
  have "?step (start_network w) n1"
    using network_step.publishes [OF assms(1), of False route D parse handler "start_network w"] assms(2)
    by (simp add: start_network_def n1_def)
  then have "?step\<^sup>*\<^sup>* (start_network w) n1" by (rule r_into_rtranclp)
  moreover have "?step n1 n2"
    using network_step.delivers [OF assms(3), of n1 m "[]" False route stringify parse handler]
    by (simp add: n1_def n2_def start_network_def enqueue_def unacked_of_def PREFETCH_def)
  ultimately have "?step\<^sup>*\<^sup>* (start_network w) n2" by (rule rtranclp.rtrancl_into_rtrancl)
  moreover obtain ops n3 where run: "run_handler parse handler None q m n2 = (ops, n3)" by (metis prod.exhaust)
  then have "?step n2 (n3\<lparr>nw_running := [(q, 0, m, Some ops)]\<rparr>)"
    using network_step.handles [of n2 "[]" q 0 m "[]" parse handler None ops n3 False route D stringify] by (simp add: n2_def)
  ultimately have "?step\<^sup>*\<^sup>* (start_network w) (n3\<lparr>nw_running := [(q, 0, m, Some ops)]\<rparr>)" by (rule rtranclp.rtrancl_into_rtrancl)
  moreover have "nw_published n3 = [m]" using run_handler_keeps(5) [OF run] by (simp add: n1_def n2_def)
  moreover have "nw_world n3 = snd (handler q e w)"
    using run assms(1,4) handleMessage_world [of parse "handler q" None m q w]
    by (auto simp: run_handler_def n1_def n2_def start_network_def enqueue_def Let_def split: prod.splits)
  ultimately show ?thesis by (intro exI [of _ "n3\<lparr>nw_running := [(q, 0, m, Some ops)]\<rparr>"]) simp
qed


end
