(* ===== verification/Startup.thy ===== *)
theory Startup
  imports Config Migrations Admin_Properties Topology
begin

text \<open>
  The start of a service: \<open>main.ts\<close>, \<open>app.module.ts\<close> and the feature module of the three services with an
  outbox, \<open>OutboxModule.forRoot\<close>, and the \<open>bootstrap\<close> of the gateway.

  The decorator of a feature module is evaluated when its file is imported, before the decorator of
  \<open>AppModule\<close> calls \<open>ConfigModule.forRoot\<close>, which may add variables from an \<open>.env\<close> file to the process environment.
  \<open>proc\<close> is the environment before that call and \<open>loaded\<close> the one after it. TypeORM runs the registered
  migrations that are not recorded as executed, in one transaction; whether the database and the broker can be
  reached are arguments.
\<close>

section \<open>Outbox options\<close>

record outbox_module_options =
  om_lockKey :: string
  om_redis :: "string \<times> rat"
  om_batchSize :: "rat option"
  om_maxAttempts :: "rat option"
  om_lockTtlMs :: "rat option"
  om_pollIntervalMs :: "rat option"

record resolved_outbox_options =
  ro_lockKey :: string
  ro_redis :: "string \<times> rat"
  ro_batchSize :: rat
  ro_maxAttempts :: rat
  ro_lockTtlMs :: rat
  ro_pollIntervalMs :: rat

definition option_or :: "'a option \<Rightarrow> 'a \<Rightarrow> 'a" where
  "option_or v d = (case v of Some x \<Rightarrow> x | None \<Rightarrow> d)"

definition OutboxModule_forRoot :: "outbox_module_options \<Rightarrow> resolved_outbox_options" where
  "OutboxModule_forRoot options =
     \<lparr>ro_lockKey = om_lockKey options, ro_redis = om_redis options,
      ro_batchSize = option_or (om_batchSize options) 20, ro_maxAttempts = option_or (om_maxAttempts options) 5,
      ro_lockTtlMs = option_or (om_lockTtlMs options) 5000, ro_pollIntervalMs = option_or (om_pollIntervalMs options) 30000\<rparr>"

text \<open>The options as \<open>OutboxService\<close> and its publisher use them.\<close>

definition outbox_options_of :: "resolved_outbox_options \<Rightarrow> outbox_options" where
  "outbox_options_of r = \<lparr>batchSize = nat \<lfloor>ro_batchSize r\<rfloor>, maxAttempts = nat \<lfloor>ro_maxAttempts r\<rfloor>, lockTtlMs = \<lfloor>ro_lockTtlMs r\<rfloor>\<rparr>"

section \<open>Services\<close>

record service_app =
  ap_service :: service_name
  ap_schema :: env_schema
  ap_databaseKey :: string
  ap_portKey :: string
  ap_port :: rat
  ap_lock :: outbox_lock_key
  ap_migrations :: "(string \<times> migration) list"
  ap_entities :: "entity list"
  ap_seed :: "loyalty_db \<Rightarrow> admin_error option \<times> loyalty_db"

definition purchase_app :: service_app where
  "purchase_app = \<lparr>ap_service = PurchaseService, ap_schema = purchase_schema, ap_databaseKey = ''PURCHASE_DATABASE_NAME'',
     ap_portKey = ''PURCHASE_SERVICE_PORT'', ap_port = 3001, ap_lock = PurchaseLock,
     ap_migrations = zip [''CreatePurchaseSchema2026082300010'', ''AddPurchaseIdempotencyKey2026082300020'', ''DropUsersEmailUnique2026082400030'']
       purchase_migrations,
     ap_entities = purchase_entities, ap_seed = (\<lambda>rows. (None, rows))\<rparr>"

definition loyalty_app :: service_app where
  "loyalty_app = \<lparr>ap_service = LoyaltyService, ap_schema = loyalty_schema, ap_databaseKey = ''LOYALTY_DATABASE_NAME'',
     ap_portKey = ''LOYALTY_SERVICE_PORT'', ap_port = 3002, ap_lock = LoyaltyLock,
     ap_migrations = zip [''CreateLoyaltySchema2026082300020'', ''AddBadgeAchievementRequirements2026082300040'', ''AddConfigDisplayFields2026082300050'',
         ''AddAchievementBadgeIndexes2026082300060'', ''AddAchievementGroups2026082400070''] loyalty_migrations,
     ap_entities = loyalty_entities, ap_seed = seed\<rparr>"

definition cashback_app :: service_app where
  "cashback_app = \<lparr>ap_service = CashbackService, ap_schema = cashback_schema, ap_databaseKey = ''CASHBACK_DATABASE_NAME'',
     ap_portKey = ''CASHBACK_SERVICE_PORT'', ap_port = 3004, ap_lock = CashbackLock,
     ap_migrations = zip [''CreateCashbackSchema2026082300030'', ''AddCashbackRetryTracking2026082400040''] cashback_migrations,
     ap_entities = cashback_entities, ap_seed = (\<lambda>rows. (None, rows))\<rparr>"

definition feature_module :: "service_app \<Rightarrow> process_env \<Rightarrow> config_error + resolved_outbox_options" where
  "feature_module a env =
     (case getRedisConfig (ap_schema a) env of Inl e \<Rightarrow> Inl e | Inr redis \<Rightarrow>
     (case getOutboxRuntimeConfig (ap_schema a) env of Inl e \<Rightarrow> Inl e | Inr c \<Rightarrow>
        Inr (OutboxModule_forRoot \<lparr>om_lockKey = lock_key_value (ap_lock a), om_redis = redis,
          om_batchSize = Some (or_batchSize c), om_maxAttempts = Some (or_maxAttempts c),
          om_lockTtlMs = Some (or_lockTtlMs c), om_pollIntervalMs = Some (or_pollIntervalMs c)\<rparr>)))"

text \<open>
  The database of a service: its schema, the migrations recorded as executed, and the rows. Only the rows of the
  loyalty service are touched at the start, by \<open>AddAchievementGroups\<close> and by the seeder.
\<close>

record service_database =
  sd_schema :: schema
  sd_executed :: "string list"
  sd_rows :: loyalty_db

definition run_migrations :: "(string \<times> migration) list \<Rightarrow> service_database \<Rightarrow> service_database option" where
  "run_migrations ms db =
     (let pending = filter (\<lambda>m. fst m \<notin> set (sd_executed db)) ms;
          rows = sd_rows db in
      case migrate (map snd pending) (sd_schema db) of
        None \<Rightarrow> None
      | Some s \<Rightarrow>
          Some \<lparr>sd_schema = s, sd_executed = sd_executed db @ map fst pending,
            sd_rows = (if ''AddAchievementGroups2026082400070'' \<in> set (map fst pending)
              then rows\<lparr>ld_groups := backfill_groups (ld_achievements rows) (ld_groups rows)\<rparr> else rows)\<rparr>)"

datatype start_error = ConfigError config_error | DatabaseDown | MigrationError | BrokerDown | SeedError admin_error

record running_service =
  ra_outbox :: resolved_outbox_options
  ra_postgres :: connection_config
  ra_rabbit :: connection_config
  ra_subscriptions :: "subscription list"
  ra_port :: rat

definition read_settings :: "service_app \<Rightarrow> process_env \<Rightarrow> process_env \<Rightarrow> config_error + running_service" where
  "read_settings a proc loaded =
     (case feature_module a proc of Inl e \<Rightarrow> Inl e | Inr outbox \<Rightarrow>
     (case validateConfig (ap_schema a) loaded of Inl e \<Rightarrow> Inl e | Inr _ \<Rightarrow>
     (case getPostgresConfig (ap_schema a) (ap_databaseKey a) loaded of Inl e \<Rightarrow> Inl e | Inr pg \<Rightarrow>
     (case getRabbitMqConfig (ap_schema a) loaded of Inl e \<Rightarrow> Inl e | Inr mq \<Rightarrow>
     (case getNumberEnv (ap_schema a) (ap_portKey a) (ap_port a) loaded of Inl e \<Rightarrow> Inl e | Inr port \<Rightarrow>
        Inr \<lparr>ra_outbox = outbox, ra_postgres = pg, ra_rabbit = mq,
          ra_subscriptions = service_subscriptions (ap_service a), ra_port = port\<rparr>)))))"

text \<open>
  The port is read after the modules are up; a configuration that can be read before can be read then,
  so it is read with the other settings. The broker connects before the consumers and the seeder start.
\<close>

definition start_app ::
  "service_app \<Rightarrow> process_env \<Rightarrow> process_env \<Rightarrow> bool \<Rightarrow> bool \<Rightarrow> service_database \<Rightarrow> (start_error + running_service) \<times> service_database" where
  "start_app a proc loaded database_up broker_up db =
     (case read_settings a proc loaded of
        Inl e \<Rightarrow> (Inl (ConfigError e), db)
      | Inr r \<Rightarrow>
          if \<not> database_up then (Inl DatabaseDown, db)
          else (case run_migrations (ap_migrations a) db of
             None \<Rightarrow> (Inl MigrationError, db)
           | Some db1 \<Rightarrow>
               if \<not> broker_up then (Inl BrokerDown, db1)
               else (case ap_seed a (sd_rows db1) of
                  (Some e, rows) \<Rightarrow> (Inl (SeedError e), db1\<lparr>sd_rows := rows\<rparr>)
                | (None, rows) \<Rightarrow> (Inr r, db1\<lparr>sd_rows := rows\<rparr>))))"

section \<open>The gateway\<close>

record gateway_settings =
  gs_docsEnabled :: bool
  gs_bodyLimit :: string
  gs_corsOrigins :: "string list option"
  gs_port :: rat

definition gateway_start :: "process_env \<Rightarrow> config_error + gateway_settings" where
  "gateway_start loaded =
     (case validateConfig gateway_schema loaded of Inl e \<Rightarrow> Inl e | Inr _ \<Rightarrow>
     (case getBooleanEnv gateway_schema ''GATEWAY_DOCS_ENABLED'' True loaded of Inl e \<Rightarrow> Inl e | Inr docsEnabled \<Rightarrow>
     (case getStringEnv gateway_schema ''GATEWAY_BODY_LIMIT'' ''100kb'' loaded of Inl e \<Rightarrow> Inl e | Inr bodyLimit \<Rightarrow>
     (case getCsvEnv gateway_schema ''GATEWAY_CORS_ORIGINS'' loaded of Inl e \<Rightarrow> Inl e | Inr corsOrigins \<Rightarrow>
     (case getNumberEnv gateway_schema ''API_GATEWAY_PORT'' 3000 loaded of Inl e \<Rightarrow> Inl e | Inr port \<Rightarrow>
        Inr \<lparr>gs_docsEnabled = docsEnabled, gs_bodyLimit = bodyLimit,
          gs_corsOrigins = (if 0 < length corsOrigins then Some corsOrigins else None), gs_port = port\<rparr>)))))"

definition getHealth :: "service_name \<Rightarrow> string \<times> string" where
  "getHealth service = (''ok'', service_name_value service)"

section \<open>Settings\<close>

definition apps :: "service_app list" where
  "apps = [purchase_app, loyalty_app, cashback_app]"

lemma app_schema:
  assumes "a \<in> set apps"
  shows "set (service_schema (ap_portKey a) (\<lfloor>ap_port a\<rfloor>) (ap_databaseKey a)) \<subseteq> set (ap_schema a)" and "ap_port a = of_int \<lfloor>ap_port a\<rfloor>" "0 < \<lfloor>ap_port a\<rfloor>"
  using assms
  by (auto simp: apps_def purchase_app_def loyalty_app_def cashback_app_def purchase_schema_def loyalty_schema_def cashback_schema_def)

lemma port_in: "(p, PositiveInt n) \<in> set (service_schema p n d)"
  by (simp add: service_schema_def)

definition well_set :: "service_app \<Rightarrow> running_service \<Rightarrow> bool" where
  "well_set a r \<longleftrightarrow> list_all positive_number [ra_port r, cc_port (ra_postgres r), cc_port (ra_rabbit r), snd (ro_redis (ra_outbox r)),
       ro_batchSize (ra_outbox r), ro_maxAttempts (ra_outbox r), ro_lockTtlMs (ra_outbox r), ro_pollIntervalMs (ra_outbox r)]
     \<and> ro_lockKey (ra_outbox r) = lock_key_value (ap_lock a) \<and> ra_subscriptions r = service_subscriptions (ap_service a)"

lemma feature_ok:
  assumes "a \<in> set apps" and "validateEnv (ap_schema a) env = None"
  shows "\<exists>r. feature_module a env = Inr r \<and> ro_lockKey r = lock_key_value (ap_lock a) \<and>
    list_all positive_number [snd (ro_redis r), ro_batchSize r, ro_maxAttempts r, ro_lockTtlMs r, ro_pollIntervalMs r]"
  using rabbit_redis_ok(2) [OF assms(2) app_schema(1) [OF assms(1)]] outbox_config_ok [OF assms(2) app_schema(1) [OF assms(1)]]
  by (auto simp: feature_module_def OutboxModule_forRoot_def option_or_def)

lemma settings_ok:
  assumes "a \<in> set apps" and "validateEnv (ap_schema a) proc = None" and "validateEnv (ap_schema a) loaded = None"
  shows "\<exists>r. read_settings a proc loaded = Inr r \<and> well_set a r"
proof -
  note sub = app_schema(1) [OF assms(1)]
  obtain v where "validateConfig (ap_schema a) loaded = Inr v" using assms(3) by (auto simp: validateEnv_def split: sum.splits)
  moreover obtain i where "0 < i" "getNumberEnv (ap_schema a) (ap_portKey a) (ap_port a) loaded = Inr (of_int i)"
    using positive_ok [OF assms(3) subsetD [OF sub port_in] app_schema(3) [OF assms(1)]] app_schema(2) [OF assms(1)] by auto
  ultimately show ?thesis
    using feature_ok [OF assms(1,2)] postgres_ok [OF assms(3) sub] rabbit_redis_ok(1) [OF assms(3) sub]
    by (auto simp: read_settings_def well_set_def positive_number_def)
qed

lemma settings_invalid:
  assumes "validateEnv (ap_schema a) proc \<noteq> None \<or> validateEnv (ap_schema a) loaded \<noteq> None" and "a \<in> set apps"
  shows "read_settings a proc loaded = Inl InvalidEnv"
proof (cases "validateEnv (ap_schema a) proc")
  case (Some e)
  with invalid_configs(3) [OF Some] show ?thesis by (simp add: read_settings_def feature_module_def)
next
  case None
  then have "validateConfig (ap_schema a) loaded = Inl InvalidEnv"
    using assms(1) by (auto simp: validateEnv_def validateConfig_def split: sum.splits if_splits)
  with feature_ok [OF assms(2) None] show ?thesis by (auto simp: read_settings_def)
qed

lemma well_set_options:
  assumes "well_set a r"
  shows "0 < batchSize (outbox_options_of (ra_outbox r))" "0 < maxAttempts (outbox_options_of (ra_outbox r))"
    "0 < lockTtlMs (outbox_options_of (ra_outbox r))"
  using assms by (auto simp: well_set_def outbox_options_of_def positive_number_def)

text \<open>The services share one Redis; no two of them use the same lock, database or port variable.\<close>

lemma services_apart:
  "distinct (map (lock_key_value \<circ> ap_lock) apps)" "distinct (map ap_databaseKey apps)" "distinct (map ap_portKey apps)"
  by (simp_all add: apps_def purchase_app_def loyalty_app_def cashback_app_def)

lemma gateway_starts:
  "if validateEnv gateway_schema env = None
   then \<exists>g. gateway_start env = Inr g \<and> positive_number (gs_port g) \<and>
     (case gs_corsOrigins g of Some os \<Rightarrow> os \<noteq> [] \<and> [] \<notin> set os | None \<Rightarrow> True)
   else gateway_start env = Inl InvalidEnv"
proof (cases "validateEnv gateway_schema env")
  case None
  then obtain v where "validateConfig gateway_schema env = Inr v" by (auto simp: validateEnv_def split: sum.splits)
  moreover have "(''API_GATEWAY_PORT'', PositiveInt 3000) \<in> set gateway_schema" by (simp add: gateway_schema_def)
  then obtain i where "0 < i" "getNumberEnv gateway_schema ''API_GATEWAY_PORT'' 3000 env = Inr (of_int i)"
    using positive_ok [OF None] by fastforce
  ultimately show ?thesis
    using None by (auto simp: gateway_start_def getBooleanEnv_def getStringEnv_def getCsvEnv_def positive_number_def filter_map)
next
  case (Some e)
  then have "validateConfig gateway_schema env = Inl InvalidEnv"
    by (auto simp: validateEnv_def validateConfig_def split: sum.splits if_splits)
  with Some show ?thesis by (simp add: gateway_start_def)
qed

section \<open>Databases\<close>

lemma sets_up_apps:
  "a \<in> set apps \<Longrightarrow> sets_up (map snd (ap_migrations a)) (ap_entities a)"
  using sets_up_services
  by (auto simp: apps_def purchase_app_def loyalty_app_def cashback_app_def purchase_migrations_def loyalty_migrations_def cashback_migrations_def)

lemma migration_names: "a \<in> set apps \<Longrightarrow> distinct (map fst (ap_migrations a))"
  by (auto simp: apps_def purchase_app_def loyalty_app_def cashback_app_def purchase_migrations_def loyalty_migrations_def cashback_migrations_def)

lemma migrate_append: "migrate (xs @ ys) s = Option.bind (migrate xs s) (migrate ys)"
  by (simp add: migrate_def perform_all_append)

text \<open>A database that has run some of the migrations, from the first on.\<close>

definition at_migration :: "service_app \<Rightarrow> nat \<Rightarrow> service_database \<Rightarrow> bool" where
  "at_migration a k db \<longleftrightarrow> sd_executed db = map fst (take k (ap_migrations a)) \<and>
     migrate (map snd (take k (ap_migrations a))) [] = Some (sd_schema db)"

lemma pending_rest:
  assumes "distinct (map fst ms)"
  shows "filter (\<lambda>m. fst m \<notin> set (map fst (take k ms))) ms = drop k ms"
proof -
  have "fst m \<notin> set (map fst (take k ms))" if "m \<in> set (drop k ms)" for m
  proof -
    have "distinct (map fst (take k ms) @ map fst (drop k ms))" using assms by (simp flip: map_append)
    then show ?thesis using that by auto
  qed
  then have "filter (\<lambda>m. fst m \<notin> set (map fst (take k ms))) (take k ms @ drop k ms) = drop k ms"
    unfolding filter_append by (auto simp: filter_empty_conv filter_id_conv)
  then show ?thesis by simp
qed

lemma run_migrations_finish:
  assumes "a \<in> set apps" and "at_migration a k db"
  shows "\<exists>db'. run_migrations (ap_migrations a) db = Some db' \<and> at_migration a (length (ap_migrations a)) db' \<and>
    list_all (serves (sd_schema db')) (ap_entities a)"
proof -
  let ?ms = "ap_migrations a"
  obtain s where s: "migrate (map snd ?ms) [] = Some s" "list_all (serves s) (ap_entities a)"
    using sets_up_apps [OF assms(1)] by (auto simp: sets_up_def split: option.splits)
  have pending: "filter (\<lambda>m. fst m \<notin> set (sd_executed db)) ?ms = drop k ?ms"
    using pending_rest [OF migration_names [OF assms(1)], of k] assms(2) by (simp add: at_migration_def)
  have "migrate (map snd (take k ?ms) @ map snd (drop k ?ms)) [] = Some s" using s(1) by (simp flip: map_append)
  then have "migrate (map snd (drop k ?ms)) (sd_schema db) = Some s"
    using assms(2) by (simp add: migrate_append at_migration_def)
  moreover have "map fst (take k ?ms) @ map fst (drop k ?ms) = map fst ?ms" by (simp flip: map_append)
  ultimately show ?thesis
    unfolding run_migrations_def Let_def pending at_migration_def using s assms(2) by (auto simp: at_migration_def)
qed

lemma run_migrations_none:
  assumes "a \<in> set apps" and "at_migration a (length (ap_migrations a)) db"
  shows "run_migrations (ap_migrations a) db = Some db"
proof -
  have "filter (\<lambda>m. fst m \<notin> set (sd_executed db)) (ap_migrations a) = []"
    using pending_rest [OF migration_names [OF assms(1)], of "length (ap_migrations a)"] assms(2) by (simp add: at_migration_def)
  then show ?thesis by (simp add: run_migrations_def migrate_def)
qed

lemma seed_again: "a \<in> set apps \<Longrightarrow> ap_seed a rows = (None, rows') \<Longrightarrow> ap_seed a rows' = (None, rows')"
  using seed_idempotent by (auto simp: apps_def purchase_app_def loyalty_app_def cashback_app_def)

lemma seed_fails: "a \<in> set apps \<Longrightarrow> ap_seed a rows = (Some e, rows') \<Longrightarrow> ap_service a = LoyaltyService"
  by (auto simp: apps_def purchase_app_def loyalty_app_def cashback_app_def)

section \<open>Properties\<close>

text \<open>
  C38. The start of a service, on a database that has run none, some or all of its migrations, with database and
  broker reachable. It fails on an invalid environment, with nothing changed, and it fails when the seeder of the
  loyalty service finds a name taken; otherwise it succeeds. Then the schema serves the entities, all
  migrations are recorded, ports, limits and intervals are positive, the outbox uses the service's own lock, its
  consumers are subscribed, and a restart changes nothing and gives the same settings.
\<close>

theorem service_start:
  assumes "a \<in> set apps" and "at_migration a k db"
  shows "case start_app a proc loaded True True db of
      (Inr r, db') \<Rightarrow> validateEnv (ap_schema a) proc = None \<and> validateEnv (ap_schema a) loaded = None \<and> well_set a r \<and>
        0 < batchSize (outbox_options_of (ra_outbox r)) \<and> 0 < maxAttempts (outbox_options_of (ra_outbox r)) \<and>
        at_migration a (length (ap_migrations a)) db' \<and> list_all (serves (sd_schema db')) (ap_entities a) \<and>
        start_app a proc loaded True True db' = (Inr r, db')
    | (Inl e, db') \<Rightarrow>
        (validateEnv (ap_schema a) proc \<noteq> None \<or> validateEnv (ap_schema a) loaded \<noteq> None) \<and> e = ConfigError InvalidEnv \<and> db' = db \<or>
        ap_service a = LoyaltyService \<and> (\<exists>x. e = SeedError x \<and> at_migration a (length (ap_migrations a)) db')"
proof (cases "validateEnv (ap_schema a) proc = None \<and> validateEnv (ap_schema a) loaded = None")
  case False
  then have "read_settings a proc loaded = Inl InvalidEnv" using settings_invalid assms(1) by blast
  with False show ?thesis by (simp add: start_app_def)
next
  case True
  obtain r where r: "read_settings a proc loaded = Inr r" "well_set a r" using settings_ok [OF assms(1)] True by blast
  obtain db1 where db1: "run_migrations (ap_migrations a) db = Some db1" "at_migration a (length (ap_migrations a)) db1"
      "list_all (serves (sd_schema db1)) (ap_entities a)" using run_migrations_finish [OF assms] by blast
  obtain err rows where seeded: "ap_seed a (sd_rows db1) = (err, rows)" by fastforce
  have at: "at_migration a (length (ap_migrations a)) (db1\<lparr>sd_rows := rows\<rparr>)" using db1(2) by (simp add: at_migration_def)
  show ?thesis
  proof (cases err)
    case None
    with seeded have "ap_seed a rows = (None, rows)" using seed_again [OF assms(1)] by blast
    then have "start_app a proc loaded True True (db1\<lparr>sd_rows := rows\<rparr>) = (Inr r, db1\<lparr>sd_rows := rows\<rparr>)"
      by (simp add: start_app_def r(1) run_migrations_none [OF assms(1) at])
    with None True r db1 at seeded well_set_options [OF r(2)] show ?thesis by (simp add: start_app_def)
  next
    case (Some e)
    with r db1 at seeded seed_fails [OF assms(1)] show ?thesis by (simp add: start_app_def)
  qed
qed

definition sample_process :: process_env where
  "sample_process = map_of (map (\<lambda>k. (k, ''x'')) [''RABBITMQ_HOST'', ''RABBITMQ_USER'', ''RABBITMQ_PASSWORD'', ''REDIS_HOST'', ''DATABASE_HOST'',
     ''DATABASE_USER'', ''DATABASE_PASSWORD'', ''PURCHASE_DATABASE_NAME'', ''LOYALTY_DATABASE_NAME'', ''CASHBACK_DATABASE_NAME''])"

definition empty_database :: service_database where
  "empty_database = \<lparr>sd_schema = [], sd_executed = [], sd_rows = empty_loyalty\<rparr>"

lemma loyalty_first_start:
  "case start_app loyalty_app sample_process sample_process True True empty_database of
     (Inr r, db) \<Rightarrow> map bc_name (ld_badges (sd_rows db)) = map bc_name DEFAULT_BADGES | (Inl e, db) \<Rightarrow> False"
  by code_simp

theorem service_start_witness:
  "\<exists>r db. start_app loyalty_app sample_process sample_process True True empty_database = (Inr r, db) \<and>
     well_set loyalty_app r \<and> map bc_name (ld_badges (sd_rows db)) = map bc_name DEFAULT_BADGES \<and>
     start_app loyalty_app sample_process sample_process True True db = (Inr r, db)"
proof -
  have "loyalty_app \<in> set apps" "at_migration loyalty_app 0 empty_database"
    by (simp_all add: apps_def at_migration_def empty_database_def migrate_def)
  from service_start [OF this, of sample_process sample_process] loyalty_first_start
  show ?thesis by (auto split: prod.splits sum.splits)
qed

text \<open>
  The variables of an \<open>.env\<close> file come too late: with an empty process environment the import of the feature
  module throws before the file is read, and the settings of the outbox do not depend on the file.
\<close>

lemma env_file_comes_too_late:
  "fst (start_app loyalty_app (\<lambda>_. None) sample_process True True db) = Inl (ConfigError InvalidEnv)"
  "read_settings a proc loaded = Inr r \<Longrightarrow> read_settings a proc loaded' = Inr r' \<Longrightarrow> ra_outbox r = ra_outbox r'"
proof -
  have "validateEnv (ap_schema loyalty_app) (\<lambda>_. None) \<noteq> None" by code_simp
  then have "read_settings loyalty_app (\<lambda>_. None) sample_process = Inl InvalidEnv" by (intro settings_invalid) (simp_all add: apps_def)
  then show "fst (start_app loyalty_app (\<lambda>_. None) sample_process True True db) = Inl (ConfigError InvalidEnv)" by (simp add: start_app_def)
  show "read_settings a proc loaded = Inr r \<Longrightarrow> read_settings a proc loaded' = Inr r' \<Longrightarrow> ra_outbox r = ra_outbox r'"
    by (auto simp: read_settings_def split: sum.splits)
qed

end
