(* ===== verification/Spec2Isabelle.thy ===== *)
theory Spec2Isabelle
  imports Gateway_Properties System Default_Catalog Cashback_Retries Logging Purchase Config Migrations Admin_Responses Delivery Startup
begin

text \<open>
  Verification of the Bumpa achievement system (repository \<open>src/\<close>, TypeScript): a loyalty programme made of an
  API gateway and three services that exchange events.

  \<^bold>\<open>The program and its parts.\<close> A client posts a purchase to the gateway (\<open>apps/api-gateway\<close>), which checks the body
  (and on administrative routes the API key) and forwards the call. The purchase service (\<open>apps/purchase-service\<close>) stores user, purchase and a
  \<open>PurchaseCompleted\<close> event in one transaction. Events leave a service through its outbox table
  (\<open>packages/outbox-sdk\<close>) and RabbitMQ (\<open>packages/broker-sdk\<close>), which delivers them at least once. The loyalty
  service (\<open>apps/loyalty-service\<close>) counts the purchase, evaluates the achievement rules, unlocks achievements and
  badges and stores \<open>BadgeUnlocked\<close> events. The cashback service (\<open>apps/cashback-service\<close>) turns each badge into one
  transaction, pays it through Paystack or a mock from a job queue, retries failures, and takes Paystack's webhooks.
  Administrators edit the configuration of the programme through the gateway.

  \<^bold>\<open>Theories, the code they model, and what they show.\<close> Definitions keep the names of the source; a class is a record, an
  enumeration a datatype, a handler one definition from the state to the outcome and the new state, an exception
  an error value.

  \<^item> \<open>Js_Prelude\<close>: JSON values, JavaScript numbers (exact rationals, infinities, NaN), \<open>Number\<close> on text, \<open>trim\<close>,
    truthiness, absent and null properties; generic list lemmas. \<open>Tables\<close>: the statements issued through TypeORM on
    a table as a list of rows, and the locale \<open>conditional_claim\<close> (an \<open>UPDATE ... WHERE status = PENDING\<close> that at most one
    caller wins), interpreted for the outbox and for payments.
  \<^item> \<open>Events\<close>: \<open>packages/events-sdk\<close>, enumerations, payloads, identifiers.
  \<^item> \<open>Backoff\<close>, \<open>Broker\<close>: \<open>broker.service.ts\<close>. The locale \<open>backoff\<close> is interpreted for redelivery, reconnects and
    the retries of cashbacks. A message is run at most six times and dead-lettered exactly when all runs fail; until
    shutdown the service has a channel, a timer or an attempt under way. \<open>Topology\<close>: the exchanges and queues that
    \<open>connectAndSetup\<close> and \<open>bindAndConsume\<close> declare for the consumers of \<open>apps/*/src/messaging\<close>, and the step relation
    \<open>network_step\<close> of messages moving through them, over lost connections and dying processes. Declarations never
    conflict, an event reaches the queue of its consumer only, and no message is lost as long as handlers return before
    their service has reconnected; \<open>stale_ack_loses_message\<close> shows the loss when one does not.
  \<^item> \<open>Outbox\<close>, \<open>Outbox_Delivery\<close>: \<open>outbox.service.ts\<close> and \<open>scheduled-outbox.publisher.ts\<close> as functions and as the step
    relation \<open>outbox_step\<close>. At most one confirmed publish per row under every interleaving and crash, bounded
    retries, eventual publication in creation order, safety of the Redis lock.
  \<^item> \<open>Rules\<close>: \<open>rule-engine.service.ts\<close>, \<open>rule-shape.validator.ts\<close>. The shape check accepts exactly the JSON forms of
    the rule types, and on those the engine answers their meaning.
  \<^item> \<open>Loyalty_Schema\<close>, \<open>Loyalty\<close>, \<open>Loyalty_Unlocks\<close>, \<open>Loyalty_Handler\<close>, \<open>Consumer\<close>, \<open>Loyalty_Properties\<close>:
    \<open>loyalty.service.ts\<close>. The loop that repeats passes until nothing is unlocked ends and reaches the least closed set
    (\<open>earned\<close>); badges, counters under repeated delivery (locales \<open>idempotent_consumer\<close> and \<open>atomic_consumer\<close>), events
    and the state shown to the user follow.
  \<^item> \<open>Pagination\<close>, \<open>Admin\<close>, \<open>Admin_Properties\<close>, \<open>Admin_Responses\<close>: \<open>admin-config.service.ts\<close>, its DTOs, the seeder and the
    defaults. Any session keeps the configuration sound (\<open>config_ok\<close>); the locale \<open>sort_positions\<close>
    is interpreted for groups, achievements and badges; an answer of the API is a body that recreates its row.
    \<open>Default_Catalog\<close>: the seeded programme as thresholds on purchases and spend.
  \<^item> \<open>Purchase\<close>: \<open>purchase.service.ts\<close> with its controller and DTO, idempotency keys included.
  \<^item> \<open>Payments\<close>, \<open>Cashback\<close>, \<open>Webhook\<close>, \<open>Cashback_Steps\<close>, \<open>Cashback_Properties\<close>, \<open>Cashback_Retries\<close>: \<open>payments/\<close> and
    \<open>cashback.service.ts\<close>. The locale \<open>payment_provider\<close> holds for the mock, Paystack and the configured provider.
    \<open>cashback_step\<close> interleaves events, the three steps of each payment, webhooks and retries; over it there is one
    transaction per user and badge, with fixed owner and amount, and no payment reference is sent twice. A run of the
    payment job refines the relation.
  \<^item> \<open>Gateway_Dto\<close>, \<open>Gateway\<close>, \<open>Gateway_Properties\<close>, \<open>Logging\<close>: the gateway's checks, routes, guard, client and envelopes,
    and \<open>packages/logger-sdk\<close>. Only authorised and valid calls are forwarded, writes once; a path parameter adds no
    segment; the checks refuse nothing a service accepts; secrets of a body do not reach the log.
  \<^item> \<open>Config\<close>: the \<open>config/env.ts\<close> of the four applications. A validated environment lets no later reader fail.
  \<^item> \<open>Migrations\<close>: the ten migrations as statements on a schema, and the tables the entities declare. They run on an
    empty database, serve the entities, and roll back; the conditional ones upgrade any older schema.
  \<^item> \<open>Delivery\<close>: the handlers of the loyalty and the cashback service over the queues of \<open>Topology\<close>. In every run each published
    purchase is processed or still held, and the counters have grown by exactly the distinct processed purchases.
  \<^item> \<open>Startup\<close>: \<open>main.ts\<close>, \<open>app.module.ts\<close>, the feature modules and \<open>OutboxModule.forRoot\<close>. A service starts on a database
    that has run any of its migrations, exactly when the environment is valid and seeding finds no taken name; it then has
    the settings the other theories ask for, and a restart changes nothing.
  \<^item> \<open>System\<close>: badge events of a purchase, delivered in any order and multiplicity, become one cashback per badge. This
    theory: a first purchase, from the request to the payout.

  \<^bold>\<open>What is assumed.\<close> Where a theorem needs them, as hypotheses it names: random identifiers do not repeat and do not hit
  stored ones (\<open>fresh_draws\<close>, \<open>inj_on (drawn_id env)\<close>); the default exchange and topic exchanges of RabbitMQ route as
  documented (\<open>amqp_routing\<close>); the JSON of a published event is read back as it was (\<open>restored\<close>); \<open>ORDER BY\<close> sorts by the columns it names, ties and
  collation being arbitrary (\<open>sql_orders\<close>); primary and unique keys of a table hold. The network, the confirmations of
  the broker, HMAC, \<open>JSON.parse\<close>, \<open>JSON.stringify\<close> and the URL and email checks of the validation library are
  arguments; a theorem that needs them to succeed says so. class-validator, zod, TypeORM and PostgreSQL are read with their documented
  meaning. A database transaction is one step; in a payment, reading and claiming the row is one step and the
  provider call lies between the steps; a webhook reads and saves its row in one step.

  \<^bold>\<open>Bounds.\<close> No definition has fuel: every recursion is structural or has a measure (the unlock loop: achievements not yet
  unlocked; redelivery: runs left; the retry loop of the gateway: attempts left). The numbers in the theorems are those
  of the source: six handler runs, three attempts of a payment job, three reads, one write, one hour for the longest
  retry delay. Columns of type integer hold 32 bits; the operations that store a number check the range.

  \<^bold>\<open>Not modelled.\<close> The dependency injection container, security headers and shutdown hooks of the framework; Swagger decorators and response
  classes (documentation of the API); \<open>src/scripts\<close> (operator tools that print events); the text of
  log messages apart from those of a request and its response; timers, other than as the steps that fire them.
\<close>

section \<open>From a request to a payout\<close>

lemma created_event:
  assumes "is_int4 (d_amountKobo dto)"
    and "createReadableId PurchaseId (rnd (pd_draws db)) \<notin> p_id ` set (pd_purchases db)"
    and "createReadableId EventId (rnd (Suc (pd_draws db))) \<notin> ob_id ` set (pd_outbox db)"
    and "distinct (map ob_id (pd_outbox db))"
    and "createPurchase rnd opts confirm now id dto corr None (db, b) = (res, db', b')"
  obtains event where "ob_payload (last (pd_outbox db')) = PurchaseCompletedEvent event" "pc_userId (payload event) = d_userId dto"
    "snap_id (pc_user (payload event)) = d_userId dto" "pc_amountKobo (payload event) = d_amountKobo dto"
proof -
  let ?pid = "createReadableId PurchaseId (rnd (pd_draws db))" and ?eid = "createReadableId EventId (rnd (Suc (pd_draws db)))"
  let ?event = "buildPurchaseCompletedEvent dto (buildUserSnapshot dto) ?pid corr ?eid now"
  have "map (\<lambda>r. (ob_id r, ob_payload r)) (pd_outbox db') = map (\<lambda>r. (ob_id r, ob_payload r)) (pd_outbox db) @ [(?eid, ?event)]"
    using created_rows [OF _ assms(1) _ assms(2-5)] by (simp add: Let_def truthy_def)
  then have "ob_payload (last (pd_outbox db')) = ?event"
    by (cases "pd_outbox db'" rule: rev_cases) auto
  then show thesis
    using that by (auto simp: buildPurchaseCompletedEvent_def createDomainEvent_def buildUserSnapshot_def)
qed

lemma beginner_only: "default_badge_ids 1 m = {''bdg_beginner''}"
  by (auto simp: default_badge_ids_def)

lemma beginner_badge:
  "{b \<in> set DEFAULT_BADGES. bc_id b = ''bdg_beginner''} = {hd DEFAULT_BADGES}"
  "bc_name (hd DEFAULT_BADGES) = ''Beginner''" "bc_rewardAmountKobo (hd DEFAULT_BADGES) = 30000"
proof -
  have "filter (\<lambda>b. bc_id b = ''bdg_beginner'') DEFAULT_BADGES = [hd DEFAULT_BADGES]" by (simp add: DEFAULT_BADGES_def)
  from arg_cong [OF this, of set] show "{b \<in> set DEFAULT_BADGES. bc_id b = ''bdg_beginner''} = {hd DEFAULT_BADGES}" by simp
qed (simp_all add: DEFAULT_BADGES_def)

lemma default_badge_columns: "distinct (map bc_name DEFAULT_BADGES)" "\<forall>b \<in> set DEFAULT_BADGES. is_int4 (bc_rewardAmountKobo b)"
  by (simp_all add: DEFAULT_BADGES_def is_int4_def)

lemma first_purchase_holdings:
  assumes "sql_orders od" and "ld_achievements db = DEFAULT_ACHIEVEMENTS" and "ld_badges db = DEFAULT_BADGES"
    and "pc_userId (payload event) = u" and "\<not> exists_row (\<lambda>r. st_userId r = u) (ld_stats db)"
    and "achievement_ids u db = {}" and "badge_ids u db = {}"
    and "purchase_transaction rnd od now event db = Inr (ids, db')"
    and "fresh_draws rnd (ld_draws db) (ld_draws db') db"
  shows "new_badges u db db' = {hd DEFAULT_BADGES}"
proof -
  have "stats_of u (ld_stats db) = \<lparr>st_userId = u, st_purchaseCount = 0, st_totalSpendKobo = 0\<rparr>"
    using assms(5) by (simp add: stats_of_def exists_row_def find_one_None [THEN iffD2])
  then have "st_purchaseCount (after_counting event db) = 1"
    by (simp add: after_counting_def count_purchase_def assms(4))
  then have "badge_ids u db' = {''bdg_beginner''}"
    using default_holdings [OF assms(1-3,8,9) refl refl] assms(4,6,7) by (simp add: beginner_only)
  then show ?thesis using beginner_badge(1) by (simp add: new_badges_def assms(3,7))
qed

text \<open>
  C2. From a request to a payout, through all services: a customer the loyalty service does not know makes a
  purchase of any amount the database can hold, under the seeded configuration. The event the purchase service
  stored, processed by the loyalty service, unlocks badges; their events, delivered to the cashback service in
  any order and any positive number of times, add exactly one transaction: 300 naira for the badge Beginner,
  for this customer.
\<close>

theorem first_purchase_pays_beginner:
  assumes "is_int4 (d_amountKobo dto)"
    and "createReadableId PurchaseId (rnd (pd_draws pdb)) \<notin> p_id ` set (pd_purchases pdb)"
    and "createReadableId EventId (rnd (Suc (pd_draws pdb))) \<notin> ob_id ` set (pd_outbox pdb)"
    and "distinct (map ob_id (pd_outbox pdb))"
    and "createPurchase rnd opts confirm now id dto corr None (pdb, b) = (res, pdb', b')"
    and "ob_payload (last (pd_outbox pdb')) = PurchaseCompletedEvent event"
    and "sql_orders od" and "ld_achievements db = DEFAULT_ACHIEVEMENTS" and "ld_badges db = DEFAULT_BADGES"
    and "\<not> exists_row (\<lambda>r. st_userId r = d_userId dto) (ld_stats db)"
    and "achievement_ids (d_userId dto) db = {}" and "badge_ids (d_userId dto) db = {}"
    and "purchase_transaction rnd' od now' event db = Inr (ids, db')"
    and "fresh_draws rnd' (ld_draws db) (ld_draws db') db"
    and "set es = set (badge_unlocks (drop (length (ld_outbox db)) (ld_outbox db')))"
    and "(cashback_step env hmac)\<^sup>*\<^sup>* (s0, []) (s, F)" and "cs_transactions s0 = []" and "net_posts (cs_net s0) = []"
    and "inj_on (drawn_id env) {..<cs_draws (deliver_badges env now'' es s)}"
    and "\<forall>e \<in> set es. eventId e \<notin> set (cs_processed s)"
    and "(d_userId dto, ''Beginner'') \<notin> fst ` cashbacks s"
  shows "cashbacks (deliver_badges env now'' es s) = insert ((d_userId dto, ''Beginner''), 30000) (cashbacks s)"
proof -
  let ?u = "d_userId dto"
  obtain e where "ob_payload (last (pd_outbox pdb')) = PurchaseCompletedEvent e" "pc_userId (payload e) = ?u"
      "snap_id (pc_user (payload e)) = ?u" using created_event [OF assms(1-5)] by metis
  with assms(6) have user: "pc_userId (payload event) = ?u" "snap_id (pc_user (payload event)) = ?u" by simp_all
  have new: "new_badges ?u db db' = {hd DEFAULT_BADGES}"
    by (rule first_purchase_holdings [OF assms(7-9) user(1) assms(10-14)])
  have "distinct (map ac_id (ld_achievements db))" "distinct (map bc_id (ld_badges db))" "distinct (map bc_name (ld_badges db))"
    "\<forall>b \<in> set (ld_badges db). is_int4 (bc_rewardAmountKobo b)"
    using default_rules_ok(4) default_badges_ok(1) default_badge_columns by (simp_all add: assms(8,9))
  note run = conjunct1 [OF badge_cashbacks [OF assms(7) this(1,2) assms(13,14) this(3,4) assms(15-20)], unfolded user new]
  show ?thesis unfolding run using beginner_badge(2,3) assms(21) by simp
qed

definition journey :: "(purchase_error + string) \<times> purchase_db \<times> bus" where
  "journey = createPurchase (\<lambda>n. ''abcdef'') default_outbox_options (\<lambda>_. None) 5 id (sample_dto 500000) ''c'' None (empty_purchases, quiet_bus)"

definition journey_event :: purchase_completed_event where
  "journey_event = createDomainEvent PurchaseCompleted
     \<lparr>pc_userId = ''usr_1'', pc_purchaseId = createReadableId PurchaseId ''abcdef'', pc_amountKobo = 500000,
      pc_user = buildUserSnapshot (sample_dto 500000)\<rparr> ''c'' (createReadableId EventId ''abcdef'') 5"

lemma journey_stored: "ob_payload (last (pd_outbox (fst (snd journey)))) = PurchaseCompletedEvent journey_event"
  by code_simp

lemma journey_unlocks:
  "case purchase_transaction sample_rnd sample_orders 9 journey_event seeded of
     Inr (ids, db') \<Rightarrow> length (badge_unlocks (ld_outbox db')) = 1 | Inl _ \<Rightarrow> False"
  by code_simp

theorem first_purchase_pays_beginner_witness:
  "\<exists>ids db' es. purchase_transaction sample_rnd sample_orders 9 journey_event seeded = Inr (ids, db')
     \<and> es = badge_unlocks (ld_outbox db') @ badge_unlocks (ld_outbox db')
     \<and> cashbacks (deliver_badges sample_paystack 10 es empty_cashback) = {((''usr_1'', ''Beginner''), 30000)}"
proof -
  obtain ids db' where tx: "purchase_transaction sample_rnd sample_orders 9 journey_event seeded = Inr (ids, db')"
    and one: "length (badge_unlocks (ld_outbox db')) = 1"
    using journey_unlocks by (auto split: sum.splits prod.splits)
  let ?es = "badge_unlocks (ld_outbox db') @ badge_unlocks (ld_outbox db')"
  obtain res pdb b where run: "createPurchase (\<lambda>n. ''abcdef'') default_outbox_options (\<lambda>_. None) 5 id (sample_dto 500000) ''c'' None
      (empty_purchases, quiet_bus) = (res, pdb, b)" by (metis prod_cases3)
  have stored: "ob_payload (last (pd_outbox pdb)) = PurchaseCompletedEvent journey_event"
    using journey_stored by (simp add: journey_def run)
  have start: "is_int4 (d_amountKobo (sample_dto 500000))" "p_id ` set (pd_purchases empty_purchases) = {}"
    "ob_id ` set (pd_outbox empty_purchases) = {}" "distinct (map ob_id (pd_outbox empty_purchases))"
    by (simp_all add: purchase_samples is_int4_def)
  have user: "d_userId (sample_dto 500000) = ''usr_1''" by (simp add: sample_dto_def)
  have unknown: "\<not> exists_row (\<lambda>r. st_userId r = ''usr_1'') (ld_stats seeded)" "achievement_ids ''usr_1'' seeded = {}"
    "badge_ids ''usr_1'' seeded = {}"
    by (simp_all add: exists_row_def achievement_ids_def achievements_of_def badge_ids_def badges_of_def seeded_tables)
  have fresh: "fresh_draws sample_rnd (ld_draws seeded) (ld_draws db') seeded" unfolding seeded_tables(7) by (rule seeded_fresh)
  have same: "set ?es = set (badge_unlocks (drop (length (ld_outbox seeded)) (ld_outbox db')))" by (simp add: seeded_tables)
  have draws: "cs_draws (deliver_badges sample_paystack 10 ?es empty_cashback) \<le> 256"
    using deliver_draws_upper [of sample_paystack 10 ?es empty_cashback] one by (simp add: empty_cashback_def)
  have none: "cashbacks empty_cashback = {}" "cs_transactions empty_cashback = []" "net_posts (cs_net empty_cashback) = []"
    "\<forall>e \<in> set ?es. eventId e \<notin> set (cs_processed empty_cashback)" by (simp_all add: empty_cashback_def cashbacks_def)
  have "cashbacks (deliver_badges sample_paystack 10 ?es empty_cashback) =
      insert ((d_userId (sample_dto 500000), ''Beginner''), 30000) (cashbacks empty_cashback)"
    by (rule first_purchase_pays_beginner [OF start(1) _ _ start(4) run stored sample_orders_ok(1) seeded_tables(1,2) _ _ _ tx fresh same
          rtranclp.rtrancl_refl none(2,3) sample_ids [OF draws] none(4)])
      (simp_all add: start(2,3) user unknown none(1))
  then show ?thesis using tx by (auto simp: user none(1))
qed

end
